(* ===== verification/Go_Prelude.thy ===== *)
theory Go_Prelude
  imports Main "HOL-Library.Word" "HOL-Library.AList" "HOL-Library.Multiset"
begin

text \<open>
  What the components share: the integer types of the Go code, its maps, its time stamps, and
  the invariant rule for step relations.

  A Go map is an association list whose order is the order in which a \<open>range\<close> loop visits
  the entries. Go leaves that order open; the lemmas that matter are stated for every order. A
  \<open>time.Time\<close> is a number of nanoseconds since the Unix epoch.
\<close>

section \<open>Types\<close>

type_synonym uint8 = "8 word"
type_synonym int8 = "8 word"
type_synonym uint16 = "16 word"
type_synonym uint64 = "64 word"
type_synonym int64 = "64 word"
type_synonym bytes = "char list"
type_synonym address = "160 word"
type_synonym hash = "256 word"
type_synonym gotime = int

named_theorems go_map_simps and invariant_intros and branch_splits

section \<open>Go maps\<close>

type_synonym ('k, 'v) gomap = "('k \<times> 'v) list"

definition gm_get :: "('k, 'v) gomap \<Rightarrow> 'k \<Rightarrow> 'v option" where
  "gm_get m k = map_of m k"

definition gm_put :: "'k \<Rightarrow> 'v \<Rightarrow> ('k, 'v) gomap \<Rightarrow> ('k, 'v) gomap" where
  "gm_put k v m = AList.update k v m"

definition gm_del :: "'k \<Rightarrow> ('k, 'v) gomap \<Rightarrow> ('k, 'v) gomap" where
  "gm_del k m = AList.delete k m"

definition gm_ok :: "('k, 'v) gomap \<Rightarrow> bool" where
  "gm_ok m \<longleftrightarrow> distinct (map fst m)"

text \<open>The contract of a map, and what a client may conclude from it.\<close>

locale key_map =
  fixes get :: "'m \<Rightarrow> 'k \<Rightarrow> 'v option"
    and put :: "'k \<Rightarrow> 'v \<Rightarrow> 'm \<Rightarrow> 'm"
    and del :: "'k \<Rightarrow> 'm \<Rightarrow> 'm"
    and ok :: "'m \<Rightarrow> bool"
  assumes get_put: "get (put k v m) k' = (if k' = k then Some v else get m k')"
    and get_del: "get (del k m) k' = (if k' = k then None else get m k')"
    and ok_put: "ok m \<Longrightarrow> ok (put k v m)"
    and ok_del: "ok m \<Longrightarrow> ok (del k m)"
begin

lemma get_put_same: "get (put k v m) k = Some v"
  by (simp add: get_put)

lemma get_put_other: "k' \<noteq> k \<Longrightarrow> get (put k v m) k' = get m k'"
  by (simp add: get_put)

lemma get_del_same: "get (del k m) k = None"
  by (simp add: get_del)

lemma get_put_put: "get (put k v (put k u m)) = get (put k v m)"
  by (rule ext) (simp add: get_put)

lemma get_put_commute:
  "k \<noteq> k' \<Longrightarrow> get (put k v (put k' v' m)) = get (put k' v' (put k v m))"
  by (rule ext) (simp add: get_put)

lemma get_del_put: "get m k = None \<Longrightarrow> get (del k (put k v m)) = get m"
  by (rule ext) (simp add: get_put get_del)

end

interpretation gomap: key_map gm_get gm_put gm_del gm_ok
  by unfold_locales
    (auto simp: gm_get_def gm_put_def gm_del_def gm_ok_def AList.update_conv AList.delete_conv
      intro: AList.distinct_update AList.distinct_delete)

lemmas gomap_ops [simp] = gomap.get_put gomap.get_del gomap.ok_put gomap.ok_del

lemma gm_get_Nil [simp]: "gm_get [] k = None"
  by (simp add: gm_get_def)

lemma gm_ok_Nil [simp]: "gm_ok []"
  by (simp add: gm_ok_def)

lemma gm_get_in: "gm_get m k = Some v \<Longrightarrow> (k, v) \<in> set m"
  by (simp add: gm_get_def map_of_SomeD)

lemma gm_in_get: "gm_ok m \<Longrightarrow> (k, v) \<in> set m \<Longrightarrow> gm_get m k = Some v"
  by (simp add: gm_get_def gm_ok_def)

lemma gm_get_iff: "gm_ok m \<Longrightarrow> gm_get m k = Some v \<longleftrightarrow> (k, v) \<in> set m"
  by (blast intro: gm_get_in gm_in_get)

lemma gm_empty_iff: "m = [] \<longleftrightarrow> (\<forall>k. gm_get m k = None)"
proof (cases m)
  case Nil
  then show ?thesis by simp
next
  case (Cons a xs)
  then have "gm_get m (fst a) \<noteq> None" by (cases a) (simp add: gm_get_def)
  with Cons show ?thesis by auto
qed

lemma gm_get_map_values:
  "gm_get (map (\<lambda>(k, v). (k, f v)) m) k = map_option f (gm_get m k)"
  by (induction m) (auto simp: gm_get_def)

lemma gm_ok_map_values: "gm_ok (map (\<lambda>(k, v). (k, f v)) m) = gm_ok m"
  by (simp add: gm_ok_def comp_def case_prod_beta)

text \<open>Two lists hold the same map when only the order of their entries differs.\<close>

lemma gm_same_entries:
  assumes "gm_ok m" and "gm_ok m'" and "\<And>k. gm_get m k = gm_get m' k"
  shows "set m = set m'"
proof -
  have "(k, v) \<in> set m \<longleftrightarrow> (k, v) \<in> set m'" for k v
    using assms gm_get_iff by metis
  then show ?thesis by auto
qed

section \<open>Sorting by a key\<close>

text \<open>
  \<open>sort.Slice\<close> with a comparison of keys. It is not stable, so the model, which is, agrees
  with it where the keys are distinct: then the sorted list is determined by its elements.
\<close>

lemma sorted_key_unique:
  fixes f :: "'a \<Rightarrow> 'b::linorder"
  assumes "sorted (map f xs)" and "sorted (map f ys)"
    and "distinct (map f xs)" and "distinct (map f ys)" and "set xs = set ys"
  shows "xs = ys"
proof -
  have "map f xs = map f ys"
    using assms by (intro sorted_distinct_set_unique) simp_all
  moreover have "inj_on f (set xs \<union> set ys)"
    using assms(3,5) by (simp add: distinct_map)
  ultimately show ?thesis by (rule map_inj_on)
qed

lemma distinct_map_sort_key [simp]:
  "distinct (map f (sort_key g xs)) = distinct (map f xs)"
proof -
  have "mset (map f (sort_key g xs)) = mset (map f xs)" by simp
  then show ?thesis by (rule mset_eq_imp_distinct_iff)
qed

lemma sort_key_set_unique:
  assumes "distinct (map f xs)" and "distinct (map f ys)" and "set xs = set ys"
  shows "sort_key f xs = sort_key f ys"
  using assms by (intro sorted_key_unique [of f]) simp_all

section \<open>Time\<close>

definition second_ns :: int where
  "second_ns = 1000000000"

text \<open>The zero \<open>time.Time\<close> is the first of January of year one.\<close>

definition zero_time :: gotime where
  "zero_time = -62135596800 * second_ns"

definition time_IsZero :: "gotime \<Rightarrow> bool" where
  "time_IsZero t \<longleftrightarrow> t = zero_time"

text \<open>\<open>t.Sub(u)\<close> saturates at the bounds of an int64 duration.\<close>

definition time_Sub :: "gotime \<Rightarrow> gotime \<Rightarrow> int" where
  "time_Sub t u = max (- (2 ^ 63)) (min (2 ^ 63 - 1) (t - u))"

definition time_Unix :: "gotime \<Rightarrow> int" where
  "time_Unix t = t div second_ns"

definition unix_time :: "int \<Rightarrow> gotime" where
  "unix_time s = s * second_ns"

lemma time_Sub_range: "0 \<le> time_Sub t u \<and> time_Sub t u \<le> d \<Longrightarrow> d < 2 ^ 63 - 1 \<Longrightarrow>
  0 \<le> t - u \<and> t - u \<le> d"
  by (auto simp: time_Sub_def min_def max_def split: if_splits)

section \<open>Step relations\<close>

inductive reach :: "('s \<Rightarrow> bool) \<Rightarrow> ('s \<Rightarrow> 's \<Rightarrow> bool) \<Rightarrow> 's \<Rightarrow> bool" for init step where
  reach_init: "init s \<Longrightarrow> reach init step s"
| reach_step: "reach init step s \<Longrightarrow> step s t \<Longrightarrow> reach init step t"

lemma reach_mono: "reach init step s \<Longrightarrow> (\<And>t. init t \<Longrightarrow> init' t) \<Longrightarrow> reach init' step s"
  by (induction rule: reach.induct) (auto intro: reach.intros)

locale inv_machine =
  fixes init :: "'s \<Rightarrow> bool" and step :: "'s \<Rightarrow> 's \<Rightarrow> bool" and inv :: "'s \<Rightarrow> bool"
  assumes inv_init: "init s \<Longrightarrow> inv s"
    and inv_step: "inv s \<Longrightarrow> step s t \<Longrightarrow> inv t"
begin

lemma inv_reach: "reach init step s \<Longrightarrow> inv s"
  by (induction rule: reach.induct) (auto intro: inv_init inv_step)

lemma inv_steps: "step\<^sup>*\<^sup>* s t \<Longrightarrow> inv s \<Longrightarrow> inv t"
  by (induction rule: rtranclp_induct) (auto intro: inv_step)

end

end
