(* ===== verification/Go_Strings.thy ===== *)
theory Go_Strings
  imports Go_Prelude
begin

text \<open>
  The functions of Go's standard packages \<open>strings\<close>, \<open>strconv\<close>, \<open>encoding/hex\<close> and
  \<open>math/big\<close> that the code calls, on byte strings. They belong to the language's library, so
  no definition here stands for a file of the repository.
\<close>

section \<open>Decimal digits\<close>

definition byte :: "nat \<Rightarrow> char" where
  "byte n = char_of n"

definition code :: "char \<Rightarrow> nat" where
  "code c = of_char c"

lemma code_byte [simp]: "n < 256 \<Longrightarrow> code (byte n) = n"
  by (simp add: code_def byte_def)

lemma byte_code [simp]: "byte (code c) = c"
  by (simp add: code_def byte_def)

lemma code_less [simp]: "code c < 256"
  by (simp add: code_def)

definition is_digit :: "char \<Rightarrow> bool" where
  "is_digit c \<longleftrightarrow> 48 \<le> code c \<and> code c \<le> 57"

definition digit_val :: "char \<Rightarrow> int" where
  "digit_val c = int (code c - 48)"

fun format_nat :: "nat \<Rightarrow> string" where
  "format_nat n = (if n < 10 then [byte (48 + n)]
     else format_nat (n div 10) @ [byte (48 + n mod 10)])"

declare format_nat.simps [simp del]

definition digits_val :: "int \<Rightarrow> string \<Rightarrow> int" where
  "digits_val a s = foldl (\<lambda>a c. 10 * a + digit_val c) a s"

lemma digits_val_Nil [simp]: "digits_val a [] = a"
  by (simp add: digits_val_def)

lemma digits_val_Cons [simp]: "digits_val a (c # s) = digits_val (10 * a + digit_val c) s"
  by (simp add: digits_val_def)

lemma digits_val_append [simp]: "digits_val a (s @ t) = digits_val (digits_val a s) t"
  by (simp add: digits_val_def)

lemma digit_byte [simp]: "n < 10 \<Longrightarrow> is_digit (byte (48 + n))"
  "n < 10 \<Longrightarrow> digit_val (byte (48 + n)) = int n"
  by (simp_all add: is_digit_def digit_val_def)

lemma format_nat_digits: "list_all is_digit (format_nat n)"
proof (induction n rule: format_nat.induct)
  case (1 n)
  then show ?case by (subst format_nat.simps) simp
qed

lemma format_nat_nonempty [simp]: "format_nat n \<noteq> []"
  by (subst format_nat.simps) simp

lemma format_nat_head: "0 < n \<Longrightarrow> hd (format_nat n) \<noteq> CHR ''0''"
proof (induction n rule: format_nat.induct)
  case (1 n)
  have zero: "code (CHR ''0'') = 48" by (simp add: code_def)
  show ?case
  proof (cases "n < 10")
    case True
    have "byte (48 + n) \<noteq> CHR ''0''"
    proof
      assume "byte (48 + n) = CHR ''0''"
      then have "code (byte (48 + n)) = 48" by (simp only: zero)
      then show False using True 1(2) by simp
    qed
    with True show ?thesis by (subst format_nat.simps) simp
  next
    case False
    with 1 show ?thesis by (subst format_nat.simps) simp
  qed
qed

lemma digits_val_format_nat: "digits_val 0 (format_nat n) = int n"
proof (induction n rule: format_nat.induct)
  case (1 n)
  show ?case
  proof (cases "n < 10")
    case True
    then show ?thesis by (subst format_nat.simps) simp
  next
    case False
    with 1 have "digits_val 0 (format_nat n) = 10 * int (n div 10) + int (n mod 10)"
      by (subst format_nat.simps) simp
    then show ?thesis by (simp add: zdiv_int zmod_int)
  qed
qed

lemma format_nat_inject [simp]: "format_nat m = format_nat n \<longleftrightarrow> m = n"
  by (metis digits_val_format_nat of_nat_eq_iff)

text \<open>\<open>strconv.FormatUint(v, 10)\<close> and \<open>big.Int.String\<close>.\<close>

definition FormatUint :: "'a::len word \<Rightarrow> string" where
  "FormatUint w = format_nat (unat w)"

definition format_int :: "int \<Rightarrow> string" where
  "format_int i = (if i < 0 then ''-'' @ format_nat (nat (- i)) else format_nat (nat i))"

lemma FormatUint_inject [simp]: "FormatUint v = FormatUint w \<longleftrightarrow> v = w"
  by (simp add: FormatUint_def word_unat_eq_iff)

text \<open>\<open>strconv.ParseUint(s, 10, 64)\<close>: digits only, at most 64 bits.\<close>

definition ParseUint64 :: "string \<Rightarrow> uint64 option" where
  "ParseUint64 s = (if s \<noteq> [] \<and> list_all is_digit s \<and> digits_val 0 s < 2 ^ 64
     then Some (word_of_int (digits_val 0 s)) else None)"

lemma ParseUint64_format:
  "n < 2 ^ 64 \<Longrightarrow> ParseUint64 (format_nat n) = Some (of_nat n)"
  by (simp add: ParseUint64_def format_nat_digits digits_val_format_nat)

lemma ParseUint64_FormatUint: "ParseUint64 (FormatUint (w :: uint64)) = Some w"
  using unsigned_less [of w] ParseUint64_format [of "unat w"] by (simp add: FormatUint_def)

text \<open>An optional sign in front of digits, as \<open>strconv.Atoi\<close> and \<open>big.Int.SetString\<close> read it.\<close>

definition signed_digits :: "string \<Rightarrow> int option" where
  "signed_digits s =
     (let (neg, ds) = (case s of
          [] \<Rightarrow> (False, [])
        | c # cs \<Rightarrow> if c = CHR ''-'' then (True, cs)
                    else if c = CHR ''+'' then (False, cs) else (False, s))
      in if ds \<noteq> [] \<and> list_all is_digit ds
         then Some (if neg then - digits_val 0 ds else digits_val 0 ds) else None)"

text \<open>\<open>new(big.Int).SetString(s, 10)\<close>: with an explicit base no underscore is accepted.\<close>

definition big_SetString :: "string \<Rightarrow> int option" where
  "big_SetString s = signed_digits s"

definition Atoi :: "string \<Rightarrow> int option" where
  "Atoi s = (case signed_digits s of
       Some i \<Rightarrow> if - (2 ^ 63) \<le> i \<and> i < 2 ^ 63 then Some i else None
     | None \<Rightarrow> None)"

lemma signed_digits_format_nat: "signed_digits (format_nat n) = Some (int n)"
proof -
  obtain c cs where s: "format_nat n = c # cs"
    by (cases "format_nat n") auto
  then have "is_digit c" using format_nat_digits [of n] by simp
  then have "c \<noteq> CHR ''-''" and "c \<noteq> CHR ''+''"
    by (auto simp: is_digit_def code_def)
  then show ?thesis
    using format_nat_digits [of n] digits_val_format_nat [of n]
    by (simp add: signed_digits_def s)
qed

lemma big_SetString_format [simp]: "big_SetString (format_nat n) = Some (int n)"
  by (simp add: big_SetString_def signed_digits_format_nat)

text \<open>\<open>big.Int.BitLen\<close>: the number of bits of the absolute value.\<close>

fun bit_len :: "nat \<Rightarrow> nat" where
  "bit_len n = (if n = 0 then 0 else Suc (bit_len (n div 2)))"

declare bit_len.simps [simp del]

definition big_BitLen :: "int \<Rightarrow> nat" where
  "big_BitLen i = bit_len (nat \<bar>i\<bar>)"

lemma bit_len_le: "bit_len n \<le> k \<longleftrightarrow> n < 2 ^ k"
proof (induction n arbitrary: k rule: bit_len.induct)
  case (1 n)
  show ?case
  proof (cases "n = 0")
    case True
    then show ?thesis by (simp add: bit_len.simps)
  next
    case False
    show ?thesis
    proof (cases k)
      case 0
      with False show ?thesis by (simp add: bit_len.simps)
    next
      case (Suc j)
      have "bit_len n \<le> k \<longleftrightarrow> bit_len (n div 2) \<le> j"
        using False Suc by (simp add: bit_len.simps [of n])
      also have "\<dots> \<longleftrightarrow> n div 2 < 2 ^ j" using 1 False by blast
      also have "\<dots> \<longleftrightarrow> n < 2 ^ k" using Suc by (simp add: less_mult_imp_div_less) linarith
      finally show ?thesis .
    qed
  qed
qed

lemma big_BitLen_le: "0 \<le> i \<Longrightarrow> big_BitLen i \<le> k \<longleftrightarrow> i < 2 ^ k"
  by (simp add: big_BitLen_def bit_len_le nat_less_iff)

section \<open>Prefixes, splitting and trimming\<close>

definition HasPrefix :: "string \<Rightarrow> string \<Rightarrow> bool" where
  "HasPrefix s p \<longleftrightarrow> take (length p) s = p"

definition TrimPrefix :: "string \<Rightarrow> string \<Rightarrow> string" where
  "TrimPrefix s p = (if HasPrefix s p then drop (length p) s else s)"

fun str_contains :: "string \<Rightarrow> string \<Rightarrow> bool" where
  "str_contains [] p = (p = [])"
| "str_contains (c # s) p = (HasPrefix (c # s) p \<or> str_contains s p)"

lemma HasPrefix_append [simp]: "HasPrefix (p @ s) p"
  by (simp add: HasPrefix_def)

lemma HasPrefix_iff: "HasPrefix s p \<longleftrightarrow> (\<exists>t. s = p @ t)"
  by (auto simp: HasPrefix_def) (metis append_take_drop_id)

lemma str_contains_iff: "str_contains s p \<longleftrightarrow> (\<exists>a b. s = a @ p @ b)"
proof (induction s)
  case Nil
  then show ?case by simp
next
  case (Cons c s)
  have "(\<exists>a b. c # s = a @ p @ b) \<longleftrightarrow> (\<exists>b. c # s = p @ b) \<or> (\<exists>a b. s = a @ p @ b)"
    by (auto simp: Cons_eq_append_conv [of c s])
  with Cons show ?case by (simp add: HasPrefix_iff)
qed

text \<open>\<open>strings.SplitN(s, sep, 2)\<close> at a one-character separator: None when it does not occur.\<close>

fun split_once :: "char \<Rightarrow> string \<Rightarrow> (string \<times> string) option" where
  "split_once c [] = None"
| "split_once c (x # xs) = (if x = c then Some ([], xs)
     else (case split_once c xs of None \<Rightarrow> None | Some (a, b) \<Rightarrow> Some (x # a, b)))"

fun str_split :: "char \<Rightarrow> string \<Rightarrow> string list" where
  "str_split c [] = [[]]"
| "str_split c (x # xs) = (if x = c then [] # str_split c xs
     else (case str_split c xs of [] \<Rightarrow> [[x]] | w # ws \<Rightarrow> (x # w) # ws))"

fun str_join :: "string \<Rightarrow> string list \<Rightarrow> string" where
  "str_join sep [] = []"
| "str_join sep [w] = w"
| "str_join sep (w # ws) = w @ sep @ str_join sep ws"

lemma split_once_Some: "split_once c s = Some (a, b) \<Longrightarrow> s = a @ c # b \<and> c \<notin> set a"
  by (induction s arbitrary: a b) (auto split: if_splits option.splits)

lemma split_once_None: "split_once c s = None \<longleftrightarrow> c \<notin> set s"
  by (induction s) (auto split: option.splits)

text \<open>The white space of \<open>strings.TrimSpace\<close>: \<open>unicode.IsSpace\<close>, in UTF-8.\<close>

definition space_seqs :: "string list" where
  "space_seqs = map (map byte)
     ([[9], [10], [11], [12], [13], [32], [0xC2, 0x85], [0xC2, 0xA0], [0xE1, 0x9A, 0x80]]
      @ map (\<lambda>i. [0xE2, 0x80, 0x80 + i]) [0..<11]
      @ [[0xE2, 0x80, 0xA8], [0xE2, 0x80, 0xA9], [0xE2, 0x80, 0xAF], [0xE2, 0x81, 0x9F],
         [0xE3, 0x80, 0x80]])"

definition strip_one :: "string list \<Rightarrow> string \<Rightarrow> string option" where
  "strip_one ws s = (case filter (HasPrefix s) ws of
       [] \<Rightarrow> None
     | w # _ \<Rightarrow> if w = [] then None else Some (drop (length w) s))"

lemma strip_one_shorter: "strip_one ws s = Some t \<Longrightarrow> length t < length s"
  by (auto simp: strip_one_def HasPrefix_def filter_eq_Cons_iff split: list.splits if_splits)
    (metis diff_less length_greater_0_conv take_Nil)

function trim_left :: "string list \<Rightarrow> string \<Rightarrow> string" where
  "trim_left ws s = (case strip_one ws s of None \<Rightarrow> s | Some t \<Rightarrow> trim_left ws t)"
  by pat_completeness auto
termination
  by (relation "measure (\<lambda>(ws, s). length s)") (auto dest: strip_one_shorter)

declare trim_left.simps [simp del]

definition TrimSpace :: "string \<Rightarrow> string" where
  "TrimSpace s =
     (let t = trim_left space_seqs s
      in rev (trim_left (map rev space_seqs) (rev t)))"

section \<open>Hexadecimal\<close>

definition hex_digit :: "nat \<Rightarrow> char" where
  "hex_digit n = (if n < 10 then byte (48 + n) else byte (87 + n))"

definition hex_val :: "char \<Rightarrow> nat option" where
  "hex_val c = (let n = code c in
     if 48 \<le> n \<and> n \<le> 57 then Some (n - 48)
     else if 97 \<le> n \<and> n \<le> 102 then Some (n - 87)
     else if 65 \<le> n \<and> n \<le> 70 then Some (n - 55) else None)"

fun hex_encode :: "bytes \<Rightarrow> string" where
  "hex_encode [] = []"
| "hex_encode (b # bs) = hex_digit (code b div 16) # hex_digit (code b mod 16) # hex_encode bs"

fun hex_decode :: "string \<Rightarrow> bytes option" where
  "hex_decode [] = Some []"
| "hex_decode [_] = None"
| "hex_decode (a # b # s) = (case (hex_val a, hex_val b) of
     (Some x, Some y) \<Rightarrow> map_option ((#) (byte (16 * x + y))) (hex_decode s)
   | _ \<Rightarrow> None)"

lemma hex_val_digit [simp]: "n < 16 \<Longrightarrow> hex_val (hex_digit n) = Some n"
  by (auto simp: hex_val_def hex_digit_def)

lemma hex_decode_encode [simp]: "hex_decode (hex_encode bs) = Some bs"
proof (induction bs)
  case Nil
  then show ?case by simp
next
  case (Cons b bs)
  have "code b div 16 < 16" by (simp add: less_mult_imp_div_less)
  with Cons show ?case by simp
qed

end
