(* ===== verification/Vault.thy ===== *)
theory Vault
  imports Go_Strings
begin

text \<open>
  The vault contract \<open>contracts/DarkStopVault.sol\<close>. Its storage, native balance and the trace of what
  it emits and calls are a record; a function of the contract takes the message, the state of the
  contract and of the rest of the chain, and returns both or an error, which the dispatch turns into
  a revert.

  Every other contract is a parameter, field by field of \<open>vault_env\<close>; its state is the \<open>'w\<close>. A
  contract that the vault calls with a transaction may call back any function of the vault, in any
  order and nested up to the depth of the machine's call stack: \<open>reaction\<close> says what it does. Gas is
  left out.
\<close>

section \<open>Errors and checked arithmetic\<close>

type_synonym uint256 = "256 word"

datatype vault_error = Revert string | Panic | CallFailed

definition sol_require :: "bool \<Rightarrow> string \<Rightarrow> vault_error + 'a \<Rightarrow> vault_error + 'a" where
  "sol_require b m k = (if b then k else Inl (Revert m))"

text \<open>The result of an arithmetic operation of Solidity 0.8, which panics outside \<open>uint256\<close>.\<close>

definition checked :: "int \<Rightarrow> (uint256 \<Rightarrow> vault_error + 'a) \<Rightarrow> vault_error + 'a" where
  "checked x k = (if 0 \<le> x \<and> x < 2 ^ 256 then k (word_of_int x) else Inl Panic)"

lemma sol_require_Inr [simp]: "sol_require b m k = Inr r \<longleftrightarrow> b \<and> k = Inr r"
  by (simp add: sol_require_def)

lemma checked_Inr [simp]: "checked x k = Inr r \<longleftrightarrow> 0 \<le> x \<and> x < 2 ^ 256 \<and> k (word_of_int x) = Inr r"
  by (auto simp: checked_def)

lemma checked_ok: "0 \<le> x \<Longrightarrow> x < 2 ^ 256 \<Longrightarrow> checked x k = k (word_of_int x)"
  by (simp add: checked_def)

lemma uint_checked: "0 \<le> x \<Longrightarrow> x < 2 ^ 256 \<Longrightarrow> uint (word_of_int x :: uint256) = x"
  by (simp add: uint_word_of_int)

lemma uint256_less: "uint (a :: uint256) < 2 ^ 256"
  using unsigned_less [of a] by simp

section \<open>State\<close>

definition bytes32 :: "string \<Rightarrow> bytes" where
  "bytes32 s = s @ replicate (32 - length s) (byte 0)"

definition OP_TYPE_DARKSTOP :: bytes where "OP_TYPE_DARKSTOP = bytes32 ''DARKSTOP''"
definition OP_COMMAND_PLACE :: bytes where "OP_COMMAND_PLACE = bytes32 ''PLACE_ORDER''"
definition OP_COMMAND_CANCEL :: bytes where "OP_COMMAND_CANCEL = bytes32 ''CANCEL_ORDER''"
definition FLR_USD :: bytes where "FLR_USD = byte 1 # ''FLR/USD'' @ replicate 13 (byte 0)"
definition PAYOUT_DECIMALS :: int where "PAYOUT_DECIMALS = 6"
definition MAX_PRICE_AGE_SEC :: uint256 where "MAX_PRICE_AGE_SEC = 300"
definition STATUS_NONE :: uint8 where "STATUS_NONE = 0"
definition STATUS_OPEN :: uint8 where "STATUS_OPEN = 1"
definition STATUS_EXECUTED :: uint8 where "STATUS_EXECUTED = 2"
definition STATUS_CANCELLED :: uint8 where "STATUS_CANCELLED = 3"

record VaultOrder =
  order_owner :: address
  order_deposit :: uint256
  order_status :: uint8

record TeeInstructionParams =
  opType :: bytes
  opCommand :: bytes
  ins_message :: bytes
  cosigners :: "address list"
  cosignersThreshold :: uint64
  claimBackAddress :: address

text \<open>The calls that can run foreign code, and what the trace records.\<close>

datatype outcall = SendInstructions uint256 "address list" TeeInstructionParams
  | TokenTransfer address uint256 | NativeTransfer address uint256

datatype vault_event = OrderPlaced uint256 address | OrderExecuted uint256 uint256
  | OrderCancelled uint256 | Called outcall

record Vault =
  TEE_EXTENSION_REGISTRY :: address
  TEE_MACHINE_REGISTRY :: address
  FTSO_V2 :: address
  PAYOUT_TOKEN :: address
  vault_OWNER :: address
  INSTRUCTION_FEE :: uint256
  vault_orders :: "uint256 \<Rightarrow> VaultOrder"
  nextOrderId :: uint256
  teeExecutor :: address
  extensionId :: uint256
  native_balance :: int
  trace :: "vault_event list"

type_synonym 'w vst = "Vault \<times> 'w"

datatype vault_function = CallSetExtensionId | CallPlaceOrder bytes | CallSetTeeExecutor address
  | CallSettle uint256 uint256 uint256 | CallCancel uint256

text \<open>A message of the chain to the vault: sender, value and call, or ether forced upon it.\<close>

datatype vault_msg = Msg address uint256 vault_function | ForceEther uint256

text \<open>A called contract fails, or sends messages to the vault, then changes its own world and returns.\<close>

record 'w vault_env =
  this_address :: address
  block_timestamp :: "'w \<Rightarrow> uint256"
  extensionsCounter :: "address \<Rightarrow> 'w \<Rightarrow> uint256 option"
  getTeeExtensionInstructionsSender :: "address \<Rightarrow> uint256 \<Rightarrow> 'w \<Rightarrow> address option"
  getRandomTeeIds :: "address \<Rightarrow> uint256 \<Rightarrow> uint256 \<Rightarrow> 'w \<Rightarrow> address list option"
  getFeedById :: "address \<Rightarrow> bytes \<Rightarrow> 'w \<Rightarrow> (uint256 \<times> int8 \<times> uint64) option"
  reaction :: "outcall \<Rightarrow> 'w vst \<Rightarrow> (vault_msg list \<times> bool \<times> ('w \<Rightarrow> 'w)) option"

type_synonym 'w outside = "outcall \<Rightarrow> 'w vst \<Rightarrow> vault_error + (bool \<times> 'w vst)"

definition emit :: "vault_event \<Rightarrow> Vault \<Rightarrow> Vault" where
  "emit ev v = v\<lparr>trace := trace v @ [ev]\<rparr>"

definition credit :: "uint256 \<Rightarrow> Vault \<Rightarrow> Vault" where
  "credit value v = v\<lparr>native_balance := native_balance v + uint value\<rparr>"

fun outcall_value :: "outcall \<Rightarrow> uint256" where
  "outcall_value (SendInstructions value _ _) = value"
| "outcall_value (TokenTransfer _ _) = 0"
| "outcall_value (NativeTransfer _ value) = value"

text \<open>An outgoing call first moves its value, which the balance must cover.\<close>

definition call_out :: "'w outside \<Rightarrow> outcall \<Rightarrow> 'w vst \<Rightarrow> vault_error + (bool \<times> 'w vst)" where
  "call_out out c st = (case st of (v, x) \<Rightarrow>
     if native_balance v < uint (outcall_value c) then Inl CallFailed
     else out c (emit (Called c) (v\<lparr>native_balance := native_balance v - uint (outcall_value c)\<rparr>), x))"

section \<open>ABI encoding\<close>

definition abi_word :: "uint256 \<Rightarrow> bytes" where
  "abi_word n = map (\<lambda>k. byte (nat (uint n div 256 ^ k mod 256))) (rev [0..<32])"

definition abi_pad :: "bytes \<Rightarrow> bytes" where
  "abi_pad b = b @ replicate ((32 - length b mod 32) mod 32) (byte 0)"

definition abi_encode_id :: "uint256 \<Rightarrow> bytes" where
  "abi_encode_id i = abi_word i"

definition abi_encode_id_bytes :: "uint256 \<Rightarrow> bytes \<Rightarrow> bytes" where
  "abi_encode_id_bytes i b = abi_word i @ abi_word 64 @ abi_word (of_nat (length b)) @ abi_pad b"

section \<open>The contract\<close>

definition vault_constructor :: "(address \<Rightarrow> nat) \<Rightarrow> address \<Rightarrow> address \<Rightarrow> address \<Rightarrow> address \<Rightarrow> address \<Rightarrow> uint256
    \<Rightarrow> vault_error + Vault" where
  "vault_constructor code_length sender extensionRegistry machineRegistry ftsoV2 payoutToken instructionFee =
     sol_require (extensionRegistry \<noteq> 0) ''TeeExtensionRegistry cannot be zero address''
    (sol_require (machineRegistry \<noteq> 0) ''TeeMachineRegistry cannot be zero address''
    (sol_require (0 < code_length extensionRegistry) ''TeeExtensionRegistry has no code''
    (sol_require (0 < code_length machineRegistry) ''TeeMachineRegistry has no code''
    (sol_require (ftsoV2 \<noteq> 0) ''FtsoV2 cannot be zero address''
    (sol_require (payoutToken \<noteq> 0) ''Payout token cannot be zero address''
    (Inr \<lparr>TEE_EXTENSION_REGISTRY = extensionRegistry, TEE_MACHINE_REGISTRY = machineRegistry,
       FTSO_V2 = ftsoV2, PAYOUT_TOKEN = payoutToken, vault_OWNER = sender, INSTRUCTION_FEE = instructionFee,
       vault_orders = (\<lambda>_. \<lparr>order_owner = 0, order_deposit = 0, order_status = 0\<rparr>), nextOrderId = 0,
       teeExecutor = 0, extensionId = 0, native_balance = 0, trace = []\<rparr>))))))"

text \<open>The loop over the registered extensions: \<open>n\<close> of them are left, \<open>i\<close> is the next.\<close>

fun find_extension :: "(uint256 \<Rightarrow> address option) \<Rightarrow> address \<Rightarrow> nat \<Rightarrow> uint256 \<Rightarrow> vault_error + uint256" where
  "find_extension sender_of this 0 i = Inl (Revert ''Extension ID not found.'')"
| "find_extension sender_of this (Suc n) i = (case sender_of i of
     None \<Rightarrow> Inl CallFailed
   | Some a \<Rightarrow> if a = this then Inr i else find_extension sender_of this n (i + 1))"

definition setExtensionId :: "'w vault_env \<Rightarrow> 'w vst \<Rightarrow> vault_error + 'w vst" where
  "setExtensionId E st = (case st of (v, x) \<Rightarrow>
     sol_require (extensionId v = 0) ''Extension ID already set.''
    (case extensionsCounter E (TEE_EXTENSION_REGISTRY v) x of
       None \<Rightarrow> Inl CallFailed
     | Some c \<Rightarrow> (case find_extension (\<lambda>i. getTeeExtensionInstructionsSender E (TEE_EXTENSION_REGISTRY v) i x)
           (this_address E) (unat c) 0 of
         Inl er \<Rightarrow> Inl er
       | Inr i \<Rightarrow> Inr (v\<lparr>extensionId := i\<rparr>, x))))"

definition getExtensionId :: "Vault \<Rightarrow> (uint256 \<Rightarrow> vault_error + 'a) \<Rightarrow> vault_error + 'a" where
  "getExtensionId v k = sol_require (extensionId v \<noteq> 0) ''Extension ID is not set.'' (k (extensionId v))"

definition sendInstruction :: "'w vault_env \<Rightarrow> 'w outside \<Rightarrow> address \<Rightarrow> bytes \<Rightarrow> bytes \<Rightarrow> uint256 \<Rightarrow> 'w vst
    \<Rightarrow> vault_error + 'w vst" where
  "sendInstruction E out sender command payload fee st = (case st of (v, x) \<Rightarrow>
     getExtensionId v (\<lambda>ext. case getRandomTeeIds E (TEE_MACHINE_REGISTRY v) ext 1 x of
       None \<Rightarrow> Inl CallFailed
     | Some teeIds \<Rightarrow> (case call_out out (SendInstructions fee teeIds
           \<lparr>opType = OP_TYPE_DARKSTOP, opCommand = command, ins_message = payload, cosigners = [],
            cosignersThreshold = 0, claimBackAddress = sender\<rparr>) st of
         Inl er \<Rightarrow> Inl er
       | Inr (_, st') \<Rightarrow> Inr st')))"

definition placeOrder :: "'w vault_env \<Rightarrow> 'w outside \<Rightarrow> address \<Rightarrow> uint256 \<Rightarrow> bytes \<Rightarrow> 'w vst
    \<Rightarrow> vault_error + 'w vst" where
  "placeOrder E out sender value ciphertext st = (case st of (v, x) \<Rightarrow>
     sol_require (0 < length ciphertext) ''empty ciphertext''
    (sol_require (value > INSTRUCTION_FEE v) ''value must exceed instruction fee''
    (checked (uint (nextOrderId v) + 1) (\<lambda>i.
     checked (uint value - uint (INSTRUCTION_FEE v)) (\<lambda>deposit.
     sendInstruction E out sender OP_COMMAND_PLACE (abi_encode_id_bytes i ciphertext) (INSTRUCTION_FEE v)
       (emit (OrderPlaced i sender) (v\<lparr>nextOrderId := i, vault_orders := (vault_orders v)(i :=
          \<lparr>order_owner = sender, order_deposit = deposit, order_status = STATUS_OPEN\<rparr>)\<rparr>), x))))))"

definition setTeeExecutor :: "address \<Rightarrow> address \<Rightarrow> 'w vst \<Rightarrow> vault_error + 'w vst" where
  "setTeeExecutor sender executor st = (case st of (v, x) \<Rightarrow>
     sol_require (sender = vault_OWNER v) ''not contract owner'' (Inr (v\<lparr>teeExecutor := executor\<rparr>, x)))"

definition toPayoutDecimals :: "uint256 \<Rightarrow> int8 \<Rightarrow> (uint256 \<Rightarrow> vault_error + 'a) \<Rightarrow> vault_error + 'a" where
  "toPayoutDecimals value decimals k = (let shift = PAYOUT_DECIMALS - sint decimals in
     if shift \<ge> 0 then checked (10 ^ nat shift) (\<lambda>p. checked (uint value * uint p) k)
     else checked (10 ^ nat (- shift)) (\<lambda>p. k (value div p)))"

definition with_status :: "uint256 \<Rightarrow> uint8 \<Rightarrow> Vault \<Rightarrow> Vault" where
  "with_status i s v = v\<lparr>vault_orders := (vault_orders v)(i := (vault_orders v i)\<lparr>order_status := s\<rparr>)\<rparr>"

definition settle_vault :: "'w vault_env \<Rightarrow> 'w outside \<Rightarrow> address \<Rightarrow> uint256 \<Rightarrow> uint256 \<Rightarrow> uint256 \<Rightarrow> 'w vst
    \<Rightarrow> vault_error + 'w vst" where
  "settle_vault E out sender i trigger maxAge st = (case st of (v, x) \<Rightarrow>
     sol_require (sender = teeExecutor v) ''not tee executor''
    (sol_require (maxAge \<le> MAX_PRICE_AGE_SEC) ''max age exceeds protocol limit''
    (sol_require (order_status (vault_orders v i) = STATUS_OPEN) ''order not open''
    (case getFeedById E (FTSO_V2 v) FLR_USD x of
       None \<Rightarrow> Inl CallFailed
     | Some (value, decimals, timestamp) \<Rightarrow>
        checked (uint (block_timestamp E x) - uint timestamp) (\<lambda>age.
        sol_require (age \<le> maxAge) ''stale price''
       (toPayoutDecimals value decimals (\<lambda>price.
        sol_require (price \<le> trigger) ''price above trigger''
       (checked (uint (order_deposit (vault_orders v i)) * uint price) (\<lambda>amount.
       (case call_out out (TokenTransfer (order_owner (vault_orders v i)) (amount div 10 ^ 18))
           (emit (OrderExecuted i price) (with_status i STATUS_EXECUTED v), x) of
          Inl er \<Rightarrow> Inl er
        | Inr (ok, st') \<Rightarrow> sol_require ok ''payout transfer failed'' (Inr st')))))))))))"

definition cancel_vault :: "'w vault_env \<Rightarrow> 'w outside \<Rightarrow> address \<Rightarrow> uint256 \<Rightarrow> uint256 \<Rightarrow> 'w vst
    \<Rightarrow> vault_error + 'w vst" where
  "cancel_vault E out sender value i st = (case st of (v, x) \<Rightarrow>
     sol_require (order_owner (vault_orders v i) = sender) ''not order owner''
    (sol_require (order_status (vault_orders v i) = STATUS_OPEN) ''order not open''
    (case sendInstruction E out sender OP_COMMAND_CANCEL (abi_encode_id i) value
         (emit (OrderCancelled i) (with_status i STATUS_CANCELLED v), x) of
       Inl er \<Rightarrow> Inl er
     | Inr st1 \<Rightarrow> (case call_out out (NativeTransfer sender (order_deposit (vault_orders v i))) st1 of
         Inl er \<Rightarrow> Inl (Revert ''refund failed'')
       | Inr (ok, st') \<Rightarrow> sol_require ok ''refund failed'' (Inr st')))))"

section \<open>Messages and nested calls\<close>

text \<open>A function that is not payable rejects value; the others run with the value credited.\<close>

definition run_call :: "'w vault_env \<Rightarrow> 'w outside \<Rightarrow> address \<Rightarrow> uint256 \<Rightarrow> vault_function \<Rightarrow> 'w vst
    \<Rightarrow> vault_error + 'w vst" where
  "run_call E out sender value c st = (let paid = (credit value (fst st), snd st) in case c of
     CallSetExtensionId \<Rightarrow> sol_require (value = 0) [] (setExtensionId E st)
   | CallPlaceOrder ciphertext \<Rightarrow> placeOrder E out sender value ciphertext paid
   | CallSetTeeExecutor a \<Rightarrow> sol_require (value = 0) [] (setTeeExecutor sender a st)
   | CallSettle i trigger maxAge \<Rightarrow> sol_require (value = 0) [] (settle_vault E out sender i trigger maxAge st)
   | CallCancel i \<Rightarrow> cancel_vault E out sender value i paid)"

fun run_msg :: "'w vault_env \<Rightarrow> 'w outside \<Rightarrow> vault_msg \<Rightarrow> 'w vst \<Rightarrow> 'w vst" where
  "run_msg E out (ForceEther value) st = (credit value (fst st), snd st)"
| "run_msg E out (Msg sender value c) st = (case run_call E out sender value c st of
     Inl _ \<Rightarrow> st | Inr st' \<Rightarrow> st')"

text \<open>What foreign code does when \<open>depth\<close> further nested calls are possible.\<close>

fun outside_at :: "'w vault_env \<Rightarrow> nat \<Rightarrow> 'w outside" where
  "outside_at E 0 c st = Inl CallFailed"
| "outside_at E (Suc depth) c st = (case reaction E c st of
     None \<Rightarrow> Inl CallFailed
   | Some (msgs, ret, upd) \<Rightarrow> (case fold (run_msg E (outside_at E depth)) msgs st of
       (v, x) \<Rightarrow> Inr (ret, (v, upd x))))"

definition call_depth :: nat where "call_depth = 1024"

lemma call_depth_Suc: "call_depth = Suc 1023"
  by (simp add: call_depth_def)

lemma outside_quiet:
  "reaction E c (v, x) = Some ([], r, upd) \<Longrightarrow> outside_at E call_depth c (v, x) = Inr (r, (v, upd x))"
  unfolding call_depth_Suc outside_at.simps by simp

definition vault_tx :: "'w vault_env \<Rightarrow> vault_msg \<Rightarrow> 'w vst \<Rightarrow> 'w vst" where
  "vault_tx E = run_msg E (outside_at E call_depth)"

text \<open>Transactions to the vault, and changes of the rest of the chain, in any order.\<close>

inductive vault_step :: "'w vault_env \<Rightarrow> 'w vst \<Rightarrow> 'w vst \<Rightarrow> bool" for E where
  vault_msg: "vault_step E st (vault_tx E m st)"
| vault_world: "vault_step E (v, x) (v, x')"

inductive_cases vault_stepE: "vault_step E st st'"

definition deployed_vault :: "'w vst \<Rightarrow> bool" where
  "deployed_vault st \<longleftrightarrow> (\<exists>code_length sender er mr f t fee.
     vault_constructor code_length sender er mr f t fee = Inr (fst st))"

end
