(* ===== verification/Vault_Inv.thy ===== *)
theory Vault_Inv
  imports Vault "HOL-Library.Multiset"
begin

text \<open>
  The invariant of the vault under reentrant calls. As foreign code may call back in the middle of a
  function, two things are shown of every function, under the assumption that foreign code respects
  them: it preserves \<open>vault_inv\<close>, which holds whenever foreign code runs, and it makes \<open>progress\<close>, a
  preorder between the states before and after: the free balance does not shrink, and the refunds
  paid in between are those of the orders cancelled in between. Induction on the depth of the calls
  then discharges the assumption.
\<close>

section \<open>Accounts\<close>

definition open_part :: "VaultOrder \<Rightarrow> int" where
  "open_part o1 = (if order_status o1 = STATUS_OPEN then uint (order_deposit o1) else 0)"

definition open_deposits :: "Vault \<Rightarrow> int" where
  "open_deposits v = (\<Sum>i\<in>UNIV. open_part (vault_orders v i))"

definition free_balance :: "Vault \<Rightarrow> int" where
  "free_balance v = native_balance v - open_deposits v"

definition cancelled_part :: "VaultOrder \<Rightarrow> (address \<times> uint256) multiset" where
  "cancelled_part o1 = (if order_status o1 = STATUS_CANCELLED then {#(order_owner o1, order_deposit o1)#} else {#})"

definition due_refunds :: "Vault \<Rightarrow> (address \<times> uint256) multiset" where
  "due_refunds v = (\<Sum>i\<in>UNIV. cancelled_part (vault_orders v i))"

text \<open>What the trace says.\<close>

fun refund_of :: "vault_event \<Rightarrow> (address \<times> uint256) option" where
  "refund_of (Called (NativeTransfer a n)) = Some (a, n)"
| "refund_of _ = None"

fun payout_of :: "vault_event \<Rightarrow> (address \<times> uint256) option" where
  "payout_of (Called (TokenTransfer a n)) = Some (a, n)"
| "payout_of _ = None"

fun placed_of :: "vault_event \<Rightarrow> uint256 option" where
  "placed_of (OrderPlaced i _) = Some i"
| "placed_of _ = None"

fun executed_of :: "vault_event \<Rightarrow> (uint256 \<times> uint256) option" where
  "executed_of (OrderExecuted i price) = Some (i, price)"
| "executed_of _ = None"

fun cancelled_of :: "vault_event \<Rightarrow> uint256 option" where
  "cancelled_of (OrderCancelled i) = Some i"
| "cancelled_of _ = None"

definition logged :: "(vault_event \<Rightarrow> 'a option) \<Rightarrow> Vault \<Rightarrow> 'a list" where
  "logged f v = List.map_filter f (trace v)"

definition payout_amount :: "uint256 \<Rightarrow> uint256 \<Rightarrow> uint256" where
  "payout_amount deposit price = word_of_int (uint deposit * uint price) div 10 ^ 18"

definition due_payout :: "Vault \<Rightarrow> uint256 \<times> uint256 \<Rightarrow> address \<times> uint256" where
  "due_payout v ex = (order_owner (vault_orders v (fst ex)), payout_amount (order_deposit (vault_orders v (fst ex))) (snd ex))"

section \<open>Invariant and progress\<close>

definition log_matches :: "uint256 list \<Rightarrow> (VaultOrder \<Rightarrow> bool) \<Rightarrow> Vault \<Rightarrow> bool" where
  "log_matches is P v \<longleftrightarrow> distinct is \<and> set is = {i. P (vault_orders v i)}"

definition vault_inv :: "Vault \<Rightarrow> bool" where
  "vault_inv v \<longleftrightarrow> (\<forall>i. nextOrderId v < i \<or> i = 0 \<longrightarrow> order_status (vault_orders v i) = STATUS_NONE)
     \<and> log_matches (logged placed_of v) (\<lambda>o1. order_status o1 \<noteq> STATUS_NONE) v
     \<and> log_matches (map fst (logged executed_of v)) (\<lambda>o1. order_status o1 = STATUS_EXECUTED) v
     \<and> log_matches (logged cancelled_of v) (\<lambda>o1. order_status o1 = STATUS_CANCELLED) v
     \<and> logged payout_of v = map (due_payout v) (logged executed_of v)"

text \<open>An order is placed once, then executed or cancelled once, with owner and deposit fixed.\<close>

definition order_le :: "VaultOrder \<Rightarrow> VaultOrder \<Rightarrow> bool" where
  "order_le o1 o2 \<longleftrightarrow> o2 = o1 \<or> (order_status o1 = STATUS_NONE \<and> order_status o2 \<noteq> STATUS_NONE)
     \<or> (order_status o1 = STATUS_OPEN \<and> order_status o2 \<in> {STATUS_EXECUTED, STATUS_CANCELLED}
        \<and> order_owner o2 = order_owner o1 \<and> order_deposit o2 = order_deposit o1)"

definition evolves :: "Vault \<Rightarrow> Vault \<Rightarrow> bool" where
  "evolves v v' \<longleftrightarrow> vault_OWNER v' = vault_OWNER v \<and> INSTRUCTION_FEE v' = INSTRUCTION_FEE v
     \<and> FTSO_V2 v' = FTSO_V2 v \<and> PAYOUT_TOKEN v' = PAYOUT_TOKEN v
     \<and> TEE_EXTENSION_REGISTRY v' = TEE_EXTENSION_REGISTRY v \<and> TEE_MACHINE_REGISTRY v' = TEE_MACHINE_REGISTRY v
     \<and> (extensionId v \<noteq> 0 \<longrightarrow> extensionId v' = extensionId v) \<and> nextOrderId v \<le> nextOrderId v'
     \<and> (\<forall>i. order_le (vault_orders v i) (vault_orders v' i)) \<and> (\<exists>t. trace v' = trace v @ t)"

definition progress :: "Vault \<Rightarrow> Vault \<Rightarrow> bool" where
  "progress v v' \<longleftrightarrow> evolves v v' \<and> free_balance v \<le> free_balance v'
     \<and> due_refunds v + mset (logged refund_of v') = due_refunds v' + mset (logged refund_of v)"

lemma order_le_refl [simp]: "order_le o1 o1"
  by (simp add: order_le_def)

lemma order_le_trans: "order_le o1 o2 \<Longrightarrow> order_le o2 o3 \<Longrightarrow> order_le o1 o3"
  by (auto simp: order_le_def STATUS_NONE_def STATUS_OPEN_def STATUS_EXECUTED_def STATUS_CANCELLED_def)

lemma evolves_refl [simp]: "evolves v v"
  by (simp add: evolves_def)

lemma evolves_trans: "evolves v1 v2 \<Longrightarrow> evolves v2 v3 \<Longrightarrow> evolves v1 v3"
  unfolding evolves_def by (auto intro: order_le_trans)

lemma progress_refl [simp]: "progress v v"
  by (simp add: progress_def)

lemma balance_trans:
  fixes d1 :: "'a :: cancel_comm_monoid_add"
  assumes "d1 + r2 = d2 + r1" and "d2 + r3 = d3 + r2"
  shows "d1 + r3 = d3 + r1"
proof -
  have "d1 + r3 + (d2 + r2) = (d1 + r2) + (d2 + r3)" by (simp only: ac_simps)
  also have "\<dots> = (d2 + r1) + (d3 + r2)" by (simp only: assms)
  also have "\<dots> = d3 + r1 + (d2 + r2)" by (simp only: ac_simps)
  finally show ?thesis by simp
qed

lemma progress_trans: "progress v1 v2 \<Longrightarrow> progress v2 v3 \<Longrightarrow> progress v1 v3"
  unfolding progress_def using evolves_trans balance_trans by fastforce

definition tame :: "'w outside \<Rightarrow> bool" where
  "tame out \<longleftrightarrow> (\<forall>c v x r v' x'. vault_inv v \<and> out c (v, x) = Inr (r, (v', x')) \<longrightarrow> vault_inv v' \<and> progress v v')"

section \<open>Changing one order\<close>

lemma sum_upd:
  fixes g :: "'b \<Rightarrow> 'c :: comm_monoid_add"
  shows "(\<Sum>i\<in>UNIV. g ((f(k := y)) i)) + g (f k) = (\<Sum>i\<in>(UNIV :: 'a :: finite set). g (f i)) + g y"
proof -
  have "(\<Sum>i\<in>UNIV. h i) = h k + (\<Sum>i\<in>UNIV - {k}. h i)" for h :: "'a \<Rightarrow> 'c"
    by (rule sum.remove) simp_all
  moreover have "(\<Sum>i\<in>UNIV - {k}. g ((f(k := y)) i)) = (\<Sum>i\<in>UNIV - {k}. g (f i))"
    by (rule sum.cong) auto
  ultimately show ?thesis by (simp add: add.commute add.left_commute)
qed

lemma open_deposits_upd:
  "open_deposits (v\<lparr>vault_orders := (vault_orders v)(i := o1)\<rparr>) = open_deposits v - open_part (vault_orders v i) + open_part o1"
  using sum_upd [of open_part "vault_orders v" i o1] by (simp add: open_deposits_def)

lemma due_refunds_upd:
  "due_refunds (v\<lparr>vault_orders := (vault_orders v)(i := o1)\<rparr>) + cancelled_part (vault_orders v i)
     = due_refunds v + cancelled_part o1"
  using sum_upd [of cancelled_part "vault_orders v" i o1] by (simp add: due_refunds_def)

lemma accounts_cong:
  "vault_orders v' = vault_orders v \<Longrightarrow> open_deposits v' = open_deposits v"
  "vault_orders v' = vault_orders v \<Longrightarrow> due_refunds v' = due_refunds v"
  by (simp_all add: open_deposits_def due_refunds_def)

lemma logged_snoc: "trace v' = trace v @ t \<Longrightarrow> logged f v' = logged f v @ List.map_filter f t"
  by (simp add: logged_def map_filter_def)


lemmas status_defs = STATUS_NONE_def STATUS_OPEN_def STATUS_EXECUTED_def STATUS_CANCELLED_def

lemma vault_inv_cong:
  assumes "vault_orders v' = vault_orders v" and "nextOrderId v' = nextOrderId v" and "trace v' = trace v"
  shows "vault_inv v' = vault_inv v"
proof -
  have "due_payout v' = due_payout v" by (rule ext) (simp add: due_payout_def assms(1))
  then show ?thesis by (simp add: vault_inv_def log_matches_def logged_def assms)
qed

text \<open>An entry of the trace that none of the five logs shows.\<close>

lemma vault_inv_silent:
  assumes "vault_inv v" and "vault_orders v' = vault_orders v" and "nextOrderId v' = nextOrderId v"
    and "trace v' = trace v @ [ev]" and "placed_of ev = None" and "executed_of ev = None" and "cancelled_of ev = None"
    and "payout_of ev = None"
  shows "vault_inv v'"
proof -
  have "due_payout v' = due_payout v" by (rule ext) (simp add: due_payout_def assms(2))
  then show ?thesis
    using assms by (simp add: vault_inv_def log_matches_def logged_snoc [OF assms(4)] map_filter_simps)
qed

lemma due_payout_other: "i \<notin> fst ` set exs \<Longrightarrow> map (due_payout (v\<lparr>vault_orders := (vault_orders v)(i := o1)\<rparr>)) exs = map (due_payout v) exs"
  by (rule map_cong) (force simp: due_payout_def)+

lemma log_new:
  assumes "log_matches is P v" and "\<not> P (vault_orders v i)" and "P o1" and "vault_orders v' = (vault_orders v)(i := o1)"
  shows "log_matches (is @ [i]) P v'"
  using assms by (auto simp: log_matches_def)

lemma log_same:
  assumes "log_matches is P v" and "P (vault_orders v i) = P o1" and "vault_orders v' = (vault_orders v)(i := o1)"
  shows "log_matches is P v'"
  using assms by (auto simp: log_matches_def)

lemma place_inv:
  assumes inv: "vault_inv v" and i: "uint i = uint (nextOrderId v) + 1"
    and v': "v' = emit (OrderPlaced i sender) (v\<lparr>nextOrderId := i, vault_orders := (vault_orders v)(i :=
        \<lparr>order_owner = sender, order_deposit = d, order_status = STATUS_OPEN\<rparr>)\<rparr>)"
  shows "vault_inv v' \<and> evolves v v' \<and> free_balance v' = free_balance v - uint d \<and> due_refunds v' = due_refunds v
    \<and> logged refund_of v' = logged refund_of v"
proof -
  let ?o = "\<lparr>order_owner = sender, order_deposit = d, order_status = STATUS_OPEN\<rparr>"
  have lt: "nextOrderId v < i" using i by (simp add: word_less_def)
  then have none: "order_status (vault_orders v i) = STATUS_NONE" using inv by (simp add: vault_inv_def)
  have ords: "vault_orders v' = (vault_orders v)(i := ?o)" and tr: "trace v' = trace v @ [OrderPlaced i sender]"
    by (simp_all add: v' emit_def)
  note logs = logged_snoc [OF tr]
  have "i \<noteq> 0" using lt by auto
  moreover have "i \<notin> fst ` set (logged executed_of v)"
    using inv none by (auto simp: vault_inv_def log_matches_def status_defs)
  from due_payout_other [OF this, of v ?o] have "map (due_payout v') (logged executed_of v) = map (due_payout v) (logged executed_of v)"
    by (simp add: due_payout_def ords)
  moreover have "log_matches (logged placed_of v @ [i]) (\<lambda>o1. order_status o1 \<noteq> STATUS_NONE) v'"
    using inv none by (intro log_new [OF _ _ _ ords]) (auto simp: vault_inv_def status_defs)
  moreover have "log_matches is P v'" if "log_matches is P v" "P (vault_orders v i) = P ?o" for "is" P
    using log_same [OF that ords] .
  ultimately have "vault_inv v'"
    using inv none lt unfolding vault_inv_def
    by (auto simp: logs map_filter_simps ords status_defs) (auto simp: v' emit_def)
  moreover have "open_deposits v' = open_deposits v + uint d"
    using open_deposits_upd [of v i ?o] none accounts_cong(1) [of v' "v\<lparr>vault_orders := (vault_orders v)(i := ?o)\<rparr>"]
    by (simp add: ords open_part_def status_defs)
  moreover have "due_refunds v' = due_refunds v"
    using due_refunds_upd [of v i ?o] none accounts_cong(2) [of v' "v\<lparr>vault_orders := (vault_orders v)(i := ?o)\<rparr>"]
    by (simp add: ords cancelled_part_def status_defs)
  moreover have "evolves v v'"
    using lt none by (auto simp: evolves_def v' emit_def order_le_def status_defs)
  ultimately show ?thesis
    by (simp add: free_balance_def logs map_filter_simps) (simp add: v' emit_def)
qed

lemma close_order:
  assumes opn: "order_status (vault_orders v i) = STATUS_OPEN" and s: "s \<in> {STATUS_EXECUTED, STATUS_CANCELLED}"
    and ords: "vault_orders v' = vault_orders (with_status i s v)"
  shows "open_deposits v' = open_deposits v - uint (order_deposit (vault_orders v i))"
    and "due_refunds v' = due_refunds v + cancelled_part ((vault_orders v i)\<lparr>order_status := s\<rparr>)"
    and "order_le (vault_orders v j) (vault_orders v' j)"
    and "due_payout v' = due_payout v"
proof -
  let ?o = "(vault_orders v i)\<lparr>order_status := s\<rparr>"
  have eq: "with_status i s v = v\<lparr>vault_orders := (vault_orders v)(i := ?o)\<rparr>" by (simp add: with_status_def)
  show "open_deposits v' = open_deposits v - uint (order_deposit (vault_orders v i))"
    using open_deposits_upd [of v i ?o] opn s accounts_cong(1) [OF ords] by (auto simp: eq open_part_def status_defs)
  show "due_refunds v' = due_refunds v + cancelled_part ?o"
    using due_refunds_upd [of v i ?o] opn accounts_cong(2) [OF ords]
    by (simp add: eq cancelled_part_def [of "vault_orders v i"] status_defs)
  show "order_le (vault_orders v j) (vault_orders v' j)"
    using opn s by (auto simp: ords eq order_le_def)
  show "due_payout v' = due_payout v" by (rule ext) (auto simp: due_payout_def ords eq)
qed

lemma execute_inv:
  assumes inv: "vault_inv v" and opn: "order_status (vault_orders v i) = STATUS_OPEN"
    and v': "v' = emit (Called (TokenTransfer (order_owner (vault_orders v i)) (payout_amount (order_deposit (vault_orders v i)) price)))
       (emit (OrderExecuted i price) (with_status i STATUS_EXECUTED v))"
  shows "vault_inv v' \<and> progress v v'"
proof -
  have ords: "vault_orders v' = vault_orders (with_status i STATUS_EXECUTED v)"
    and tr: "trace v' = trace v @ [OrderExecuted i price,
      Called (TokenTransfer (order_owner (vault_orders v i)) (payout_amount (order_deposit (vault_orders v i)) price))]"
    by (simp_all add: v' emit_def with_status_def)
  have ords': "vault_orders v' = (vault_orders v)(i := (vault_orders v i)\<lparr>order_status := STATUS_EXECUTED\<rparr>)"
    by (simp add: ords with_status_def)
  have same: "log_matches is P v'" if "log_matches is P v" "P (vault_orders v i) = P ((vault_orders v i)\<lparr>order_status := STATUS_EXECUTED\<rparr>)" for "is" P
    using log_same [OF that ords'] .
  have new: "log_matches (map fst (logged executed_of v) @ [i]) (\<lambda>o1. order_status o1 = STATUS_EXECUTED) v'"
    using inv opn by (intro log_new [OF _ _ _ ords']) (auto simp: vault_inv_def status_defs)
  have next_: "nextOrderId v' = nextOrderId v" by (simp add: v' emit_def with_status_def)
  note closed = close_order [OF opn _ ords, simplified]
  note logs = logged_snoc [OF tr] map_filter_simps
  have "\<not> (nextOrderId v < i \<or> i = 0)" using inv opn by (auto simp: vault_inv_def status_defs)
  then have "vault_inv v'"
    using inv opn new unfolding vault_inv_def
    by (auto simp: logs closed(4) next_ ords' due_payout_def status_defs intro: same)
  moreover have "evolves v v'"
    using closed(3) by (auto simp: evolves_def v' emit_def with_status_def)
  moreover have "native_balance v' = native_balance v" by (simp add: v' emit_def with_status_def)
  ultimately show ?thesis
    by (simp add: progress_def free_balance_def closed(1,2) logs cancelled_part_def status_defs)
qed

lemma cancel_inv:
  assumes inv: "vault_inv v" and opn: "order_status (vault_orders v i) = STATUS_OPEN"
    and v': "v' = emit (OrderCancelled i) (with_status i STATUS_CANCELLED v)"
  shows "vault_inv v' \<and> evolves v v' \<and> free_balance v' = free_balance v + uint (order_deposit (vault_orders v i))
    \<and> due_refunds v' = due_refunds v + {#(order_owner (vault_orders v i), order_deposit (vault_orders v i))#}
    \<and> logged refund_of v' = logged refund_of v"
proof -
  have ords: "vault_orders v' = vault_orders (with_status i STATUS_CANCELLED v)"
    and tr: "trace v' = trace v @ [OrderCancelled i]"
    by (simp_all add: v' emit_def with_status_def)
  have ords': "vault_orders v' = (vault_orders v)(i := (vault_orders v i)\<lparr>order_status := STATUS_CANCELLED\<rparr>)"
    by (simp add: ords with_status_def)
  have same: "log_matches is P v'" if "log_matches is P v" "P (vault_orders v i) = P ((vault_orders v i)\<lparr>order_status := STATUS_CANCELLED\<rparr>)" for "is" P
    using log_same [OF that ords'] .
  have new: "log_matches (logged cancelled_of v @ [i]) (\<lambda>o1. order_status o1 = STATUS_CANCELLED) v'"
    using inv opn by (intro log_new [OF _ _ _ ords']) (auto simp: vault_inv_def status_defs)
  have next_: "nextOrderId v' = nextOrderId v" by (simp add: v' emit_def with_status_def)
  note closed = close_order [OF opn _ ords, simplified]
  note logs = logged_snoc [OF tr] map_filter_simps
  have "\<not> (nextOrderId v < i \<or> i = 0)" using inv opn by (auto simp: vault_inv_def status_defs)
  then have "vault_inv v'"
    using inv opn new unfolding vault_inv_def
    by (auto simp: logs closed(4) next_ ords' status_defs intro: same)
  moreover have "evolves v v'"
    using closed(3) by (auto simp: evolves_def v' emit_def with_status_def)
  moreover have "native_balance v' = native_balance v" by (simp add: v' emit_def with_status_def)
  ultimately show ?thesis
    by (simp add: free_balance_def closed(1,2) logs cancelled_part_def)
qed

end
