(* ===== verification/Payout_Token.thy ===== *)
theory Payout_Token
  imports Vault_Inv
begin

text \<open>
  The payout token \<open>contracts/MockUSDT0.sol\<close>, the contract that \<open>deploy-contract\<close> deploys for the vault
  to pay in: its storage, its functions with the checked arithmetic of Solidity, and the two facts a
  client relies on, that the supply is the sum of all balances and that a transfer moves exactly its
  amount and fails only for lack of it.
\<close>

record Token =
  token_owner :: address
  totalSupply :: uint256
  balanceOf :: "address \<Rightarrow> uint256"
  allowance :: "address \<Rightarrow> address \<Rightarrow> uint256"
  transfers :: "(address \<times> address \<times> uint256) list"

definition token_constructor :: "address \<Rightarrow> Token" where
  "token_constructor sender = \<lparr>token_owner = sender, totalSupply = 0, balanceOf = (\<lambda>_. 0), allowance = (\<lambda>_ _. 0), transfers = []\<rparr>"

definition token_mint :: "address \<Rightarrow> address \<Rightarrow> uint256 \<Rightarrow> Token \<Rightarrow> vault_error + Token" where
  "token_mint sender receiver amount t =
     sol_require (sender = token_owner t) ''not owner''
    (checked (uint (totalSupply t) + uint amount) (\<lambda>supply.
     checked (uint (balanceOf t receiver) + uint amount) (\<lambda>b.
     Inr (t\<lparr>totalSupply := supply, balanceOf := (balanceOf t)(receiver := b), transfers := transfers t @ [(0, receiver, amount)]\<rparr>))))"

definition move_tokens :: "address \<Rightarrow> address \<Rightarrow> uint256 \<Rightarrow> Token \<Rightarrow> vault_error + Token" where
  "move_tokens giver receiver amount t =
     sol_require (amount \<le> balanceOf t giver) ''insufficient balance''
    (checked (uint (balanceOf t giver) - uint amount) (\<lambda>b.
     let m = (balanceOf t)(giver := b) in
     checked (uint (m receiver) + uint amount) (\<lambda>b'.
     Inr (t\<lparr>balanceOf := m(receiver := b'), transfers := transfers t @ [(giver, receiver, amount)]\<rparr>))))"

definition token_transfer :: "address \<Rightarrow> address \<Rightarrow> uint256 \<Rightarrow> Token \<Rightarrow> vault_error + Token" where
  "token_transfer sender receiver amount t = move_tokens sender receiver amount t"

definition token_transferFrom :: "address \<Rightarrow> address \<Rightarrow> address \<Rightarrow> uint256 \<Rightarrow> Token \<Rightarrow> vault_error + Token" where
  "token_transferFrom sender giver receiver amount t = (let allowed = allowance t giver sender in
     sol_require (amount \<le> allowed) ''insufficient allowance''
    (if allowed \<noteq> - 1
     then checked (uint allowed - uint amount) (\<lambda>rest. move_tokens giver receiver amount
       (t\<lparr>allowance := (allowance t)(giver := (allowance t giver)(sender := rest))\<rparr>))
     else move_tokens giver receiver amount t))"

definition token_approve :: "address \<Rightarrow> address \<Rightarrow> uint256 \<Rightarrow> Token \<Rightarrow> vault_error + Token" where
  "token_approve sender spender amount t =
     Inr (t\<lparr>allowance := (allowance t)(sender := (allowance t sender)(spender := amount))\<rparr>)"

section \<open>The supply\<close>

datatype token_function = TMint address uint256 | TTransfer address uint256 | TTransferFrom address address uint256 | TApprove address uint256

definition token_call :: "address \<Rightarrow> token_function \<Rightarrow> Token \<Rightarrow> vault_error + Token" where
  "token_call sender c t = (case c of TMint a n \<Rightarrow> token_mint sender a n t | TTransfer a n \<Rightarrow> token_transfer sender a n t
     | TTransferFrom a b n \<Rightarrow> token_transferFrom sender a b n t | TApprove a n \<Rightarrow> token_approve sender a n t)"

inductive token_step :: "Token \<Rightarrow> Token \<Rightarrow> bool" where
  token_called: "token_call sender c t = Inr t' \<Longrightarrow> token_step t t'"

definition token_inv :: "Token \<Rightarrow> bool" where
  "token_inv t \<longleftrightarrow> (\<Sum>a\<in>UNIV. uint (balanceOf t a)) = uint (totalSupply t)"

lemma supply_upd: "(\<Sum>a\<in>UNIV. uint ((f(k := y)) a)) = (\<Sum>a\<in>UNIV. uint (f a)) - uint (f k) + uint (y :: uint256)"
  for f :: "address \<Rightarrow> uint256"
  using sum_upd [of uint f k y] by linarith

lemma move_sum:
  assumes "move_tokens giver receiver amount t = Inr t'"
  shows "(\<Sum>a\<in>UNIV. uint (balanceOf t' a)) = (\<Sum>a\<in>UNIV. uint (balanceOf t a)) \<and> totalSupply t' = totalSupply t"
proof -
  define b where "b = (word_of_int (uint (balanceOf t giver) - uint amount) :: uint256)"
  define m where "m = (balanceOf t)(giver := b)"
  define b' where "b' = (word_of_int (uint (m receiver) + uint amount) :: uint256)"
  from assms have r: "0 \<le> uint (balanceOf t giver) - uint amount" "uint (balanceOf t giver) - uint amount < 2 ^ 256"
      "0 \<le> uint (m receiver) + uint amount" "uint (m receiver) + uint amount < 2 ^ 256"
    and t': "balanceOf t' = m(receiver := b')" "totalSupply t' = totalSupply t"
    by (auto simp: move_tokens_def Let_def m_def b_def b'_def)
  have "uint b = uint (balanceOf t giver) - uint amount" "uint b' = uint (m receiver) + uint amount"
    using uint_checked [OF r(1,2)] uint_checked [OF r(3,4)] by (simp_all only: b_def b'_def)
  then show ?thesis
    using supply_upd [of m receiver b'] supply_upd [of "balanceOf t" giver b] by (simp add: t' m_def)
qed

lemma token_step_inv: "token_inv t \<Longrightarrow> token_step t t' \<Longrightarrow> token_inv t'"
proof (erule token_step.cases)
  fix sender c s s'
  assume inv: "token_inv t" and eqs: "t = s" "t' = s'" and run: "token_call sender c s = Inr s'"
  show "token_inv t'"
  proof (cases c)
    case (TMint a n)
    then have r: "uint (totalSupply s) + uint n < 2 ^ 256" "uint (balanceOf s a) + uint n < 2 ^ 256"
      and s': "balanceOf s' = (balanceOf s)(a := word_of_int (uint (balanceOf s a) + uint n))"
        "totalSupply s' = word_of_int (uint (totalSupply s) + uint n)"
      using run by (auto simp: token_call_def token_mint_def)
    have "uint (totalSupply s') = uint (totalSupply s) + uint n"
      "uint (word_of_int (uint (balanceOf s a) + uint n) :: uint256) = uint (balanceOf s a) + uint n"
      using uint_checked [OF add_nonneg_nonneg [OF uint_ge_0 uint_ge_0] r(1)]
        uint_checked [OF add_nonneg_nonneg [OF uint_ge_0 uint_ge_0] r(2)] by (simp_all only: s'(2))
    then show ?thesis
      using inv supply_upd [of "balanceOf s" a "word_of_int (uint (balanceOf s a) + uint n)"] by (simp add: token_inv_def eqs s'(1))
  qed (use run inv eqs move_sum in \<open>fastforce simp: token_call_def token_transfer_def token_transferFrom_def token_approve_def token_inv_def Let_def split: if_splits\<close>)+
qed

interpretation token_machine: inv_machine "\<lambda>t. \<exists>sender. t = token_constructor sender" token_step token_inv
proof
  show "token_inv t" if "\<exists>sender. t = token_constructor sender" for t
    using that by (auto simp: token_constructor_def token_inv_def)
qed (rule token_step_inv)


lemma two_balances:
  assumes "token_inv t" and "a \<noteq> b"
  shows "uint (balanceOf t a) + uint (balanceOf t b) < 2 ^ 256"
proof -
  have "(\<Sum>k\<in>{a, b}. uint (balanceOf t k)) \<le> (\<Sum>k\<in>UNIV. uint (balanceOf t k))"
    by (rule sum_mono2) simp_all
  then show ?thesis
    using assms uint256_less [of "totalSupply t"] by (simp add: token_inv_def)
qed

text \<open>C33. A transfer of the payout token never overflows: in every reachable state of the token it moves
  exactly the amount and touches no other balance, or fails because the sender does not have it.\<close>

theorem token_transfer_exact:
  assumes "reach (\<lambda>t. \<exists>sender. t = token_constructor sender) token_step t"
  shows "case token_transfer sender receiver amount t of
      Inl er \<Rightarrow> er = Revert ''insufficient balance'' \<and> balanceOf t sender < amount
    | Inr t' \<Rightarrow> amount \<le> balanceOf t sender \<and> totalSupply t' = totalSupply t
        \<and> (\<forall>a. uint (balanceOf t' a) = uint (balanceOf t a) - (if a = sender then uint amount else 0)
             + (if a = receiver then uint amount else 0))"
proof (cases "amount \<le> balanceOf t sender")
  case False
  then show ?thesis by (simp add: token_transfer_def move_tokens_def sol_require_def)
next
  case True
  define b where "b = (word_of_int (uint (balanceOf t sender) - uint amount) :: uint256)"
  define m where "m = (balanceOf t)(sender := b)"
  define b' where "b' = (word_of_int (uint (m receiver) + uint amount) :: uint256)"
  have inv: "token_inv t" using token_machine.inv_reach [OF assms] .
  have le: "0 \<le> uint (balanceOf t sender) - uint amount" using True by (simp add: word_le_def)
  have lt: "uint (balanceOf t sender) - uint amount < 2 ^ 256"
    by (rule le_less_trans [of _ "uint (balanceOf t sender)"]) (simp, rule uint256_less)
  have b: "uint b = uint (balanceOf t sender) - uint amount" unfolding b_def using le lt by (rule uint_checked)
  have room: "uint (m receiver) + uint amount < 2 ^ 256"
  proof (cases "receiver = sender")
    case True
    then show ?thesis using b uint256_less [of "balanceOf t sender"] by (simp add: m_def)
  next
    case False
    then show ?thesis using two_balances [OF inv False] le by (simp add: m_def)
  qed
  have b': "uint b' = uint (m receiver) + uint amount"
    unfolding b'_def using room by (intro uint_checked) simp_all
  have "token_transfer sender receiver amount t
      = Inr (t\<lparr>balanceOf := m(receiver := b'), transfers := transfers t @ [(sender, receiver, amount)]\<rparr>)"
    unfolding token_transfer_def move_tokens_def checked_ok [OF le lt] b_def [symmetric] m_def [symmetric] Let_def
      checked_ok [OF add_nonneg_nonneg [OF uint_ge_0 uint_ge_0] room] b'_def [symmetric]
    using True by (simp add: sol_require_def)
  then show ?thesis using True b b' by (simp add: m_def)
qed


text \<open>A supply of 1,000,000 tokens minted to the vault, as the deployment does.\<close>

definition minted_token :: "address \<Rightarrow> Token" where
  "minted_token v = (case token_mint 7 v 1000000000000 (token_constructor 7) of Inr t \<Rightarrow> t)"

lemma minted_token: "minted_token v = \<lparr>token_owner = 7, totalSupply = 1000000000000, balanceOf = (\<lambda>_. 0)(v := 1000000000000),
    allowance = (\<lambda>_ _. 0), transfers = [(0, v, 1000000000000)]\<rparr>"
  by (simp add: minted_token_def token_mint_def token_constructor_def sol_require_def checked_def)

lemma minted_reach: "reach (\<lambda>t. \<exists>sender. t = token_constructor sender) token_step (minted_token v)"
proof (rule reach_step [OF reach_init])
  show "\<exists>sender. token_constructor 7 = token_constructor sender" by blast
  have "token_call 7 (TMint v 1000000000000) (token_constructor 7) = Inr (minted_token v)"
    by (simp add: token_call_def minted_token token_mint_def token_constructor_def sol_require_def checked_def)
  then show "token_step (token_constructor 7) (minted_token v)" by (rule token_called)
qed

theorem token_transfer_exact_witness:
  "case token_transfer 5 9 100000 (minted_token 5) of Inl _ \<Rightarrow> False
    | Inr t' \<Rightarrow> uint (balanceOf t' 5) = 999999900000 \<and> uint (balanceOf t' 9) = 100000 \<and> uint (balanceOf t' 7) = 0"
  using token_transfer_exact [OF minted_reach [of 5], where sender = 5 and receiver = 9 and amount = 100000]
  by (auto simp: minted_token split: sum.splits)

end
