(* ===== verification/Vault_Runs.thy ===== *)
theory Vault_Runs
  imports Vault_Inv
begin

text \<open>
  One message to the vault when the contracts it calls accept without calling back: the state it
  leaves, for each of the three functions that move money.
\<close>

section \<open>Calls that are accepted\<close>

definition called :: "outcall \<Rightarrow> Vault \<Rightarrow> Vault" where
  "called c v = emit (Called c) (v\<lparr>native_balance := native_balance v - uint (outcall_value c)\<rparr>)"

definition instruction :: "bytes \<Rightarrow> bytes \<Rightarrow> address \<Rightarrow> TeeInstructionParams" where
  "instruction command payload sender = \<lparr>opType = OP_TYPE_DARKSTOP, opCommand = command, ins_message = payload,
     cosigners = [], cosignersThreshold = 0, claimBackAddress = sender\<rparr>"

lemma called_simps [simp]:
  "vault_orders (called c v) = vault_orders v" "nextOrderId (called c v) = nextOrderId v"
  "native_balance (called c v) = native_balance v - uint (outcall_value c)" "trace (called c v) = trace v @ [Called c]"
  "extensionId (called c v) = extensionId v" "TEE_MACHINE_REGISTRY (called c v) = TEE_MACHINE_REGISTRY v"
  "INSTRUCTION_FEE (called c v) = INSTRUCTION_FEE v" "teeExecutor (called c v) = teeExecutor v" "FTSO_V2 (called c v) = FTSO_V2 v"
  by (simp_all add: called_def emit_def)

lemma call_runs:
  "reaction E c (called c v, x) = Some ([], r, upd) \<Longrightarrow> uint (outcall_value c) \<le> native_balance v
    \<Longrightarrow> call_out (outside_at E call_depth) c (v, x) = Inr (r, (called c v, upd x))"
  using outside_quiet [of E c "called c v" x] by (simp add: call_out_def called_def)

lemma instruction_runs:
  assumes "extensionId v \<noteq> 0" and "getRandomTeeIds E (TEE_MACHINE_REGISTRY v) (extensionId v) 1 x = Some ids"
    and "c = SendInstructions fee ids (instruction command payload sender)"
    and "reaction E c (called c v, x) = Some ([], r, upd)" and "uint fee \<le> native_balance v"
  shows "sendInstruction E (outside_at E call_depth) sender command payload fee (v, x) = Inr (called c v, upd x)"
  using assms(1,2) call_runs [OF assms(4)] assms(5)
  by (simp add: assms(3) sendInstruction_def getExtensionId_def sol_require_def instruction_def)

section \<open>The three functions\<close>

definition placed_vault :: "address \<Rightarrow> uint256 \<Rightarrow> Vault \<Rightarrow> Vault" where
  "placed_vault sender n v = (let i = nextOrderId v + 1 in emit (OrderPlaced i sender) ((credit n v)\<lparr>nextOrderId := i,
     vault_orders := (vault_orders v)(i := \<lparr>order_owner = sender, order_deposit = n - INSTRUCTION_FEE v, order_status = STATUS_OPEN\<rparr>)\<rparr>))"

definition executed_vault :: "uint256 \<Rightarrow> uint256 \<Rightarrow> Vault \<Rightarrow> Vault" where
  "executed_vault i price v = emit (OrderExecuted i price) (with_status i STATUS_EXECUTED v)"

definition cancelled_vault :: "uint256 \<Rightarrow> uint256 \<Rightarrow> Vault \<Rightarrow> Vault" where
  "cancelled_vault i n v = emit (OrderCancelled i) (with_status i STATUS_CANCELLED (credit n v))"

lemmas run_vault_defs = placed_vault_def executed_vault_def cancelled_vault_def emit_def credit_def with_status_def

lemma place_runs:
  assumes "uint (nextOrderId v) + 1 < 2 ^ 256" and "INSTRUCTION_FEE v < n" and "ct \<noteq> []" and "extensionId v \<noteq> 0" and "0 \<le> native_balance v"
    and "getRandomTeeIds E (TEE_MACHINE_REGISTRY v) (extensionId v) 1 x = Some ids"
    and "c = SendInstructions (INSTRUCTION_FEE v) ids (instruction OP_COMMAND_PLACE (abi_encode_id_bytes (nextOrderId v + 1) ct) sender)"
    and "reaction E c (called c (placed_vault sender n v), x) = Some ([], r, upd)"
  shows "vault_tx E (Msg sender n (CallPlaceOrder ct)) (v, x) = (called c (placed_vault sender n v), upd x)"
proof -
  let ?v = "placed_vault sender n v"
  have fee: "uint (INSTRUCTION_FEE v) < uint n" using assms(2) by (simp add: word_less_def)
  then have d: "uint n - uint (INSTRUCTION_FEE v) < 2 ^ 256"
    using le_less_trans [OF _ uint256_less, of "uint n - uint (INSTRUCTION_FEE v)" n] by simp
  have "sendInstruction E (outside_at E call_depth) sender OP_COMMAND_PLACE (abi_encode_id_bytes (nextOrderId v + 1) ct) (INSTRUCTION_FEE v) (?v, x)
      = Inr (called c ?v, upd x)"
    using assms fee by (intro instruction_runs) (auto simp: run_vault_defs Let_def)
  then show ?thesis
    using assms(1-3) fee d by (simp add: vault_tx_def run_call_def placeOrder_def sol_require_def checked_def placed_vault_def credit_def Let_def)
qed

lemma settle_runs:
  assumes "settle_vault E (outside_at E call_depth) sender i trigger maxAge (v, x) = Inr st'"
  shows "vault_tx E (Msg sender 0 (CallSettle i trigger maxAge)) (v, x) = st'"
  using assms by (simp add: vault_tx_def run_call_def sol_require_def)

lemma cancel_runs:
  assumes "order_status (vault_orders v i) = STATUS_OPEN" and "order_owner (vault_orders v i) = sender" and "extensionId v \<noteq> 0"
    and "uint (order_deposit (vault_orders v i)) \<le> native_balance v"
    and "getRandomTeeIds E (TEE_MACHINE_REGISTRY v) (extensionId v) 1 x = Some ids"
    and "c = SendInstructions n ids (instruction OP_COMMAND_CANCEL (abi_encode_id i) sender)"
    and "reaction E c (called c (cancelled_vault i n v), x) = Some ([], r, upd)"
    and "c' = NativeTransfer sender (order_deposit (vault_orders v i))"
    and "reaction E c' (called c' (called c (cancelled_vault i n v)), upd x) = Some ([], True, upd')"
  shows "vault_tx E (Msg sender n (CallCancel i)) (v, x) = (called c' (called c (cancelled_vault i n v)), upd' (upd x))"
proof -
  let ?v = "cancelled_vault i n v"
  have "0 \<le> native_balance v" using assms(4) order.trans [OF uint_ge_0] by blast
  then have "sendInstruction E (outside_at E call_depth) sender OP_COMMAND_CANCEL (abi_encode_id i) n (?v, x) = Inr (called c ?v, upd x)"
    using assms by (intro instruction_runs) (auto simp: run_vault_defs)
  moreover have "call_out (outside_at E call_depth) c' (called c ?v, upd x) = Inr (True, (called c' (called c ?v), upd' (upd x)))"
    using assms by (intro call_runs) (auto simp: run_vault_defs)
  ultimately show ?thesis
    using assms(1,2) by (simp add: vault_tx_def run_call_def cancel_vault_def sol_require_def assms(8) cancelled_vault_def [symmetric])
      (simp add: credit_def sol_require_def)
qed

end
