(* ===== verification/Vault_Dev.thy ===== *)
theory Vault_Dev
  imports Payout_Token Vault_Runs
begin

text \<open>
  The local chain of \<open>contracts/dev\<close>: the mocks of the registries and of the feed from \<open>Mocks.sol\<close>, the
  payout token, and the deployment of \<open>DevStack.s.sol\<close>. They give the parameters of the vault's model
  concrete values. The section on ABI encoding is the codec for the two instruction messages.
\<close>

section \<open>The mocks\<close>

record DevWorld =
  dev_token :: Token
  registeredSender :: address
  sendCount :: uint256
  lastInstruction :: "(uint256 \<times> nat \<times> TeeInstructionParams) option"
  dev_feed :: "uint256 \<times> int8 \<times> uint64"
  dev_time :: uint256

definition mock_sendInstructions :: "uint256 \<Rightarrow> address list \<Rightarrow> TeeInstructionParams \<Rightarrow> DevWorld \<Rightarrow> DevWorld option" where
  "mock_sendInstructions n ids p y = (if sendCount y = - 1 then None
     else Some (y\<lparr>sendCount := sendCount y + 1, lastInstruction := Some (n, length ids, p)\<rparr>))"

definition mock_getRandomTeeIds :: "uint256 \<Rightarrow> address list" where
  "mock_getRandomTeeIds n = map (\<lambda>i. 0x7EE + word_of_nat i) [0..<unat n]"

definition mock_instructions_sender :: "uint256 \<Rightarrow> DevWorld \<Rightarrow> address" where
  "mock_instructions_sender i y = (if i = 1 then registeredSender y else 0)"

fun dev_reaction :: "address \<Rightarrow> outcall \<Rightarrow> DevWorld vst \<Rightarrow> (vault_msg list \<times> bool \<times> (DevWorld \<Rightarrow> DevWorld)) option" where
  "dev_reaction this (SendInstructions n ids p) st =
     (case mock_sendInstructions n ids p (snd st) of None \<Rightarrow> None | Some y \<Rightarrow> Some ([], True, \<lambda>_. y))"
| "dev_reaction this (TokenTransfer a n) st = (case token_transfer this a n (dev_token (snd st)) of
     Inl _ \<Rightarrow> None | Inr t \<Rightarrow> Some ([], True, \<lambda>y. y\<lparr>dev_token := t\<rparr>))"
| "dev_reaction this (NativeTransfer a n) st = Some ([], True, \<lambda>y. y)"

definition dev_env :: "address \<Rightarrow> DevWorld vault_env" where
  "dev_env this = \<lparr>this_address = this, block_timestamp = dev_time, extensionsCounter = (\<lambda>_ _. Some 2),
     getTeeExtensionInstructionsSender = (\<lambda>_ i y. Some (mock_instructions_sender i y)),
     getRandomTeeIds = (\<lambda>_ _ n y. Some (mock_getRandomTeeIds n)),
     getFeedById = (\<lambda>_ _ y. Some (dev_feed y)), reaction = dev_reaction this\<rparr>"

section \<open>Deploying the stack\<close>

definition DEV_INSTRUCTION_FEE :: uint256 where "DEV_INSTRUCTION_FEE = 10 ^ 16"

text \<open>Addresses of the registries, the feed, the token and the vault are arguments; the deployer is
  \<open>sender\<close>. The token is minted and the feed is set after the vault is configured.\<close>

definition dev_stack :: "address \<Rightarrow> address \<Rightarrow> address \<Rightarrow> address \<Rightarrow> address \<Rightarrow> address \<Rightarrow> uint256 \<Rightarrow> vault_error + DevWorld vst" where
  "dev_stack sender er mr f t this now =
    (let y = \<lparr>dev_token = token_constructor sender, registeredSender = 0, sendCount = 0, lastInstruction = None,
         dev_feed = (0, 0, 0), dev_time = now\<rparr>
     in case vault_constructor (\<lambda>_. 1) sender er mr f t DEV_INSTRUCTION_FEE of
       Inl er \<Rightarrow> Inl er
     | Inr v \<Rightarrow> (case vault_tx (dev_env this) (Msg sender 0 (CallSetTeeExecutor sender))
           (vault_tx (dev_env this) (Msg sender 0 CallSetExtensionId) (v, y\<lparr>registeredSender := this\<rparr>)) of
        (v', y') \<Rightarrow> (case token_mint sender this (1000000 * 10 ^ 6) (dev_token y') of
           Inl er \<Rightarrow> Inl er
         | Inr tok \<Rightarrow> Inr (v', y'\<lparr>dev_token := tok, dev_feed := (300000, 7, ucast now)\<rparr>))))"

lemma reach_txs: "reach deployed_vault (vault_step E) st \<Longrightarrow> reach deployed_vault (vault_step E) (fold (vault_tx E) ms st)"
proof (induction ms arbitrary: st)
  case (Cons m ms)
  show ?case using Cons.IH [of "vault_tx E m st"] reach_step [of deployed_vault "vault_step E" st, OF Cons.prems vault_msg] by simp
qed simp

lemma dev_stack_reach: "dev_stack sender er mr f t this now = Inr (v, y) \<Longrightarrow> reach deployed_vault (vault_step (dev_env this)) (v, y)"
proof -
  let ?y = "\<lparr>dev_token = token_constructor sender, registeredSender = this, sendCount = 0, lastInstruction = None,
      dev_feed = (0, 0, 0), dev_time = now\<rparr>"
  assume "dev_stack sender er mr f t this now = Inr (v, y)"
  then obtain v0 y1 where v0: "vault_constructor (\<lambda>_. 1) sender er mr f t DEV_INSTRUCTION_FEE = Inr v0"
    and v: "fold (vault_tx (dev_env this)) [Msg sender 0 CallSetExtensionId, Msg sender 0 (CallSetTeeExecutor sender)] (v0, ?y) = (v, y1)"
    by (auto simp: dev_stack_def Let_def split: sum.splits prod.splits)
  have "reach deployed_vault (vault_step (dev_env this)) (v0, ?y)"
    using v0 unfolding deployed_vault_def by (intro reach_init) force
  from reach_txs [OF this, of "[Msg sender 0 CallSetExtensionId, Msg sender 0 (CallSetTeeExecutor sender)]", unfolded v]
  show ?thesis by (rule reach_step) (rule vault_world)
qed

section \<open>A run\<close>

text \<open>Two orders are placed at a price of 0.03 USD, the price falls to 0.019 USD, the first order is
  settled at a trigger of 0.02 USD and the second is cancelled by its owner.\<close>

definition dev_start :: "DevWorld vst" where
  "dev_start = (case dev_stack 7 1 2 3 4 5 1005 of Inr st \<Rightarrow> st)"

definition dev_placed :: "DevWorld vst" where
  "dev_placed = fold (vault_tx (dev_env 5)) [Msg 9 (DEV_INSTRUCTION_FEE + 5 * 10 ^ 18) (CallPlaceOrder ''c1''),
     Msg 8 (DEV_INSTRUCTION_FEE + 2 * 10 ^ 18) (CallPlaceOrder ''c2'')] dev_start"

definition dev_fallen :: "DevWorld vst" where
  "dev_fallen = (fst dev_placed, (snd dev_placed)\<lparr>dev_feed := (190000, 7, 1000)\<rparr>)"

definition dev_closed :: "DevWorld vst" where
  "dev_closed = fold (vault_tx (dev_env 5)) [Msg 7 0 (CallSettle 1 20000 300), Msg 8 0 (CallCancel 2)] dev_fallen"

definition dev_vault :: Vault where
  "dev_vault = \<lparr>TEE_EXTENSION_REGISTRY = 1, TEE_MACHINE_REGISTRY = 2, FTSO_V2 = 3, PAYOUT_TOKEN = 4, vault_OWNER = 7,
     INSTRUCTION_FEE = DEV_INSTRUCTION_FEE, vault_orders = (\<lambda>_. \<lparr>order_owner = 0, order_deposit = 0, order_status = 0\<rparr>),
     nextOrderId = 0, teeExecutor = 7, extensionId = 1, native_balance = 0, trace = []\<rparr>"

definition dev_world :: DevWorld where
  "dev_world = \<lparr>dev_token = minted_token 5, registeredSender = 5, sendCount = 0, lastInstruction = None,
     dev_feed = (300000, 7, 1005), dev_time = 1005\<rparr>"

lemma dev_extension: "find_extension (\<lambda>i. Some (mock_instructions_sender i y)) a 2 0
    = (if registeredSender y = a then Inr 1 else Inl (Revert ''Extension ID not found.''))" if "a \<noteq> 0"
  using that by (simp add: numeral_2_eq_2 mock_instructions_sender_def)

lemma dev_stack_eq: "dev_stack 7 1 2 3 4 5 1005 = Inr (dev_vault, dev_world)"
  by (simp add: dev_stack_def vault_constructor_def Let_def vault_tx_def run_call_def setExtensionId_def setTeeExecutor_def dev_extension
      minted_token token_mint_def token_constructor_def sol_require_def checked_def dev_env_def dev_vault_def dev_world_def)

lemma dev_reach: "reach deployed_vault (vault_step (dev_env 5)) dev_start"
  "reach deployed_vault (vault_step (dev_env 5)) dev_placed"
  "reach deployed_vault (vault_step (dev_env 5)) dev_fallen"
  "reach deployed_vault (vault_step (dev_env 5)) dev_closed"
proof -
  show s: "reach deployed_vault (vault_step (dev_env 5)) dev_start"
    using dev_stack_reach [OF dev_stack_eq] by (simp add: dev_start_def dev_stack_eq)
  show p: "reach deployed_vault (vault_step (dev_env 5)) dev_placed" unfolding dev_placed_def by (rule reach_txs [OF s])
  show f: "reach deployed_vault (vault_step (dev_env 5)) dev_fallen"
  proof (rule reach_step [OF p])
    show "vault_step (dev_env 5) dev_placed dev_fallen"
      using vault_world [of "dev_env 5" "fst dev_placed" "snd dev_placed"] by (simp add: dev_fallen_def)
  qed
  show "reach deployed_vault (vault_step (dev_env 5)) dev_closed" unfolding dev_closed_def by (rule reach_txs [OF f])
qed


text \<open>The mocks accept every call, a transfer when the vault has the tokens.\<close>

definition after_instruction :: "uint256 \<Rightarrow> TeeInstructionParams \<Rightarrow> DevWorld \<Rightarrow> DevWorld" where
  "after_instruction n p y = y\<lparr>sendCount := sendCount y + 1, lastInstruction := Some (n, 1, p)\<rparr>"

lemma dev_env_simps:
  "block_timestamp (dev_env a) = dev_time" "getFeedById (dev_env a) f d y = Some (dev_feed y)" "reaction (dev_env a) = dev_reaction a"
  "getRandomTeeIds (dev_env a) m e 1 y = Some [0x7EE]"
  by (simp_all add: dev_env_def mock_getRandomTeeIds_def)

lemma dev_instruction: "sendCount y \<noteq> - 1 \<Longrightarrow> dev_reaction a (SendInstructions n [t] p) (v, y) = Some ([], True, \<lambda>_. after_instruction n p y)"
  by (simp add: mock_sendInstructions_def after_instruction_def)

lemma dev_place:
  assumes "uint (nextOrderId v) + 1 < 2 ^ 256" and "INSTRUCTION_FEE v < n" and "ct \<noteq> []" and "extensionId v \<noteq> 0" and "0 \<le> native_balance v"
    and "sendCount y \<noteq> - 1" and "p = instruction OP_COMMAND_PLACE (abi_encode_id_bytes (nextOrderId v + 1) ct) sender"
  shows "vault_tx (dev_env a) (Msg sender n (CallPlaceOrder ct)) (v, y)
    = (called (SendInstructions (INSTRUCTION_FEE v) [0x7EE] p) (placed_vault sender n v), after_instruction (INSTRUCTION_FEE v) p y)"
  by (rule place_runs [OF assms(1-5) dev_env_simps(4), where r = True and upd = "\<lambda>_. after_instruction (INSTRUCTION_FEE v) p y"])
    (simp_all add: assms(7) dev_env_simps dev_instruction [OF assms(6)] del: dev_reaction.simps)

lemma dev_cancel:
  assumes "order_status (vault_orders v i) = STATUS_OPEN" and "order_owner (vault_orders v i) = sender" and "extensionId v \<noteq> 0"
    and "uint (order_deposit (vault_orders v i)) \<le> native_balance v"
    and "sendCount y \<noteq> - 1" and "p = instruction OP_COMMAND_CANCEL (abi_encode_id i) sender"
  shows "vault_tx (dev_env a) (Msg sender n (CallCancel i)) (v, y)
    = (called (NativeTransfer sender (order_deposit (vault_orders v i))) (called (SendInstructions n [0x7EE] p) (cancelled_vault i n v)),
       after_instruction n p y)"
  by (rule cancel_runs [OF assms(1-4) dev_env_simps(4), where r = True and upd = "\<lambda>_. after_instruction n p y" and upd' = "\<lambda>y. y", simplified])
    (simp_all add: assms(6) dev_env_simps dev_instruction [OF assms(5)] del: dev_reaction.simps(1))

lemmas dev_run_simps = DEV_INSTRUCTION_FEE_def run_vault_defs status_defs dev_vault_def dev_world_def after_instruction_def Let_def

definition dev_placed_vault :: Vault where
  "dev_placed_vault = dev_vault\<lparr>nextOrderId := 2, vault_orders := (vault_orders dev_vault)
     (1 := \<lparr>order_owner = 9, order_deposit = 5 * 10 ^ 18, order_status = 1\<rparr>, 2 := \<lparr>order_owner = 8, order_deposit = 2 * 10 ^ 18, order_status = 1\<rparr>),
     native_balance := 7 * 10 ^ 18, trace := [OrderPlaced 1 9,
       Called (SendInstructions DEV_INSTRUCTION_FEE [0x7EE] (instruction OP_COMMAND_PLACE (abi_encode_id_bytes 1 ''c1'') 9)), OrderPlaced 2 8,
       Called (SendInstructions DEV_INSTRUCTION_FEE [0x7EE] (instruction OP_COMMAND_PLACE (abi_encode_id_bytes 2 ''c2'') 8))]\<rparr>"

lemma dev_placed_eq: "fst dev_placed = dev_placed_vault" "dev_token (snd dev_placed) = minted_token 5" "sendCount (snd dev_placed) = 2"
    "dev_time (snd dev_placed) = 1005"
  unfolding dev_placed_def dev_start_def dev_stack_eq
  by (simp_all add: dev_place dev_run_simps dev_placed_vault_def called_def)


lemma dev_settle_price: "toPayoutDecimals 190000 7 k = k 19000"
  by (simp add: toPayoutDecimals_def PAYOUT_DECIMALS_def checked_def)

definition dev_settled_vault :: Vault where
  "dev_settled_vault = called (TokenTransfer 9 95000) (executed_vault 1 19000 dev_placed_vault)"

lemma dev_settle:
  assumes "dev_feed y = (190000, 7, 1000)" and "dev_time y = 1005" and "dev_token y = minted_token 5"
  shows "\<exists>y'. vault_tx (dev_env 5) (Msg 7 0 (CallSettle 1 20000 300)) (dev_placed_vault, y) = (dev_settled_vault, y') \<and> sendCount y' = sendCount y"
proof -
  obtain t where "token_transfer 5 9 95000 (minted_token 5) = Inr t"
    by (simp add: token_transfer_def move_tokens_def minted_token sol_require_def checked_def)
  then have "call_out (outside_at (dev_env 5) call_depth) (TokenTransfer 9 95000) (executed_vault 1 19000 dev_placed_vault, y)
      = Inr (True, (dev_settled_vault, y\<lparr>dev_token := t\<rparr>))"
    using call_runs [of "dev_env 5" "TokenTransfer 9 95000" "executed_vault 1 19000 dev_placed_vault" y True "\<lambda>y. y\<lparr>dev_token := t\<rparr>"] assms(3)
    by (simp add: dev_env_simps dev_settled_vault_def) (simp add: dev_run_simps dev_placed_vault_def)
  then have "settle_vault (dev_env 5) (outside_at (dev_env 5) call_depth) 7 1 20000 300 (dev_placed_vault, y) = Inr (dev_settled_vault, y\<lparr>dev_token := t\<rparr>)"
    by (simp add: settle_vault_def dev_env_simps assms(1,2) sol_require_def checked_def dev_settle_price MAX_PRICE_AGE_SEC_def executed_vault_def)
      (simp add: dev_run_simps dev_placed_vault_def)
  from settle_runs [OF this] show ?thesis by simp
qed


lemma dev_closed_eq: "fst dev_closed = called (NativeTransfer 8 (2 * 10 ^ 18)) (called (SendInstructions 0 [0x7EE]
    (instruction OP_COMMAND_CANCEL (abi_encode_id 2) 8)) (cancelled_vault 2 0 dev_settled_vault))"
proof -
  have "dev_fallen = (dev_placed_vault, (snd dev_placed)\<lparr>dev_feed := (190000, 7, 1000)\<rparr>)"
    by (simp add: dev_fallen_def dev_placed_eq)
  moreover obtain y' where "vault_tx (dev_env 5) (Msg 7 0 (CallSettle 1 20000 300)) (dev_placed_vault, (snd dev_placed)\<lparr>dev_feed := (190000, 7, 1000)\<rparr>)
      = (dev_settled_vault, y')" and y': "sendCount y' = 2"
    using dev_settle [of "(snd dev_placed)\<lparr>dev_feed := (190000, 7, 1000)\<rparr>"] by (auto simp: dev_placed_eq)
  ultimately have run: "dev_closed = vault_tx (dev_env 5) (Msg 8 0 (CallCancel 2)) (dev_settled_vault, y')"
    by (simp add: dev_closed_def)
  have order: "order_status (vault_orders dev_settled_vault 2) = STATUS_OPEN" "order_owner (vault_orders dev_settled_vault 2) = 8"
      "order_deposit (vault_orders dev_settled_vault 2) = 2 * 10 ^ 18" "extensionId dev_settled_vault \<noteq> 0" "native_balance dev_settled_vault = 7 * 10 ^ 18"
    by (simp_all add: dev_settled_vault_def dev_run_simps dev_placed_vault_def)
  show ?thesis
    unfolding run using dev_cancel [OF order(1,2,4), of y' _ 5 0] order y' by simp
qed

lemma dev_closed_logs: "vault_orders (fst dev_closed) 1 = \<lparr>order_owner = 9, order_deposit = 5 * 10 ^ 18, order_status = 2\<rparr>"
    "vault_orders (fst dev_closed) 2 = \<lparr>order_owner = 8, order_deposit = 2 * 10 ^ 18, order_status = 3\<rparr>"
    "logged executed_of (fst dev_closed) = [(1, 19000)]" "logged cancelled_of (fst dev_closed) = [2]"
    "native_balance (fst dev_closed) = 5 * 10 ^ 18"
  by (simp_all add: dev_closed_eq dev_settled_vault_def logged_def map_filter_simps) (simp_all add: dev_run_simps dev_placed_vault_def map_filter_simps)

end
