(* ===== verification/Vault_Safety.thy ===== *)
theory Vault_Safety
  imports Vault_Dev
begin

text \<open>
  The safety of the vault in every state that transactions reach, whatever the other contracts do:
  the deposits of the open orders are covered, every order is paid or refunded at most once and with
  the right amount, and an order changes only along none, open, closed.
\<close>

section \<open>Outgoing calls\<close>

lemma call_out_tame:
  assumes "tame out" and "vault_inv v" and "call_out out c (v, x) = Inr (r, (v', x'))" and "payout_of (Called c) = None"
  shows "vault_inv v' \<and> evolves v v' \<and> free_balance v - uint (outcall_value c) \<le> free_balance v'
    \<and> due_refunds v + mset (logged refund_of v')
      = due_refunds v' + (mset (logged refund_of v) + mset (List.map_filter refund_of [Called c]))"
proof -
  define v1 where "v1 = emit (Called c) (v\<lparr>native_balance := native_balance v - uint (outcall_value c)\<rparr>)"
  have tr: "trace v1 = trace v @ [Called c]" and same: "vault_orders v1 = vault_orders v" "nextOrderId v1 = nextOrderId v"
    by (simp_all add: v1_def emit_def)
  have "vault_inv v1"
    using vault_inv_silent [OF assms(2) same(1,2) tr] assms(4) by simp
  moreover have "out c (v1, x) = Inr (r, (v', x'))"
    using assms(3) by (simp add: call_out_def v1_def split: if_splits)
  ultimately have "vault_inv v' \<and> progress v1 v'" using assms(1) unfolding tame_def by blast
  moreover have "evolves v v1" by (simp add: evolves_def v1_def emit_def)
  moreover have "free_balance v1 = free_balance v - uint (outcall_value c)" "due_refunds v1 = due_refunds v"
    using accounts_cong [OF same(1)] by (simp_all add: free_balance_def v1_def emit_def)
  ultimately show ?thesis
    using evolves_trans by (auto simp: progress_def logged_snoc [OF tr])
qed

lemma sendInstruction_tame:
  assumes "tame out" and "vault_inv v" and "sendInstruction E out sender command payload fee (v, x) = Inr (v', x')"
  shows "vault_inv v' \<and> evolves v v' \<and> free_balance v - uint fee \<le> free_balance v'
    \<and> due_refunds v + mset (logged refund_of v') = due_refunds v' + mset (logged refund_of v)"
proof -
  obtain ids p r where "call_out out (SendInstructions fee ids p) (v, x) = Inr (r, (v', x'))"
    using assms(3) by (auto simp: sendInstruction_def getExtensionId_def split: option.splits sum.splits)
  from call_out_tame [OF assms(1,2) this] show ?thesis by (simp add: map_filter_simps)
qed

section \<open>The functions of the contract\<close>

text \<open>What a payable function leaves, beyond the value it was sent.\<close>

definition pays :: "uint256 \<Rightarrow> Vault \<Rightarrow> Vault \<Rightarrow> bool" where
  "pays value v v' \<longleftrightarrow> evolves v v' \<and> free_balance v - uint value \<le> free_balance v'
     \<and> due_refunds v + mset (logged refund_of v') = due_refunds v' + mset (logged refund_of v)"

lemma placeOrder_tame:
  assumes "tame out" and "vault_inv v" and "placeOrder E out sender value ct (v, x) = Inr (v', x')"
  shows "vault_inv v' \<and> pays value v v'"
proof -
  define i where "i = (word_of_int (uint (nextOrderId v) + 1) :: uint256)"
  define d where "d = (word_of_int (uint value - uint (INSTRUCTION_FEE v)) :: uint256)"
  define v1 where "v1 = emit (OrderPlaced i sender) (v\<lparr>nextOrderId := i, vault_orders := (vault_orders v)(i :=
      \<lparr>order_owner = sender, order_deposit = d, order_status = STATUS_OPEN\<rparr>)\<rparr>)"
  from assms(3) have r: "uint (nextOrderId v) + 1 < 2 ^ 256" "0 \<le> uint value - uint (INSTRUCTION_FEE v)"
      "uint value - uint (INSTRUCTION_FEE v) < 2 ^ 256"
    and send: "sendInstruction E out sender OP_COMMAND_PLACE (abi_encode_id_bytes i ct) (INSTRUCTION_FEE v) (v1, x) = Inr (v', x')"
    by (simp_all add: placeOrder_def v1_def i_def d_def)
  have i: "uint i = uint (nextOrderId v) + 1" unfolding i_def using r(1) by (intro uint_checked) simp_all
  have d: "uint d = uint value - uint (INSTRUCTION_FEE v)" unfolding d_def using r(2,3) by (rule uint_checked)
  note p = place_inv [OF assms(2) i v1_def]
  note s = sendInstruction_tame [OF assms(1) _ send]
  show ?thesis using p s evolves_trans [of v v1 v'] d by (auto simp: pays_def)
qed

lemma cancel_tame:
  assumes "tame out" and "vault_inv v" and "cancel_vault E out sender value i (v, x) = Inr (v', x')"
  shows "vault_inv v' \<and> pays value v v'"
proof -
  let ?o = "vault_orders v i"
  define v1 where "v1 = emit (OrderCancelled i) (with_status i STATUS_CANCELLED v)"
  from assms(3) obtain v2 x2 ok where own: "order_owner ?o = sender" and opn: "order_status ?o = STATUS_OPEN"
    and send: "sendInstruction E out sender OP_COMMAND_CANCEL (abi_encode_id i) value (v1, x) = Inr (v2, x2)"
    and refund: "call_out out (NativeTransfer sender (order_deposit ?o)) (v2, x2) = Inr (ok, (v', x'))"
    by (auto simp: cancel_vault_def v1_def split: sum.splits)
  note c = cancel_inv [OF assms(2) opn v1_def]
  note s = sendInstruction_tame [OF assms(1) _ send]
  have inv2: "vault_inv v2" using c s by blast
  note t = call_out_tame [OF assms(1) inv2 refund, simplified]
  have "evolves v v'" using c s t evolves_trans by metis
  moreover have "free_balance v - uint value \<le> free_balance v'" using c s t by simp
  moreover have "due_refunds v + mset (logged refund_of v') = due_refunds v' + mset (logged refund_of v)"
    using c s t own balance_trans [of "due_refunds v" "add_mset (sender, order_deposit ?o) (mset (logged refund_of v2))" "due_refunds v2"]
    by (simp add: map_filter_simps)
  ultimately show ?thesis using t by (simp add: pays_def)
qed


lemma toPayoutDecimals_Inr: "toPayoutDecimals value d k = Inr r \<Longrightarrow> \<exists>price. k price = Inr r"
  by (auto simp: toPayoutDecimals_def Let_def split: if_splits)

lemma settle_tame:
  assumes "tame out" and "vault_inv v" and "settle_vault E out sender i trigger maxAge (v, x) = Inr (v', x')"
  shows "vault_inv v' \<and> progress v v'"
proof -
  let ?o = "vault_orders v i"
  have opn: "order_status ?o = STATUS_OPEN"
    using assms(3) by (simp add: settle_vault_def)
  from assms(3) obtain price ok where
    send: "call_out out (TokenTransfer (order_owner ?o) (payout_amount (order_deposit ?o) price))
        (emit (OrderExecuted i price) (with_status i STATUS_EXECUTED v), x) = Inr (ok, (v', x'))"
    by (auto simp: settle_vault_def payout_amount_def split: option.splits prod.splits sum.splits dest!: toPayoutDecimals_Inr)
  define v1 where "v1 = emit (Called (TokenTransfer (order_owner ?o) (payout_amount (order_deposit ?o) price)))
      (emit (OrderExecuted i price) (with_status i STATUS_EXECUTED v))"
  note e = execute_inv [OF assms(2) opn v1_def]
  have "v1\<lparr>native_balance := native_balance v1\<rparr> = v1" by simp
  then have "out (TokenTransfer (order_owner ?o) (payout_amount (order_deposit ?o) price)) (v1, x) = Inr (ok, (v', x'))"
    using send by (simp add: call_out_def v1_def emit_def split: if_splits)
  then show ?thesis
    using assms(1) e progress_trans unfolding tame_def by blast
qed

lemma owner_calls_tame:
  "vault_inv v \<Longrightarrow> setExtensionId E (v, x) = Inr (v', x') \<Longrightarrow> vault_inv v' \<and> progress v v'"
  "vault_inv v \<Longrightarrow> setTeeExecutor sender a (v, x) = Inr (v', x') \<Longrightarrow> vault_inv v' \<and> progress v v'"
proof -
  show "vault_inv v' \<and> progress v v'" if "vault_inv v" and "setExtensionId E (v, x) = Inr (v', x')"
  proof -
    from that(2) obtain j where "extensionId v = 0" "v' = v\<lparr>extensionId := j\<rparr>"
      by (auto simp: setExtensionId_def split: option.splits sum.splits)
    then show ?thesis using that(1) vault_inv_cong [of v' v] accounts_cong [of v' v]
      by (simp add: progress_def evolves_def free_balance_def logged_def)
  qed
  show "vault_inv v' \<and> progress v v'" if "vault_inv v" and "setTeeExecutor sender a (v, x) = Inr (v', x')"
  proof -
    from that(2) have "v' = v\<lparr>teeExecutor := a\<rparr>" by (simp add: setTeeExecutor_def)
    then show ?thesis using that(1) vault_inv_cong [of v' v] accounts_cong [of v' v]
      by (simp add: progress_def evolves_def free_balance_def logged_def)
  qed
qed

section \<open>Messages\<close>

lemma credit_facts:
  "vault_inv (credit value v) = vault_inv v" "evolves v (credit value v)" "free_balance (credit value v) = free_balance v + uint value"
  "due_refunds (credit value v) = due_refunds v" "logged f (credit value v) = logged f v"
  using vault_inv_cong [of "credit value v" v] accounts_cong [of "credit value v" v]
  by (simp_all add: credit_def evolves_def free_balance_def logged_def)

lemma paid_progress: "pays n (credit n v) v' \<Longrightarrow> progress v v'"
  using evolves_trans [OF credit_facts(2) [of v n]] by (simp add: pays_def progress_def credit_facts)

lemma run_msg_tame:
  assumes "tame out" and "vault_inv v" and "run_msg E out m (v, x) = (v', x')"
  shows "vault_inv v' \<and> progress v v'"
proof (cases m)
  case (ForceEther n)
  then show ?thesis using assms(2,3) by (auto simp: progress_def credit_facts)
next
  case (Msg sender n c)
  show ?thesis
  proof (cases "run_call E out sender n c (v, x)")
    case (Inl er)
    then show ?thesis using assms(2,3) Msg by simp
  next
    case (Inr st')
    then have run: "run_call E out sender n c (v, x) = Inr (v', x')" using assms(3) Msg by simp
    have paid: "vault_inv (credit n v)" using assms(2) by (simp add: credit_facts)
    show ?thesis
    proof (cases c)
      case (CallPlaceOrder ct)
      then show ?thesis using run placeOrder_tame [OF assms(1) paid, of E sender n ct x v' x'] paid_progress [of n v v']
        by (simp add: run_call_def)
    next
      case (CallCancel i)
      then show ?thesis using run cancel_tame [OF assms(1) paid, of E sender n i x v' x'] paid_progress [of n v v']
        by (simp add: run_call_def)
    next
      case CallSetExtensionId
      then show ?thesis using run owner_calls_tame(1) [OF assms(2), of E x v' x'] by (simp add: run_call_def)
    next
      case (CallSetTeeExecutor a)
      then show ?thesis using run owner_calls_tame(2) [OF assms(2), of sender a x v' x'] by (simp add: run_call_def)
    next
      case (CallSettle i trigger maxAge)
      then show ?thesis using run settle_tame [OF assms(1,2), of E sender i trigger maxAge x v' x'] by (simp add: run_call_def)
    qed
  qed
qed

lemma run_msgs_tame:
  assumes "tame out"
  shows "vault_inv v \<Longrightarrow> fold (run_msg E out) ms (v, x) = (v', x') \<Longrightarrow> vault_inv v' \<and> progress v v'"
proof (induction ms arbitrary: v x)
  case (Cons m ms)
  obtain v1 x1 where m: "run_msg E out m (v, x) = (v1, x1)" by fastforce
  have "vault_inv v1 \<and> progress v v1" using run_msg_tame [OF assms Cons.prems(1) m] .
  moreover have "fold (run_msg E out) ms (v1, x1) = (v', x')" using Cons.prems(2) m by simp
  moreover have "vault_inv v' \<and> progress v1 v'" using Cons.IH [OF _ calculation(2)] calculation(1) by blast
  ultimately show ?case using progress_trans by blast
qed simp

text \<open>Foreign code is tame at every depth of the call stack.\<close>

lemma outside_tame: "tame (outside_at E depth)"
proof (induction depth)
  case 0
  show ?case by (simp add: tame_def)
next
  case (Suc depth)
  show ?case unfolding tame_def
  proof (intro allI impI)
    fix c v x r v' x'
    assume a: "vault_inv v \<and> outside_at E (Suc depth) c (v, x) = Inr (r, (v', x'))"
    then obtain msgs upd x1 where "fold (run_msg E (outside_at E depth)) msgs (v, x) = (v', x1)"
      by (auto split: option.splits prod.splits)
    then show "vault_inv v' \<and> progress v v'" using run_msgs_tame [OF Suc] a by blast
  qed
qed


section \<open>Reachable states\<close>

definition vault_ok :: "Vault \<Rightarrow> bool" where
  "vault_ok v \<longleftrightarrow> vault_inv v \<and> 0 \<le> free_balance v \<and> due_refunds v = mset (logged refund_of v)"

lemma progress_ok: "vault_ok v \<Longrightarrow> vault_inv v' \<Longrightarrow> progress v v' \<Longrightarrow> vault_ok v'"
  using balance_trans [of "{#}" "{#}" "{#}"] by (auto simp: vault_ok_def progress_def)

lemma vault_step_progress:
  assumes "vault_inv (fst st)" and "vault_step E st st'"
  shows "vault_inv (fst st') \<and> progress (fst st) (fst st')"
  using assms(2,1)
proof (cases rule: vault_step.cases)
  case (vault_msg m)
  obtain v x v' x' where st: "st = (v, x)" "st' = (v', x')" by (metis surj_pair)
  then have "run_msg E (outside_at E call_depth) m (v, x) = (v', x')" using vault_msg by (simp add: vault_tx_def)
  from run_msg_tame [OF outside_tame _ this] show ?thesis using assms(1) by (simp add: st)
qed simp

lemma constructed:
  "vault_constructor code_length sender er mr f t fee = Inr v \<Longrightarrow> vault_orders v i = \<lparr>order_owner = 0, order_deposit = 0, order_status = 0\<rparr>
    \<and> nextOrderId v = 0 \<and> native_balance v = 0 \<and> trace v = [] \<and> vault_OWNER v = sender"
  by (auto simp: vault_constructor_def)

lemma deployed_ok:
  assumes "deployed_vault st"
  shows "vault_ok (fst st)"
proof -
  have "vault_orders (fst st) i = \<lparr>order_owner = 0, order_deposit = 0, order_status = 0\<rparr>" "native_balance (fst st) = 0" "trace (fst st) = []" for i
    using assms constructed unfolding deployed_vault_def by metis+
  then show ?thesis
    by (simp add: vault_ok_def vault_inv_def log_matches_def logged_def map_filter_simps
        free_balance_def open_deposits_def open_part_def due_refunds_def cancelled_part_def status_defs)
qed

interpretation vault_machine: inv_machine deployed_vault "vault_step E" "\<lambda>st. vault_ok (fst st)"
proof
  show "vault_ok (fst st')" if "vault_ok (fst st)" and "vault_step E st st'" for st st'
    using progress_ok [OF that(1)] vault_step_progress [OF _ that(2)] that(1) by (simp add: vault_ok_def)
qed (rule deployed_ok)

lemma sum_singletons: "distinct is \<Longrightarrow> (\<Sum>i\<in>set is. {#f i#}) = mset (map f is)"
  by (induction "is") auto

lemma due_refunds_logged:
  assumes "log_matches is (\<lambda>o1. order_status o1 = STATUS_CANCELLED) v"
  shows "due_refunds v = mset (map (\<lambda>i. (order_owner (vault_orders v i), order_deposit (vault_orders v i))) is)"
proof -
  let ?f = "\<lambda>i. (order_owner (vault_orders v i), order_deposit (vault_orders v i))"
  have "due_refunds v = (\<Sum>i\<in>set is. {#?f i#})"
    using assms unfolding due_refunds_def by (intro sum.mono_neutral_cong_right) (auto simp: log_matches_def cancelled_part_def)
  also have "\<dots> = mset (map ?f is)"
    using assms by (intro sum_singletons) (simp add: log_matches_def)
  finally show ?thesis .
qed

text \<open>C4. The vault is solvent: in every state that transactions reach, whatever the contracts it calls do
  and however often they call back in the middle of a function, its native balance covers the deposits
  of all open orders together.\<close>

theorem vault_solvent:
  assumes "reach deployed_vault (vault_step E) (v, x)"
  shows "(\<Sum>i\<in>UNIV. if order_status (vault_orders v i) = STATUS_OPEN then uint (order_deposit (vault_orders v i)) else 0) \<le> native_balance v"
  using vault_machine.inv_reach [OF assms] by (simp add: vault_ok_def free_balance_def open_deposits_def open_part_def)

text \<open>C3. Every order is paid or refunded at most once, and correctly: no id is closed twice, the tokens
  transferred are, in order, the deposit of each executed order at the price it was executed at, to its
  owner, and the native transfers are exactly one refund of the full deposit to the owner of each
  cancelled order.\<close>

theorem vault_pays_once:
  assumes "reach deployed_vault (vault_step E) (v, x)"
  shows "distinct (map fst (logged executed_of v) @ logged cancelled_of v)
    \<and> logged payout_of v = map (\<lambda>(i, price). (order_owner (vault_orders v i), payout_amount (order_deposit (vault_orders v i)) price)) (logged executed_of v)
    \<and> mset (logged refund_of v) = mset (map (\<lambda>i. (order_owner (vault_orders v i), order_deposit (vault_orders v i))) (logged cancelled_of v))"
proof -
  have inv: "vault_inv v" and due: "due_refunds v = mset (logged refund_of v)"
    using vault_machine.inv_reach [OF assms] by (simp_all add: vault_ok_def)
  have "distinct (map fst (logged executed_of v) @ logged cancelled_of v)"
    using inv by (auto simp: vault_inv_def log_matches_def status_defs)
  moreover have "logged payout_of v = map (\<lambda>(i, price). (order_owner (vault_orders v i), payout_amount (order_deposit (vault_orders v i)) price)) (logged executed_of v)"
    using inv by (auto simp: vault_inv_def due_payout_def)
  moreover have "log_matches (logged cancelled_of v) (\<lambda>o1. order_status o1 = STATUS_CANCELLED) v"
    using inv by (simp add: vault_inv_def)
  note due_refunds_logged [OF this, unfolded due]
  ultimately show ?thesis by blast
qed


text \<open>The run of \<open>Vault_Dev\<close>.\<close>

theorem vault_solvent_witness:
  "(\<Sum>i\<in>UNIV. if order_status (vault_orders (fst dev_placed) i) = STATUS_OPEN then uint (order_deposit (vault_orders (fst dev_placed) i)) else 0)
    \<le> (7 * 10 ^ 18 :: int)"
proof -
  have "reach deployed_vault (vault_step (dev_env 5)) (fst dev_placed, snd dev_placed)" by (simp add: dev_reach(2))
  moreover have "native_balance (fst dev_placed) = 7 * 10 ^ 18" by (simp add: dev_placed_eq dev_placed_vault_def)
  ultimately show ?thesis using vault_solvent [of "dev_env 5" "fst dev_placed" "snd dev_placed"] by (simp only:)
qed

theorem vault_pays_once_witness:
  "logged payout_of (fst dev_closed) = [(9, 95000)] \<and> mset (logged refund_of (fst dev_closed)) = {#(8, 2 * 10 ^ 18)#}"
  using vault_pays_once [of "dev_env 5" "fst dev_closed" "snd dev_closed"] dev_reach(4)
  by (simp add: dev_closed_logs payout_amount_def)

end
