(* ===== verification/Go_Json.thy ===== *)
theory Go_Json
  imports Go_Strings
begin

text \<open>
  The part of Go's \<open>encoding/json\<close> the code relies on, on byte strings: the scanner as a prefix
  parser (a value ends at the first byte that cannot continue it), unquoting of strings with its
  replacement of invalid UTF-8, and the token stream of \<open>json.Decoder\<close>. It belongs to the
  language's library, so no definition here stands for a file of the repository.

  The parser is fuelled; every nested value is shorter than its context, so the length of the
  input is always enough fuel. Go also stops at nesting depth 10000.
\<close>

section \<open>Strings\<close>

definition is_space :: "char \<Rightarrow> bool" where
  "is_space c \<longleftrightarrow> c = CHR '' '' \<or> c = CHR 0x09 \<or> c = CHR 0x0A \<or> c = CHR 0x0D"

definition skip_ws :: "bytes \<Rightarrow> bytes" where
  "skip_ws s = dropWhile is_space s"

text \<open>The value of \<open>\uXXXX\<close> at the head of the input, as \<open>getu4\<close>.\<close>

fun getu4 :: "bytes \<Rightarrow> nat option" where
  "getu4 (b # u # c3 # c2 # c1 # c0 # _) = (if b = CHR 0x5C \<and> u = CHR ''u'' then
     (case (hex_val c3, hex_val c2, hex_val c1, hex_val c0) of
        (Some v3, Some v2, Some v1, Some v0) \<Rightarrow> Some (4096 * v3 + 256 * v2 + 16 * v1 + v0)
      | _ \<Rightarrow> None) else None)"
| "getu4 _ = None"

text \<open>The raw body of a string literal after its opening quote, and the input after its end.\<close>

function scan_string :: "bytes \<Rightarrow> (bytes \<times> bytes) option" where
  "scan_string s = (case s of
     [] \<Rightarrow> None
   | c # cs \<Rightarrow>
      if c = CHR 0x22 then Some ([], cs)
      else if code c < 32 then None
      else if c = CHR 0x5C then
        (if getu4 s \<noteq> None then map_option (apfst (append (take 6 s))) (scan_string (drop 6 s))
         else (case cs of
             [] \<Rightarrow> None
           | e # cs' \<Rightarrow> if e \<in> set (CHR 0x22 # CHR 0x5C # ''/bfnrt'')
               then map_option (apfst (append [c, e])) (scan_string cs') else None))
      else map_option (apfst (Cons c)) (scan_string cs))"
  by pat_completeness auto
termination
  by (relation "measure length") auto

declare scan_string.simps [simp del]

definition utf8_encode :: "nat \<Rightarrow> bytes" where
  "utf8_encode r =
     (if r < 0x80 then [byte r]
      else if r < 0x800 then [byte (0xC0 + r div 64), byte (0x80 + r mod 64)]
      else if r < 0x10000 then
        [byte (0xE0 + r div 4096), byte (0x80 + r div 64 mod 64), byte (0x80 + r mod 64)]
      else [byte (0xF0 + r div 262144), byte (0x80 + r div 4096 mod 64),
            byte (0x80 + r div 64 mod 64), byte (0x80 + r mod 64)])"

text \<open>The well-formed UTF-8 sequences, and the length of the one at the head of the input, or 0.\<close>

definition utf8_seq :: "nat list \<Rightarrow> bool" where
  "utf8_seq n \<longleftrightarrow> (case n of
       [a] \<Rightarrow> a < 0x80
     | [a, b] \<Rightarrow> 0xC2 \<le> a \<and> a \<le> 0xDF \<and> 0x80 \<le> b \<and> b \<le> 0xBF
     | [a, b, c] \<Rightarrow> 0xE0 \<le> a \<and> a \<le> 0xEF \<and> (if a = 0xE0 then 0xA0 else 0x80) \<le> b
         \<and> b \<le> (if a = 0xED then 0x9F else 0xBF) \<and> 0x80 \<le> c \<and> c \<le> 0xBF
     | [a, b, c, d] \<Rightarrow> 0xF0 \<le> a \<and> a \<le> 0xF4 \<and> (if a = 0xF0 then 0x90 else 0x80) \<le> b
         \<and> b \<le> (if a = 0xF4 then 0x8F else 0xBF) \<and> 0x80 \<le> c \<and> c \<le> 0xBF \<and> 0x80 \<le> d \<and> d \<le> 0xBF
     | _ \<Rightarrow> False)"

definition utf8_len :: "bytes \<Rightarrow> nat" where
  "utf8_len s = (case filter (\<lambda>k. utf8_seq (map code (take k s))) [1, 2, 3, 4] of [] \<Rightarrow> 0 | k # _ \<Rightarrow> k)"

lemma utf8_len_ascii: "code c < 128 \<Longrightarrow> utf8_len (c # s) = 1"
  by (simp add: utf8_len_def utf8_seq_def)

lemma utf8_len_iff: "utf8_len s = n \<and> 0 < n \<longleftrightarrow>
    n \<le> 4 \<and> utf8_seq (map code (take n s)) \<and> (\<forall>k<n. \<not> utf8_seq (map code (take k s)))"
proof -
  have "n \<le> 4 \<longleftrightarrow> n \<in> {0, 1, 2, 3, 4}" by auto
  then show ?thesis
    by (auto simp: utf8_len_def utf8_seq_def [of "[]"] less_Suc_eq numeral_eq_Suc)
qed

lemma utf8_len_le: "utf8_len s \<le> length s"
proof (rule ccontr)
  assume "\<not> utf8_len s \<le> length s"
  then show False using utf8_len_iff [of s "utf8_len s"]
    by (metis gr0I leI le_zero_eq nat_less_le not_le take_all_iff)
qed

definition replacement_char :: bytes where
  "replacement_char = utf8_encode 0xFFFD"

text \<open>A surrogate pair, as \<open>utf16.DecodeRune\<close>.\<close>

definition decode_pair :: "nat \<Rightarrow> nat option \<Rightarrow> nat option" where
  "decode_pair r r1 = (case r1 of
     Some q \<Rightarrow> if 0xD800 \<le> r \<and> r < 0xDC00 \<and> 0xDC00 \<le> q \<and> q < 0xE000
       then Some ((r - 0xD800) * 1024 + (q - 0xDC00) + 0x10000) else None
   | None \<Rightarrow> None)"

definition escape_value :: "char \<Rightarrow> char" where
  "escape_value e =
     (if e = CHR ''b'' then CHR 0x08 else if e = CHR ''f'' then CHR 0x0C
      else if e = CHR ''n'' then CHR 0x0A else if e = CHR ''r'' then CHR 0x0D
      else if e = CHR ''t'' then CHR 0x09 else e)"

function unquote :: "bytes \<Rightarrow> bytes" where
  "unquote s = (case s of
     [] \<Rightarrow> []
   | c # cs \<Rightarrow>
      if c = CHR 0x5C then
        (case getu4 s of
           Some r \<Rightarrow>
             if 0xD800 \<le> r \<and> r < 0xE000 then
               (case decode_pair r (getu4 (drop 6 s)) of
                  Some p \<Rightarrow> utf8_encode p @ unquote (drop 12 s)
                | None \<Rightarrow> replacement_char @ unquote (drop 6 s))
             else utf8_encode r @ unquote (drop 6 s)
         | None \<Rightarrow> (case cs of [] \<Rightarrow> [] | e # cs' \<Rightarrow> escape_value e # unquote cs'))
      else if utf8_len s = 0 then replacement_char @ unquote cs
      else take (utf8_len s) s @ unquote (drop (utf8_len s) s))"
  by pat_completeness auto
termination
  by (relation "measure length") auto

declare unquote.simps [simp del]

section \<open>Numbers\<close>

fun digit_span :: "bytes \<Rightarrow> bytes \<times> bytes" where
  "digit_span [] = ([], [])"
| "digit_span (c # cs) = (if is_digit c then apfst (Cons c) (digit_span cs) else ([], c # cs))"

text \<open>The parts after the integer part: a fraction and an exponent; a dot or an \<open>e\<close> without digits
  is an error.\<close>

definition scan_frac :: "bytes \<Rightarrow> (bytes \<times> bytes) option" where
  "scan_frac s = (case s of
     c # cs \<Rightarrow> if c = CHR ''.'' then
       (case digit_span cs of (ds, r) \<Rightarrow> if ds = [] then None else Some (c # ds, r)) else Some ([], s)
   | [] \<Rightarrow> Some ([], s))"

definition scan_exp :: "bytes \<Rightarrow> (bytes \<times> bytes) option" where
  "scan_exp s = (case s of
     c # cs \<Rightarrow> if c = CHR ''e'' \<or> c = CHR ''E'' then
       (let (sg, t) = (case cs of d # ds \<Rightarrow> if d = CHR ''+'' \<or> d = CHR ''-'' then ([d], ds) else ([], cs)
                       | [] \<Rightarrow> ([], cs))
        in case digit_span t of (ds, r) \<Rightarrow> if ds = [] then None else Some (c # sg @ ds, r))
       else Some ([], s)
   | [] \<Rightarrow> Some ([], s))"

definition scan_number :: "bytes \<Rightarrow> (bytes \<times> bytes) option" where
  "scan_number s =
     (let (sg, t) = (case s of c # cs \<Rightarrow> if c = CHR ''-'' then ([c], cs) else ([], s) | [] \<Rightarrow> ([], s));
          (ip, r) = (case t of c # cs \<Rightarrow> if c = CHR ''0'' then ([c], cs) else digit_span t
                     | [] \<Rightarrow> ([], t))
      in if ip = [] then None
         else (case scan_frac r of None \<Rightarrow> None
         | Some (f, r') \<Rightarrow> (case scan_exp r' of None \<Rightarrow> None
         | Some (x, r'') \<Rightarrow> Some (sg @ ip @ f @ x, r''))))"

section \<open>Values\<close>

datatype json = JNull | JBool bool | JNum bytes | JStr bytes | JArr "json list"
  | JObj "(bytes \<times> json) list"

definition next_is :: "char \<Rightarrow> bytes \<Rightarrow> bool" where
  "next_is c s = (case skip_ws s of d # _ \<Rightarrow> d = c | [] \<Rightarrow> False)"

definition scan_literal :: "bytes \<Rightarrow> json \<Rightarrow> bytes \<Rightarrow> (json \<times> bytes) option" where
  "scan_literal w v s = (if HasPrefix s w then Some (v, drop (length w) s) else None)"

text \<open>A key, unquoted, with its colon.\<close>

definition parse_key :: "bytes \<Rightarrow> (bytes \<times> bytes) option" where
  "parse_key s = (case skip_ws s of
     [] \<Rightarrow> None
   | q # t \<Rightarrow> if q \<noteq> CHR 0x22 then None
       else (case scan_string t of
         None \<Rightarrow> None
       | Some (k, r) \<Rightarrow> if next_is (CHR '':'') r then Some (unquote k, tl (skip_ws r)) else None))"

text \<open>A value; the elements of an array and the members of an object up to their closing bracket,
  after the opening one (\<open>first\<close>) or after a comma.\<close>

fun parse_value :: "nat \<Rightarrow> bytes \<Rightarrow> (json \<times> bytes) option"
  and parse_elems :: "nat \<Rightarrow> bool \<Rightarrow> bytes \<Rightarrow> (json list \<times> bytes) option"
  and parse_members :: "nat \<Rightarrow> bool \<Rightarrow> bytes \<Rightarrow> ((bytes \<times> json) list \<times> bytes) option" where
  "parse_value 0 s = None"
| "parse_value (Suc n) s = (case skip_ws s of
     [] \<Rightarrow> None
   | c # cs \<Rightarrow>
      if c = CHR 0x22 then map_option (apfst (\<lambda>b. JStr (unquote b))) (scan_string cs)
      else if c = CHR ''{'' then map_option (apfst JObj) (parse_members n True cs)
      else if c = CHR ''['' then map_option (apfst JArr) (parse_elems n True cs)
      else if c = CHR ''t'' then scan_literal ''true'' (JBool True) (c # cs)
      else if c = CHR ''f'' then scan_literal ''false'' (JBool False) (c # cs)
      else if c = CHR ''n'' then scan_literal ''null'' JNull (c # cs)
      else map_option (apfst JNum) (scan_number (c # cs)))"
| "parse_elems 0 first s = None"
| "parse_elems (Suc n) first s =
     (if first \<and> next_is (CHR '']'') s then Some ([], tl (skip_ws s))
      else (case parse_value n s of
        None \<Rightarrow> None
      | Some (v, r) \<Rightarrow> (case skip_ws r of
          [] \<Rightarrow> None
        | c # cs \<Rightarrow> if c = CHR '']'' then Some ([v], cs)
            else if c = CHR '','' then map_option (apfst (Cons v)) (parse_elems n False cs)
            else None)))"
| "parse_members 0 first s = None"
| "parse_members (Suc n) first s =
     (if first \<and> next_is (CHR ''}'') s then Some ([], tl (skip_ws s))
      else (case parse_key s of
        None \<Rightarrow> None
      | Some (k, q) \<Rightarrow> (case parse_value n q of
          None \<Rightarrow> None
        | Some (v, r) \<Rightarrow> (case skip_ws r of
            [] \<Rightarrow> None
          | c # cs \<Rightarrow> if c = CHR ''}'' then Some ([(k, v)], cs)
              else if c = CHR '','' then map_option (apfst (Cons (k, v))) (parse_members n False cs)
              else None))))"

text \<open>Fuel that is always enough, see \<open>parse_value_fuel\<close>.\<close>

definition json_fuel :: "bytes \<Rightarrow> nat" where
  "json_fuel s = 2 * length s + 2"

section \<open>The decoder\<close>

datatype token_state = TokenTopValue | TokenArrayStart | TokenArrayValue | TokenArrayComma
  | TokenObjectStart | TokenObjectKey | TokenObjectColon | TokenObjectValue | TokenObjectComma

record decoder =
  dec_in :: bytes
  dec_state :: token_state
  dec_stack :: "token_state list"

datatype dec_error = DecEOF | DecSyntax

datatype token = Delim char | Value json

definition NewDecoder :: "bytes \<Rightarrow> decoder" where
  "NewDecoder s = \<lparr>dec_in = s, dec_state = TokenTopValue, dec_stack = []\<rparr>"

definition tokenValueAllowed :: "token_state \<Rightarrow> bool" where
  "tokenValueAllowed t \<longleftrightarrow> t \<in> {TokenTopValue, TokenArrayStart, TokenArrayValue, TokenObjectValue}"

definition tokenValueEnd :: "token_state \<Rightarrow> token_state" where
  "tokenValueEnd t = (case t of TokenArrayStart \<Rightarrow> TokenArrayComma | TokenArrayValue \<Rightarrow> TokenArrayComma
     | TokenObjectValue \<Rightarrow> TokenObjectComma | _ \<Rightarrow> t)"

definition dec_value :: "decoder \<Rightarrow> dec_error + (json \<times> decoder)" where
  "dec_value d = (if \<not> tokenValueAllowed (dec_state d) then Inl DecSyntax
     else (case parse_value (json_fuel (dec_in d)) (dec_in d) of
         None \<Rightarrow> Inl (if skip_ws (dec_in d) = [] then DecEOF else DecSyntax)
       | Some (v, r) \<Rightarrow> Inr (v, d\<lparr>dec_in := r, dec_state := tokenValueEnd (dec_state d)\<rparr>)))"

text \<open>\<open>Decode\<close> first takes the comma or colon the state asks for.\<close>

definition dec_Decode :: "decoder \<Rightarrow> dec_error + (json \<times> decoder)" where
  "dec_Decode d =
     (case dec_state d of
        TokenArrayComma \<Rightarrow> (case skip_ws (dec_in d) of [] \<Rightarrow> Inl DecEOF
          | c # cs \<Rightarrow> if c = CHR '','' then dec_value (d\<lparr>dec_in := cs, dec_state := TokenArrayValue\<rparr>)
                      else Inl DecSyntax)
      | TokenObjectColon \<Rightarrow> (case skip_ws (dec_in d) of [] \<Rightarrow> Inl DecEOF
          | c # cs \<Rightarrow> if c = CHR '':'' then dec_value (d\<lparr>dec_in := cs, dec_state := TokenObjectValue\<rparr>)
                      else Inl DecSyntax)
      | _ \<Rightarrow> dec_value d)"

definition dec_More :: "decoder \<Rightarrow> bool" where
  "dec_More d = (case skip_ws (dec_in d) of [] \<Rightarrow> False | c # _ \<Rightarrow> c \<noteq> CHR '']'' \<and> c \<noteq> CHR ''}'')"

definition dec_open :: "char \<Rightarrow> token_state \<Rightarrow> decoder \<Rightarrow> bytes \<Rightarrow> dec_error + (token \<times> decoder)" where
  "dec_open c t d cs = (if tokenValueAllowed (dec_state d)
     then Inr (Delim c, d\<lparr>dec_in := cs, dec_state := t, dec_stack := dec_state d # dec_stack d\<rparr>)
     else Inl DecSyntax)"

definition dec_close :: "char \<Rightarrow> token_state set \<Rightarrow> decoder \<Rightarrow> bytes \<Rightarrow> dec_error + (token \<times> decoder)" where
  "dec_close c ts d cs = (if dec_state d \<in> ts
     then Inr (Delim c, d\<lparr>dec_in := cs, dec_state := tokenValueEnd (hd (dec_stack d)),
       dec_stack := tl (dec_stack d)\<rparr>)
     else Inl DecSyntax)"

text \<open>An object key is decoded as a value in the top state.\<close>

definition dec_key :: "decoder \<Rightarrow> dec_error + (token \<times> decoder)" where
  "dec_key d = (case dec_value (d\<lparr>dec_state := TokenTopValue\<rparr>) of
     Inl er \<Rightarrow> Inl er
   | Inr (v, d') \<Rightarrow> Inr (Value v, d'\<lparr>dec_state := TokenObjectColon\<rparr>))"

function dec_Token :: "decoder \<Rightarrow> dec_error + (token \<times> decoder)" where
  "dec_Token d = (case skip_ws (dec_in d) of
     [] \<Rightarrow> Inl DecEOF
   | c # cs \<Rightarrow>
      if c = CHR ''['' then dec_open c TokenArrayStart d cs
      else if c = CHR '']'' then dec_close c {TokenArrayStart, TokenArrayComma} d cs
      else if c = CHR ''{'' then dec_open c TokenObjectStart d cs
      else if c = CHR ''}'' then dec_close c {TokenObjectStart, TokenObjectComma} d cs
      else if c = CHR '':'' then
        (if dec_state d = TokenObjectColon then dec_Token (d\<lparr>dec_in := cs, dec_state := TokenObjectValue\<rparr>)
         else Inl DecSyntax)
      else if c = CHR '','' then
        (if dec_state d = TokenArrayComma then dec_Token (d\<lparr>dec_in := cs, dec_state := TokenArrayValue\<rparr>)
         else if dec_state d = TokenObjectComma
           then dec_Token (d\<lparr>dec_in := cs, dec_state := TokenObjectKey\<rparr>)
         else Inl DecSyntax)
      else if c = CHR 0x22 \<and> dec_state d \<in> {TokenObjectStart, TokenObjectKey} then dec_key d
      else (case dec_value d of Inl er \<Rightarrow> Inl er | Inr (v, d') \<Rightarrow> Inr (Value v, d')))"
  by pat_completeness auto

lemma skip_ws_length: "length (skip_ws s) \<le> length s"
  by (simp add: skip_ws_def length_dropWhile_le)

lemma skip_ws_Cons: "skip_ws s = c # cs \<Longrightarrow> length cs < length s"
  using skip_ws_length [of s] by simp

termination dec_Token
  by (relation "measure (\<lambda>d. length (dec_in d))") (auto dest: skip_ws_Cons)

declare dec_Token.simps [simp del]

section \<open>The parser consumes its input; its fuel is enough\<close>

lemma scan_string_rest: "scan_string s = Some (b, r) \<Longrightarrow> length r < length s"
proof (induction s arbitrary: b r rule: scan_string.induct)
  case (1 s)
  show ?case
  proof (cases s)
    case Nil
    with 1(4) show ?thesis by (simp add: scan_string.simps)
  next
    case (Cons c cs)
    note IH = 1(1-3)[OF Cons]
    show ?thesis
      using 1(4) Cons IH
      by (subst (asm) scan_string.simps) (force split: if_splits list.splits)
  qed
qed

lemma digit_span_rest:
  "digit_span s = (d, r) \<Longrightarrow> length r \<le> length s \<and> (d \<noteq> [] \<longrightarrow> length r < length s)"
  by (induction s arbitrary: d r) (auto split: if_splits simp: apfst_def map_prod_def split: prod.splits)

declare digit_span.simps(2) [simp del]

lemma scan_frac_rest: "scan_frac s = Some (f, r) \<Longrightarrow> length r \<le> length s"
  by (auto simp: scan_frac_def dest!: digit_span_rest split: list.splits if_splits prod.splits)

lemma scan_exp_rest: "scan_exp s = Some (f, r) \<Longrightarrow> length r \<le> length s"
  by (auto simp: scan_exp_def Let_def dest!: digit_span_rest split: list.splits if_splits prod.splits)

lemma scan_number_rest: "scan_number s = Some (x, r) \<Longrightarrow> length r < length s"
  by (auto simp: scan_number_def Let_def dest!: scan_frac_rest scan_exp_rest digit_span_rest
      split: list.splits if_splits prod.splits option.splits)

lemma scan_literal_rest: "scan_literal w v s = Some (x, r) \<Longrightarrow> w \<noteq> [] \<Longrightarrow> s \<noteq> [] \<Longrightarrow> length r < length s"
  by (auto simp: scan_literal_def split: if_splits)

lemma next_is_rest: "next_is c s \<Longrightarrow> length (tl (skip_ws s)) < length s"
  using skip_ws_length [of s] by (auto simp: next_is_def split: list.splits)

lemma parse_key_rest: "parse_key s = Some (k, r) \<Longrightarrow> length r < length s"
  by (auto simp: parse_key_def dest!: scan_string_rest next_is_rest skip_ws_Cons
      split: list.splits option.splits if_splits)

lemma parse_rest:
  "parse_value n s = Some (v, r) \<Longrightarrow> length r < length s"
  "parse_elems n first s = Some (vs, r') \<Longrightarrow> length r' < length s"
  "parse_members n first s = Some (ms, r'') \<Longrightarrow> length r'' < length s"
proof (induction n s and n first s and n first s arbitrary: v r and vs r' and ms r''
    rule: parse_value_parse_elems_parse_members.induct)
  case (2 n s)
  show ?case
  proof (cases "skip_ws s")
    case Nil
    with 2(3) show ?thesis by simp
  next
    case (Cons c cs)
    have "length r < length (c # cs)"
      using 2(3) 2(1,2) [OF Cons] Cons
      by (auto dest!: scan_string_rest scan_number_rest dest: scan_literal_rest split: if_splits)
    then show ?thesis using skip_ws_length [of s] Cons by simp
  qed
next
  case (4 n first s)
  show ?case
  proof (cases "first \<and> next_is (CHR '']'') s")
    case True
    with 4(3) show ?thesis by (auto dest: next_is_rest)
  next
    case False
    with 4(3) obtain v r1 where v: "parse_value n s = Some (v, r1)"
      by (auto split: option.splits)
    with 4(3) False obtain c cs where c: "skip_ws r1 = c # cs" by (auto split: list.splits)
    have "length cs < length s" using 4(1) [OF False v] skip_ws_Cons [OF c] by simp
    then show ?thesis
      using 4(3) 4(2) [OF False v refl c] False v c by (auto split: if_splits)
  qed
next
  case (6 n first s)
  show ?case
  proof (cases "first \<and> next_is (CHR ''}'') s")
    case True
    with 6(3) show ?thesis by (auto dest: next_is_rest)
  next
    case False
    with 6(3) obtain k q where k: "parse_key s = Some (k, q)" by (auto split: option.splits)
    with 6(3) False obtain v r1 where v: "parse_value n q = Some (v, r1)" by (auto split: option.splits)
    with 6(3) False k obtain c cs where c: "skip_ws r1 = c # cs" by (auto split: list.splits)
    have "length cs < length s"
      using 6(1) [OF False k refl v] skip_ws_Cons [OF c] parse_key_rest [OF k] by simp
    then show ?thesis
      using 6(3) 6(2) [OF False k refl v refl c] False k v c by (auto split: if_splits)
  qed
qed simp_all

lemma parse_fuel_step:
  "2 * length s + 1 \<le> n \<Longrightarrow> parse_value (Suc n) s = parse_value n s"
  "2 * length s + 2 \<le> n \<Longrightarrow> parse_elems (Suc n) first s = parse_elems n first s"
  "2 * length s + 2 \<le> n \<Longrightarrow> parse_members (Suc n) first s = parse_members n first s"
proof (induction n arbitrary: s first)
  case (Suc n)
  {
    case 1
    show ?case
    proof (cases "skip_ws s")
      case Nil
      then show ?thesis by simp
    next
      case (Cons c cs)
      have "2 * length cs + 2 \<le> n" using 1 skip_ws_Cons [OF Cons] by simp
      then show ?thesis using Cons Suc.IH(2,3) [of cs True] by (simp del: parse_elems.simps parse_members.simps)
    qed
  next
    case 2
    have v: "parse_value (Suc n) s = parse_value n s" using 2 by (intro Suc.IH(1)) simp
    have "parse_elems (Suc n) False cs = parse_elems n False cs"
      if "parse_value n s = Some (w, r)" "skip_ws r = c # cs" for w r c cs
      using 2 parse_rest(1) [OF that(1)] skip_ws_Cons [OF that(2)] by (intro Suc.IH(2)) simp
    then show ?case
      unfolding parse_elems.simps(2) [of "Suc n"] parse_elems.simps(2) [of n] v
      by (auto split: option.split list.split)
  next
    case 3
    have v: "parse_value (Suc n) q = parse_value n q" if "parse_key s = Some (k, q)" for k q
      using 3 parse_key_rest [OF that] by (intro Suc.IH(1)) simp
    have "parse_members (Suc n) False cs = parse_members n False cs"
      if "parse_key s = Some (k, q)" "parse_value n q = Some (w, r)" "skip_ws r = c # cs" for k q w r c cs
      using 3 parse_key_rest [OF that(1)] parse_rest(1) [OF that(2)] skip_ws_Cons [OF that(3)]
      by (intro Suc.IH(3)) simp
    then show ?case
      unfolding parse_members.simps(2) [of "Suc n"] parse_members.simps(2) [of n]
      by (auto simp del: parse_value.simps simp: v split: option.split list.split)
  }
qed simp_all

declare parse_value.simps(2) [simp del] parse_elems.simps(2) [simp del] parse_members.simps(2) [simp del]

lemma parse_fuel_enough:
  "m \<le> n \<Longrightarrow> 2 * length s + 1 \<le> m \<Longrightarrow> parse_value n s = parse_value m s"
  by (induction n rule: dec_induct) (simp_all add: parse_fuel_step(1))

lemma parse_value_fuel: "json_fuel s \<le> n \<Longrightarrow> parse_value n s = parse_value (json_fuel s) s"
  by (rule parse_fuel_enough) (simp_all add: json_fuel_def)

section \<open>Texts and their parse\<close>

definition member_tail :: "nat \<Rightarrow> bytes \<Rightarrow> ((bytes \<times> json) list \<times> bytes) option" where
  "member_tail N r = (case skip_ws r of [] \<Rightarrow> None
     | c # cs \<Rightarrow> if c = CHR ''}'' then Some ([], cs)
         else if c = CHR '','' then parse_members N False cs else None)"

lemma parse_members_step:
  "\<not> (first \<and> next_is (CHR ''}'') s) \<Longrightarrow> parse_members (Suc N) first s =
    (case parse_key s of None \<Rightarrow> None | Some (k, q) \<Rightarrow> (case parse_value N q of None \<Rightarrow> None
      | Some (v, r) \<Rightarrow> map_option (apfst (Cons (k, v))) (member_tail N r)))"
  by (auto simp: parse_members.simps member_tail_def split: option.split list.split)

definition plain :: "char \<Rightarrow> bool" where
  "plain c \<longleftrightarrow> 32 \<le> code c \<and> code c < 128 \<and> c \<noteq> CHR 0x22 \<and> c \<noteq> CHR 0x5C"

lemma code_inject: "code c = code d \<longleftrightarrow> c = d"
  by (metis byte_code)

lemma plain_code: "plain c \<longleftrightarrow> 32 \<le> code c \<and> code c < 128 \<and> code c \<noteq> 34 \<and> code c \<noteq> 92"
proof -
  have "code (CHR 0x22) = 34" and "code (CHR 0x5C) = 92" by (simp_all add: code_def)
  then show ?thesis unfolding plain_def by (metis code_inject)
qed

lemma hex_digit_plain: "n < 16 \<Longrightarrow> plain (hex_digit n)"
  by (auto simp: hex_digit_def plain_code)

lemma hex_encode_plain: "list_all plain (hex_encode bs)"
proof (induction bs)
  case (Cons b bs)
  have "code b div 16 < 16" by (simp add: less_mult_imp_div_less)
  with Cons show ?case by (simp add: hex_digit_plain)
qed simp

lemma scan_string_quote: "scan_string (CHR 0x22 # r) = Some ([], r)"
  by (simp add: scan_string.simps)

lemma scan_string_char: "plain c \<Longrightarrow> scan_string (c # r) = map_option (apfst (Cons c)) (scan_string r)"
  by (subst scan_string.simps) (simp add: plain_def)

lemma scan_string_plain: "list_all plain b \<Longrightarrow> scan_string (b @ CHR 0x22 # r) = Some (b, r)"
  by (induction b) (simp_all add: scan_string_quote scan_string_char)

lemma unquote_plain: "list_all plain b \<Longrightarrow> unquote b = b"
proof (induction b)
  case Nil
  then show ?case by (simp add: unquote.simps)
next
  case (Cons c b)
  then have "utf8_len (c # b) = 1" and "c \<noteq> CHR 0x5C" by (simp_all add: utf8_len_ascii plain_def)
  with Cons show ?case by (subst unquote.simps) simp
qed

lemma digit_plain: "is_digit c \<Longrightarrow> plain c"
  by (auto simp: is_digit_def plain_def code_def)

lemma digits_plain: "list_all plain (format_nat n)"
  using format_nat_digits [of n] by (auto simp: list_all_iff intro: digit_plain)

lemma skip_ws_char [simp]: "\<not> is_space c \<Longrightarrow> skip_ws (c # s) = c # s"
  by (simp add: skip_ws_def)

definition json_field :: "bytes \<Rightarrow> bytes \<Rightarrow> bytes" where
  "json_field k v = CHR 0x22 # k @ CHR 0x22 # CHR '':'' # v"

definition quoted :: "bytes \<Rightarrow> bytes" where
  "quoted s = CHR 0x22 # s @ [CHR 0x22]"

lemma parse_key_field: "list_all plain k \<Longrightarrow> parse_key (json_field k v @ r) = Some (k, v @ r)"
  by (simp add: json_field_def parse_key_def is_space_def scan_string_plain unquote_plain next_is_def)

lemma parse_member_field: "list_all plain k \<Longrightarrow> parse_members (Suc N) first (json_field k v @ rest) =
    (case parse_value N (v @ rest) of None \<Rightarrow> None
     | Some (w, r) \<Rightarrow> map_option (apfst (Cons (k, w))) (member_tail N r))"
proof -
  assume k: "list_all plain k"
  have "\<not> (first \<and> next_is (CHR ''}'') (json_field k v @ rest))"
    by (simp add: json_field_def next_is_def is_space_def)
  from parse_members_step [OF this, of N] show ?thesis by (simp add: parse_key_field [OF k])
qed

lemma parse_quoted: "list_all plain b \<Longrightarrow> parse_value (Suc n) (quoted b @ r) = Some (JStr b, r)"
  by (simp add: quoted_def parse_value.simps is_space_def scan_string_plain unquote_plain)

lemma digit_span_digits: "list_all is_digit ds \<Longrightarrow> \<not> is_digit c \<Longrightarrow>
    digit_span (ds @ c # r) = (ds, c # r)"
  by (induction ds) (simp_all add: digit_span.simps)

lemma is_digit_neq: "is_digit c \<Longrightarrow> c \<notin> {CHR ''-'', CHR 0x22, CHR ''{'', CHR ''['', CHR ''t'', CHR ''f'',
    CHR ''n'', CHR '' '', CHR 0x09, CHR 0x0A, CHR 0x0D}"
  by (auto simp: is_digit_def code_def)

lemma parse_number_close:
  assumes "0 < n"
  shows "parse_value (Suc m) (format_nat n @ CHR ''}'' # r) = Some (JNum (format_nat n), CHR ''}'' # r)"
proof -
  obtain c cs where s: "format_nat n = c # cs" by (cases "format_nat n") auto
  have digits: "list_all is_digit (c # cs)" using format_nat_digits [of n] s by simp
  then have c: "is_digit c" by simp
  have "c \<noteq> CHR ''0''" using format_nat_head [OF assms] s by simp
  moreover have "digit_span (c # cs @ CHR ''}'' # r) = (c # cs, CHR ''}'' # r)"
    using digit_span_digits [OF digits, of "CHR ''}''" r] by (simp add: is_digit_def code_def)
  ultimately have "scan_number (c # cs @ CHR ''}'' # r) = Some (c # cs, CHR ''}'' # r)"
    using is_digit_neq [OF c] by (simp add: scan_number_def scan_frac_def scan_exp_def)
  then show ?thesis
    using is_digit_neq [OF c] by (simp add: s parse_value.simps is_space_def)
qed

lemma parse_object_fuel:
  assumes "parse_members (Suc (Suc (Suc (Suc (2 * length s))))) True s = Some (kvs, r)"
  shows "parse_value (json_fuel (CHR ''{'' # s)) (CHR ''{'' # s) = Some (JObj kvs, r)"
proof -
  have "parse_value (Suc (Suc (Suc (Suc (Suc (2 * length s)))))) (CHR ''{'' # s) = Some (JObj kvs, r)"
    using assms by (simp add: parse_value.simps is_space_def)
  then show ?thesis
    using parse_value_fuel [of "CHR ''{'' # s" "Suc (Suc (Suc (Suc (Suc (2 * length s)))))"]
    by (simp add: json_fuel_def)
qed

lemma member_tail_close [simp]: "member_tail N (CHR ''}'' # r) = Some ([], r)"
  by (simp add: member_tail_def is_space_def)

lemma member_tail_comma [simp]: "member_tail N (CHR '','' # s) = parse_members N False s"
  by (simp add: member_tail_def is_space_def)

lemma parse_value_blank: "skip_ws s = [] \<Longrightarrow> parse_value n s = None"
  by (cases n) (simp_all add: parse_value.simps)

lemma dec_value_top:
  "dec_state d = TokenTopValue \<Longrightarrow> dec_Decode d = (case parse_value (json_fuel (dec_in d)) (dec_in d) of
     None \<Rightarrow> Inl (if skip_ws (dec_in d) = [] then DecEOF else DecSyntax)
   | Some (v, r) \<Rightarrow> Inr (v, d\<lparr>dec_in := r\<rparr>))"
  by (auto simp: dec_Decode_def dec_value_def tokenValueAllowed_def tokenValueEnd_def split: option.split)

end
