(* ===== verification/Decoder_Registry.thy ===== *)
theory Decoder_Registry
  imports Go_Json
begin

text \<open>
  \<open>pkg/decoder\<close>: the registry of payload decoders and the generic JSON and ABI decoders. A decoder
  is a function from bytes to an error or a decoded value of type \<open>'v\<close>. The registry's lock
  makes each method atomic.
\<close>

section \<open>The registry\<close>

datatype DataKind = KindMessage | KindResult | OtherKind string

definition data_kind :: "string \<Rightarrow> DataKind" where
  "data_kind s = (if s = ''message'' then KindMessage else if s = ''result'' then KindResult
     else OtherKind s)"

fun kind_text :: "DataKind \<Rightarrow> string" where
  "kind_text KindMessage = ''message''"
| "kind_text KindResult = ''result''"
| "kind_text (OtherKind s) = s"

lemma kind_text_data_kind [simp]: "kind_text (data_kind s) = s"
  by (simp add: data_kind_def)

record RegistryKey =
  OPType :: string
  OPCommand :: string
  Kind :: DataKind

type_synonym 'v decode_fn = "bytes \<Rightarrow> string + 'v"

record 'v Registry =
  decoders :: "(RegistryKey, 'v decode_fn) gomap"

definition NewRegistry :: "'v Registry" where
  "NewRegistry = \<lparr>decoders = []\<rparr>"

definition Register :: "RegistryKey \<Rightarrow> 'v decode_fn \<Rightarrow> 'v Registry \<Rightarrow> 'v Registry" where
  "Register k dec r = r\<lparr>decoders := gm_put k dec (decoders r)\<rparr>"

definition Lookup :: "string \<Rightarrow> string \<Rightarrow> DataKind \<Rightarrow> 'v Registry \<Rightarrow> string + 'v decode_fn" where
  "Lookup opType opCommand kind r =
     (case gm_get (decoders r) \<lparr>OPType = opType, OPCommand = opCommand, Kind = kind\<rparr> of
        Some dec \<Rightarrow> Inr dec
      | None \<Rightarrow> (case gm_get (decoders r) \<lparr>OPType = opType, OPCommand = [], Kind = kind\<rparr> of
          Some dec \<Rightarrow> Inr dec
        | None \<Rightarrow> Inl (''no decoder registered for ('' @ opType @ '', '' @ opCommand @ '', ''
            @ kind_text kind @ '')'')))"

definition Keys :: "'v Registry \<Rightarrow> RegistryKey list" where
  "Keys r = map fst (decoders r)"

text \<open>The last registration under a key wins and no other key is affected; \<open>Lookup\<close> returns the
  decoder of the exact command, or else the one registered for the empty command of the same type
  and kind, and fails exactly when both are missing.\<close>

theorem registry_lookup:
  "Lookup t c k (Register key dec r) =
    (if key = \<lparr>OPType = t, OPCommand = c, Kind = k\<rparr> then Inr dec
     else if key = \<lparr>OPType = t, OPCommand = [], Kind = k\<rparr>
       \<and> gm_get (decoders r) \<lparr>OPType = t, OPCommand = c, Kind = k\<rparr> = None then Inr dec
     else Lookup t c k r)
   \<and> ((\<exists>er. Lookup t c k r = Inl er) \<longleftrightarrow>
      gm_get (decoders r) \<lparr>OPType = t, OPCommand = c, Kind = k\<rparr> = None
      \<and> gm_get (decoders r) \<lparr>OPType = t, OPCommand = [], Kind = k\<rparr> = None)"
  by (auto simp: Lookup_def Register_def split: option.split)

section \<open>Generic decoders\<close>

text \<open>\<open>json.Unmarshal\<close>: the whole input is one value.\<close>

definition json_whole :: "bytes \<Rightarrow> json option" where
  "json_whole s = (case parse_value (json_fuel s) s of
     Some (v, r) \<Rightarrow> if skip_ws r = [] then Some v else None
   | None \<Rightarrow> None)"

text \<open>Keys are matched to field names without regard to case: ASCII letters, and the long s and the
  Kelvin sign, which Unicode folds to ASCII letters.\<close>

fun fold_key :: "bytes \<Rightarrow> bytes" where
  "fold_key (a # b # c # s) =
     (if code a = 0xC5 \<and> code b = 0xBF then CHR ''S'' # fold_key (c # s)
      else if code a = 0xE2 \<and> code b = 0x84 \<and> code c = 0xAA then CHR ''K'' # fold_key s
      else (if 97 \<le> code a \<and> code a \<le> 122 then byte (code a - 32) else a) # fold_key (b # c # s))"
| "fold_key [a, b] =
     (if code a = 0xC5 \<and> code b = 0xBF then ''S''
      else (if 97 \<le> code a \<and> code a \<le> 122 then byte (code a - 32) else a) # fold_key [b])"
| "fold_key [a] = [if 97 \<le> code a \<and> code a \<le> 122 then byte (code a - 32) else a]"
| "fold_key [] = []"

text \<open>A struct of string fields: each member in turn sets the field its key folds to; null leaves it,
  another type is an error, other keys are ignored.\<close>

definition set_string_field ::
    "bytes list \<Rightarrow> bytes \<times> json \<Rightarrow> (bytes \<Rightarrow> bytes) option \<Rightarrow> (bytes \<Rightarrow> bytes) option" where
  "set_string_field names kv acc = (case acc of None \<Rightarrow> None | Some f \<Rightarrow> (case kv of (k, v) \<Rightarrow>
     (case List.find (\<lambda>n. fold_key n = fold_key k) names of
        None \<Rightarrow> Some f
      | Some n \<Rightarrow> (case v of JStr s \<Rightarrow> Some (f(n := s)) | JNull \<Rightarrow> Some f | _ \<Rightarrow> None))))"

definition string_fields :: "bytes list \<Rightarrow> json \<Rightarrow> (bytes \<Rightarrow> bytes) option" where
  "string_fields names v = (case v of
     JObj kvs \<Rightarrow> fold (set_string_field names) kvs (Some (\<lambda>_. []))
   | JNull \<Rightarrow> Some (\<lambda>_. [])
   | _ \<Rightarrow> None)"

text \<open>\<open>JSONDecoder[T].Decode\<close>, with the struct decoder of \<open>T\<close> as an argument.\<close>

definition JSONDecoder_Decode :: "(json \<Rightarrow> 'v option) \<Rightarrow> 'v decode_fn" where
  "JSONDecoder_Decode of_json data = (case json_whole data of
     None \<Rightarrow> Inl ''invalid JSON''
   | Some v \<Rightarrow> (case of_json v of None \<Rightarrow> Inl ''cannot unmarshal'' | Some x \<Rightarrow> Inr x))"

text \<open>\<open>ABIDecoder[T].Decode\<close>, with \<open>structs.Decode[T]\<close> at the decoder's argument as a parameter.\<close>

record ('a, 'v) ABIDecoder =
  arg :: 'a

definition NewABIDecoder :: "'a \<Rightarrow> ('a, 'v) ABIDecoder" where
  "NewABIDecoder a = \<lparr>arg = a\<rparr>"

definition ABIDecoder_Decode :: "('a \<Rightarrow> bytes \<Rightarrow> string + 'v) \<Rightarrow> ('a, 'v) ABIDecoder \<Rightarrow> 'v decode_fn" where
  "ABIDecoder_Decode structs_Decode d data = structs_Decode (arg d) data"

end
