(* ===== verification/Order_Store.thy ===== *)
theory Order_Store
  imports Go_Strings
begin

text \<open>
  The enclave's order book, \<open>internal/extension/store.go\<close>: the orders by id, the latest
  trusted price sample and the operations the request handlers and the watcher call. Each
  operation runs under the store's mutex, so it is one atomic function on the state; a
  \<open>*big.Int\<close> that may be nil is an option, and copying one (\<open>cloneOrder\<close>) is the identity
  on values. \<open>Order_Heap\<close> has the same operations on pointers and proves that they refine these.
\<close>

section \<open>State\<close>

definition StatusOpen :: string where "StatusOpen = ''open''"
definition StatusExecuted :: string where "StatusExecuted = ''executed''"
definition StatusCancelled :: string where "StatusCancelled = ''cancelled''"

lemma status_distinct [simp]:
  "StatusOpen \<noteq> StatusExecuted" "StatusExecuted \<noteq> StatusOpen"
  "StatusOpen \<noteq> StatusCancelled" "StatusExecuted \<noteq> StatusCancelled"
  by (simp_all add: StatusOpen_def StatusExecuted_def StatusCancelled_def)

definition trailingSampleMaxAge :: int where
  "trailingSampleMaxAge = 10 * second_ns"

record Order =
  ID :: uint64
  TriggerPrice :: "int option"
  TrailBps :: uint16
  HighWatermark :: "int option"
  Status :: string

record Store =
  orders :: "(uint64, Order) gomap"
  latestPrice :: "int option"
  latestAt :: gotime

datatype store_error = OrderExists uint64 | InvalidIdentity | InvalidPolicy

definition NewStore :: Store where
  "NewStore = \<lparr>orders = [], latestPrice = None, latestAt = zero_time\<rparr>"

section \<open>Operations\<close>

definition trailingReady :: "gotime \<Rightarrow> Store \<Rightarrow> bool" where
  "trailingReady now s =
     (if latestPrice s = None \<or> time_IsZero (latestAt s) then False
      else (let age = time_Sub now (latestAt s) in 0 \<le> age \<and> age \<le> trailingSampleMaxAge))"

definition isFixed :: "Order \<Rightarrow> bool" where
  "isFixed o1 \<longleftrightarrow> (case TriggerPrice o1 of
       None \<Rightarrow> False
     | Some t \<Rightarrow> sgn t > 0 \<and> big_BitLen t \<le> 256 \<and> TrailBps o1 = 0 \<and> HighWatermark o1 = None)"

definition isTrailing :: "gotime \<Rightarrow> Store \<Rightarrow> Order \<Rightarrow> bool" where
  "isTrailing now s o1 \<longleftrightarrow> TriggerPrice o1 = None \<and> 25 \<le> TrailBps o1 \<and> TrailBps o1 \<le> 5000
     \<and> HighWatermark o1 = None \<and> trailingReady now s"

definition Put :: "gotime \<Rightarrow> Order \<Rightarrow> Store \<Rightarrow> store_error + Store" where
  "Put now o1 s =
     (if gm_get (orders s) (ID o1) \<noteq> None then Inl (OrderExists (ID o1))
      else if ID o1 = 0 \<or> Status o1 \<noteq> StatusOpen then Inl InvalidIdentity
      else if \<not> isFixed o1 \<and> \<not> isTrailing now s o1 then Inl InvalidPolicy
      else (let o2 = (if isTrailing now s o1 \<and> latestPrice s \<noteq> None
                      then o1\<lparr>HighWatermark := latestPrice s\<rparr> else o1)
            in Inr (s\<lparr>orders := gm_put (ID o2) o2 (orders s)\<rparr>)))"

definition Get :: "uint64 \<Rightarrow> Store \<Rightarrow> Order option" where
  "Get i s = gm_get (orders s) i"

definition Delete :: "uint64 \<Rightarrow> Store \<Rightarrow> bool \<times> Store" where
  "Delete i s = (if gm_get (orders s) i = None then (False, s)
     else (True, s\<lparr>orders := gm_del i (orders s)\<rparr>))"

definition MarkExecuted :: "uint64 \<Rightarrow> Store \<Rightarrow> bool \<times> Store" where
  "MarkExecuted i s = (case gm_get (orders s) i of
       None \<Rightarrow> (False, s)
     | Some o1 \<Rightarrow> if Status o1 \<noteq> StatusOpen then (False, s)
         else (True, s\<lparr>orders := gm_put i (o1\<lparr>Status := StatusExecuted\<rparr>) (orders s)\<rparr>))"

definition OpenOrders :: "Store \<Rightarrow> Order list" where
  "OpenOrders s = sort_key ID (filter (\<lambda>o1. Status o1 = StatusOpen) (map snd (orders s)))"

definition Snapshot :: "Store \<Rightarrow> Order list" where
  "Snapshot s = sort_key ID (map snd (orders s))"

definition ObservePrice :: "int option \<Rightarrow> gotime \<Rightarrow> Store \<Rightarrow> Store" where
  "ObservePrice price at s = (case price of
       Some p \<Rightarrow> if sgn p > 0 \<and> \<not> time_IsZero at then s\<lparr>latestPrice := Some p, latestAt := at\<rparr> else s
     | None \<Rightarrow> s)"

definition SupportedPolicies :: "gotime \<Rightarrow> Store \<Rightarrow> string list" where
  "SupportedPolicies now s =
     (if trailingReady now s then [''fixed'', ''trailing''] else [''fixed''])"

text \<open>\<open>10_000 - o.TrailBps\<close> is computed in uint16, then widened.\<close>

definition trail_trigger :: "int \<Rightarrow> uint16 \<Rightarrow> int" where
  "trail_trigger high bps = high * uint (10000 - bps) div 10000"

text \<open>One iteration of the loop of \<open>TriggeredOrders\<close>: the stored order and, if it triggers,
  the copy with the effective trigger.\<close>

definition raise_watermark :: "int \<Rightarrow> Order \<Rightarrow> Order" where
  "raise_watermark price o1 = (case HighWatermark o1 of
       None \<Rightarrow> o1\<lparr>HighWatermark := Some price\<rparr>
     | Some h \<Rightarrow> if price > h then o1\<lparr>HighWatermark := Some price\<rparr> else o1)"

definition trigger_step :: "int \<Rightarrow> Order \<Rightarrow> Order \<times> Order option" where
  "trigger_step price o1 =
     (if Status o1 \<noteq> StatusOpen then (o1, None)
      else (let o2 = (if TrailBps o1 > 0 then raise_watermark price o1 else o1);
                effective = (if TrailBps o1 > 0
                   then map_option (\<lambda>h. trail_trigger h (TrailBps o2)) (HighWatermark o2)
                   else TriggerPrice o1)
            in (o2, (case effective of
                  None \<Rightarrow> None
                | Some e \<Rightarrow> if price \<le> e then Some (o2\<lparr>TriggerPrice := Some e\<rparr>) else None))))"

fun trigger_loop :: "int \<Rightarrow> (uint64, Order) gomap \<Rightarrow> (uint64, Order) gomap \<times> Order list" where
  "trigger_loop price [] = ([], [])"
| "trigger_loop price ((i, o1) # m) =
     (let (o2, hit) = trigger_step price o1; (m', hits) = trigger_loop price m
      in ((i, o2) # m', (case hit of None \<Rightarrow> hits | Some h \<Rightarrow> h # hits)))"

definition TriggeredOrders :: "int option \<Rightarrow> Store \<Rightarrow> Order list \<times> Store" where
  "TriggeredOrders price s = (case price of
       None \<Rightarrow> ([], s)
     | Some p \<Rightarrow> if sgn p \<le> 0 then ([], s)
         else (let (m, hits) = trigger_loop p (orders s)
               in (sort_key ID hits, s\<lparr>orders := m\<rparr>)))"

definition EffectiveTrigger :: "uint64 \<Rightarrow> Store \<Rightarrow> int option" where
  "EffectiveTrigger i s = (case gm_get (orders s) i of
       None \<Rightarrow> None
     | Some o1 \<Rightarrow> if Status o1 \<noteq> StatusOpen then None
         else if TrailBps o1 = 0 then TriggerPrice o1
         else (case HighWatermark o1 of None \<Rightarrow> None
               | Some h \<Rightarrow> Some (trail_trigger h (TrailBps o1))))"

end
