(* ===== verification/Order_Book.thy ===== *)
theory Order_Book
  imports Order_Store
begin

text \<open>
  The invariant of the order book, well-formedness of every stored order, and its preservation by
  every operation, with the lemmas on its listings that the later theories share.
\<close>

section \<open>Well-formed order books\<close>

definition fixed_order :: "Order \<Rightarrow> bool" where
  "fixed_order o1 \<longleftrightarrow> (case TriggerPrice o1 of None \<Rightarrow> False
     | Some t \<Rightarrow> 0 < t \<and> t < 2 ^ 256 \<and> TrailBps o1 = 0 \<and> HighWatermark o1 = None)"

definition trailing_order :: "Order \<Rightarrow> bool" where
  "trailing_order o1 \<longleftrightarrow> TriggerPrice o1 = None \<and> 25 \<le> TrailBps o1 \<and> TrailBps o1 \<le> 5000
     \<and> (case HighWatermark o1 of None \<Rightarrow> False | Some h \<Rightarrow> 0 < h)"

definition valid_order :: "Order \<Rightarrow> bool" where
  "valid_order o1 \<longleftrightarrow> ID o1 \<noteq> 0 \<and> (Status o1 = StatusOpen \<or> Status o1 = StatusExecuted)
     \<and> (fixed_order o1 \<or> trailing_order o1)"

definition store_inv :: "Store \<Rightarrow> bool" where
  "store_inv s \<longleftrightarrow> gm_ok (orders s)
     \<and> (\<forall>(i, o1) \<in> set (orders s). ID o1 = i \<and> valid_order o1)
     \<and> (case latestPrice s of None \<Rightarrow> True | Some p \<Rightarrow> 0 < p \<and> \<not> time_IsZero (latestAt s))"

lemma isFixed_iff:
  "isFixed o1 \<longleftrightarrow> (\<exists>t. TriggerPrice o1 = Some t \<and> 0 < t \<and> t < 2 ^ 256
     \<and> TrailBps o1 = 0 \<and> HighWatermark o1 = None)"
  by (auto simp: isFixed_def big_BitLen_le sgn_1_pos sgn_if split: option.splits if_splits)

lemma fixed_order_eq: "fixed_order o1 = isFixed o1"
  by (auto simp: fixed_order_def isFixed_iff split: option.splits)

lemma store_inv_get:
  "store_inv s \<Longrightarrow> gm_get (orders s) i = Some o1 \<Longrightarrow> ID o1 = i \<and> valid_order o1"
  by (auto simp: store_inv_def dest: gm_get_in)

lemma store_invI [invariant_intros]:
  assumes "gm_ok (orders s)"
    and "\<And>i o1. gm_get (orders s) i = Some o1 \<Longrightarrow> ID o1 = i \<and> valid_order o1"
    and "\<And>p. latestPrice s = Some p \<Longrightarrow> 0 < p \<and> \<not> time_IsZero (latestAt s)"
  shows "store_inv s"
  using assms by (auto simp: store_inv_def gm_get_iff split: option.splits)

lemma store_inv_ok: "store_inv s \<Longrightarrow> gm_ok (orders s)"
  by (simp add: store_inv_def)

lemma store_inv_latest: "store_inv s \<Longrightarrow> latestPrice s = Some p \<Longrightarrow>
    0 < p \<and> \<not> time_IsZero (latestAt s)"
  by (simp add: store_inv_def)

lemmas store_inv_facts = store_inv_ok store_inv_get store_inv_latest

lemma NewStore_inv: "store_inv NewStore"
  by (rule store_invI) (simp_all add: NewStore_def)

subsection \<open>One preservation lemma per operation\<close>

lemma trailingReady_latest: "trailingReady now s \<Longrightarrow> \<exists>p. latestPrice s = Some p"
  by (auto simp: trailingReady_def split: if_splits)

lemma Put_Inr:
  assumes "Put now o1 s = Inr s'"
  obtains o2 where "s' = s\<lparr>orders := gm_put (ID o1) o2 (orders s)\<rparr>"
    and "gm_get (orders s) (ID o1) = None" and "ID o1 \<noteq> 0" and "Status o1 = StatusOpen"
    and "isFixed o1 \<and> o2 = o1 \<or> isTrailing now s o1 \<and> o2 = o1\<lparr>HighWatermark := latestPrice s\<rparr>"
proof -
  have excl: "\<not> (isFixed o1 \<and> isTrailing now s o1)"
    by (auto simp: isFixed_iff isTrailing_def)
  show thesis
    using assms that excl
    by (auto simp: Put_def Let_def isTrailing_def split: if_splits dest: trailingReady_latest)
qed

lemma Put_inv: "store_inv s \<Longrightarrow> Put now o1 s = Inr s' \<Longrightarrow> store_inv s'"
proof (erule Put_Inr)
  fix o2
  assume inv: "store_inv s" and s': "s' = s\<lparr>orders := gm_put (ID o1) o2 (orders s)\<rparr>"
    and "ID o1 \<noteq> 0" and "Status o1 = StatusOpen"
    and o2: "isFixed o1 \<and> o2 = o1 \<or> isTrailing now s o1 \<and> o2 = o1\<lparr>HighWatermark := latestPrice s\<rparr>"
  then have "ID o2 = ID o1 \<and> valid_order o2"
    using store_inv_latest [OF inv] trailingReady_latest [of now s]
    by (auto simp: valid_order_def fixed_order_eq trailing_order_def isTrailing_def)
  with inv s' show "store_inv s'"
    by (intro store_invI) (auto simp: store_inv_facts split: if_splits)
qed

lemma Delete_inv: "store_inv s \<Longrightarrow> store_inv (snd (Delete i s))"
  by (rule store_invI) (auto simp: Delete_def store_inv_facts split: if_splits)

lemma MarkExecuted_inv: "store_inv s \<Longrightarrow> store_inv (snd (MarkExecuted i s))"
proof (rule store_invI)
  fix j o1
  assume inv: "store_inv s" and "gm_get (orders (snd (MarkExecuted i s))) j = Some o1"
  then show "ID o1 = j \<and> valid_order o1"
    using store_inv_get [OF inv, of i] store_inv_get [OF inv, of j]
    by (auto simp: MarkExecuted_def valid_order_def fixed_order_def trailing_order_def
        split: option.splits if_splits)
qed (auto simp: MarkExecuted_def store_inv_facts split: option.splits if_splits)

lemma ObservePrice_orders [simp]: "orders (ObservePrice p at s) = orders s"
  by (simp add: ObservePrice_def split: option.split)

lemma ObservePrice_inv: "store_inv s \<Longrightarrow> store_inv (ObservePrice p at s)"
  by (rule store_invI)
    (auto simp: ObservePrice_def store_inv_facts sgn_1_pos split: option.splits if_splits)

subsection \<open>The trigger loop\<close>

lemma trigger_loop_eq:
  "trigger_loop p m = (map (\<lambda>(i, o1). (i, fst (trigger_step p o1))) m,
     List.map_filter (\<lambda>(i, o1). snd (trigger_step p o1)) m)"
  by (induction m) (auto simp: Let_def split: option.splits prod.splits)

lemma trigger_step_ID [simp]: "ID (fst (trigger_step p o1)) = ID o1"
  by (simp add: trigger_step_def raise_watermark_def Let_def split: option.split)

lemma trigger_step_Status [simp]: "Status (fst (trigger_step p o1)) = Status o1"
  by (simp add: trigger_step_def raise_watermark_def Let_def split: option.split)

lemma trigger_step_TrailBps [simp]: "TrailBps (fst (trigger_step p o1)) = TrailBps o1"
  by (simp add: trigger_step_def raise_watermark_def Let_def split: option.split)

lemma trigger_step_TriggerPrice [simp]:
  "TriggerPrice (fst (trigger_step p o1)) = TriggerPrice o1"
  by (simp add: trigger_step_def raise_watermark_def Let_def split: option.split)

lemma trigger_step_valid: "0 < p \<Longrightarrow> valid_order o1 \<Longrightarrow> valid_order (fst (trigger_step p o1))"
  by (auto simp: valid_order_def fixed_order_def trailing_order_def trigger_step_def
      raise_watermark_def Let_def split: option.splits if_splits)

lemma TriggeredOrders_pos:
  "0 < p \<Longrightarrow> TriggeredOrders (Some p) s =
     (sort_key ID (List.map_filter (\<lambda>(i, o1). snd (trigger_step p o1)) (orders s)),
      s\<lparr>orders := map (\<lambda>(i, o1). (i, fst (trigger_step p o1))) (orders s)\<rparr>)"
  by (simp add: TriggeredOrders_def trigger_loop_eq)

lemma TriggeredOrders_none:
  "p = None \<or> p = Some q \<and> q \<le> 0 \<Longrightarrow> TriggeredOrders p s = ([], s)"
  by (auto simp: TriggeredOrders_def sgn_if)

lemma TriggeredOrders_get:
  "gm_get (orders (snd (TriggeredOrders (Some p) s))) i =
     (if 0 < p then map_option (\<lambda>o1. fst (trigger_step p o1)) (gm_get (orders s) i)
      else gm_get (orders s) i)"
  using TriggeredOrders_none [of "Some p" p s]
  by (auto simp: TriggeredOrders_pos gm_get_map_values)

lemma TriggeredOrders_latest [simp]:
  "latestPrice (snd (TriggeredOrders p s)) = latestPrice s"
  "latestAt (snd (TriggeredOrders p s)) = latestAt s"
  by (auto simp: TriggeredOrders_def split: option.split prod.split)

lemma TriggeredOrders_ok:
  "gm_ok (orders s) \<Longrightarrow> gm_ok (orders (snd (TriggeredOrders p s)))"
  by (auto simp: TriggeredOrders_def trigger_loop_eq gm_ok_map_values split: option.split)

lemma TriggeredOrders_inv: "store_inv s \<Longrightarrow> store_inv (snd (TriggeredOrders p s))"
proof (rule store_invI)
  fix i o1
  assume inv: "store_inv s" and get: "gm_get (orders (snd (TriggeredOrders p s))) i = Some o1"
  show "ID o1 = i \<and> valid_order o1"
  proof (cases "\<exists>q. p = Some q \<and> 0 < q")
    case True
    then obtain q where q: "p = Some q" "0 < q" by blast
    with get obtain o0 where o0: "gm_get (orders s) i = Some o0" "o1 = fst (trigger_step q o0)"
      by (auto simp: TriggeredOrders_get)
    with store_inv_get [OF inv o0(1)] q show ?thesis by (simp add: trigger_step_valid)
  next
    case False
    then have "TriggeredOrders p s = ([], s)"
      by (cases p) (auto intro: TriggeredOrders_none)
    with get store_inv_get [OF inv] show ?thesis by simp
  qed
qed (simp_all add: store_inv_facts TriggeredOrders_ok)

lemmas store_op_inv = Put_inv Delete_inv MarkExecuted_inv ObservePrice_inv TriggeredOrders_inv

end
