(* ===== verification/Order_Triggers.thy ===== *)
theory Order_Triggers
  imports Order_Book
begin

text \<open>
  The trigger rule of the order book: which orders a price sample triggers, the arithmetic of the
  trailing stop, the high-watermark over a run of samples, and the independence of all of it from
  the order in which Go iterates over the map.
\<close>

section \<open>The trigger of one order\<close>

definition order_trigger :: "Order \<Rightarrow> int option" where
  "order_trigger o1 = (if TrailBps o1 = 0 then TriggerPrice o1
     else map_option (\<lambda>h. trail_trigger h (TrailBps o1)) (HighWatermark o1))"

lemma EffectiveTrigger_eq:
  "EffectiveTrigger i s = (case gm_get (orders s) i of None \<Rightarrow> None
     | Some o1 \<Rightarrow> if Status o1 = StatusOpen then order_trigger o1 else None)"
  by (auto simp: EffectiveTrigger_def order_trigger_def split: option.splits)

lemma trigger_step_hit:
  "snd (trigger_step p o1) = Some h \<longleftrightarrow> Status o1 = StatusOpen
     \<and> (\<exists>e. order_trigger (fst (trigger_step p o1)) = Some e \<and> p \<le> e
          \<and> h = (fst (trigger_step p o1))\<lparr>TriggerPrice := Some e\<rparr>)"
  by (cases "TrailBps o1 = 0")
    (auto simp: trigger_step_def order_trigger_def Let_def word_gt_0 raise_watermark_def
      split: option.splits if_splits)

lemma trigger_step_hit_ID: "snd (trigger_step p o1) = Some h \<Longrightarrow> ID h = ID o1"
  by (auto simp: trigger_step_hit)

definition raw_hits :: "int \<Rightarrow> (uint64, Order) gomap \<Rightarrow> Order list" where
  "raw_hits p m = List.map_filter (\<lambda>(i, o1). snd (trigger_step p o1)) m"

lemma set_raw_hits: "set (raw_hits p m) = {h. \<exists>(i, o1) \<in> set m. snd (trigger_step p o1) = Some h}"
  by (force simp: raw_hits_def List.map_filter_def)

lemma in_raw_hits:
  "h \<in> set (raw_hits p m) \<longleftrightarrow> (\<exists>i o1. (i, o1) \<in> set m \<and> snd (trigger_step p o1) = Some h)"
  by (auto simp: set_raw_hits)

lemma raw_hits_simps [simp]:
  "raw_hits p [] = []"
  "raw_hits p ((i, o1) # m) = (case snd (trigger_step p o1) of
     None \<Rightarrow> raw_hits p m | Some h \<Rightarrow> h # raw_hits p m)"
  by (simp_all add: raw_hits_def split: option.split)

lemma distinct_raw_hits:
  assumes "gm_ok m" and "\<forall>(i, o1) \<in> set m. ID o1 = i"
  shows "distinct (map ID (raw_hits p m))"
  using assms
proof (induction m)
  case Nil
  then show ?case by simp
next
  case (Cons a m)
  obtain i o1 where a: "a = (i, o1)" by (cases a)
  have IH: "distinct (map ID (raw_hits p m))"
    using Cons by (auto simp: gm_ok_def)
  have "ID h \<in> fst ` set m" if "h \<in> set (raw_hits p m)" for h
    using that Cons.prems(2) by (force simp: set_raw_hits dest: trigger_step_hit_ID)
  then have "i \<notin> ID ` set (raw_hits p m)"
    using Cons.prems(1) a by (auto simp: gm_ok_def)
  moreover have "ID o1 = i" using Cons.prems(2) a by simp
  ultimately show ?case
    using IH a by (simp split: option.split) (metis trigger_step_hit_ID)
qed

lemma store_inv_ids: "store_inv s \<Longrightarrow> \<forall>(i, o1) \<in> set (orders s). ID o1 = i"
  by (auto simp: store_inv_def)

lemma store_inv_distinct_raw_hits: "store_inv s \<Longrightarrow> distinct (map ID (raw_hits p (orders s)))"
  by (rule distinct_raw_hits) (simp_all add: store_inv_ok store_inv_ids)

lemma TriggeredOrders_hits:
  "0 < p \<Longrightarrow> fst (TriggeredOrders (Some p) s) = sort_key ID (raw_hits p (orders s))"
  by (simp add: TriggeredOrders_pos raw_hits_def)

lemma triggered_set:
  assumes "store_inv s" and "0 < p"
  shows "h \<in> set (fst (TriggeredOrders (Some p) s)) \<longleftrightarrow>
    (\<exists>o1 e. gm_get (orders (snd (TriggeredOrders (Some p) s))) (ID h) = Some o1
       \<and> EffectiveTrigger (ID h) (snd (TriggeredOrders (Some p) s)) = Some e
       \<and> p \<le> e \<and> h = o1\<lparr>TriggerPrice := Some e\<rparr>)" (is "?l \<longleftrightarrow> ?r")
proof -
  have ok: "gm_ok (orders s)" using assms(1) by (rule store_inv_ok)
  have "?l \<longleftrightarrow> (\<exists>i o0. gm_get (orders s) i = Some o0 \<and> snd (trigger_step p o0) = Some h)"
    using assms(2) by (simp add: TriggeredOrders_hits in_raw_hits gm_get_iff [OF ok])
  also have "\<dots> \<longleftrightarrow> (\<exists>o0. gm_get (orders s) (ID h) = Some o0 \<and> snd (trigger_step p o0) = Some h)"
  proof -
    have "ID h = i" if "gm_get (orders s) i = Some o0" "snd (trigger_step p o0) = Some h" for i o0
      using store_inv_get [OF assms(1) that(1)] trigger_step_hit_ID [OF that(2)] by simp
    then show ?thesis by blast
  qed
  also have "\<dots> \<longleftrightarrow> ?r"
  proof (cases "gm_get (orders s) (ID h)")
    case None
    with assms(2) show ?thesis by (simp add: TriggeredOrders_get)
  next
    case (Some o0)
    with assms(2) show ?thesis by (simp add: trigger_step_hit EffectiveTrigger_eq TriggeredOrders_get)
  qed
  finally show ?thesis .
qed

text \<open>C6. On a well-formed book a positive price sample returns, in strictly increasing id order,
  exactly the open orders whose effective trigger (after the watermarks took the sample in) is at
  or above the price, each with that trigger written into the copy it returns, and
  \<open>EffectiveTrigger\<close> then reports the same value.\<close>

theorem triggered_orders_exact:
  assumes "store_inv s" and "0 < p" and "TriggeredOrders (Some p) s = (hits, s')"
  shows "sorted_wrt (<) (map ID hits) \<and>
    (\<forall>h. h \<in> set hits \<longleftrightarrow> (\<exists>o1 e. gm_get (orders s') (ID h) = Some o1
       \<and> EffectiveTrigger (ID h) s' = Some e \<and> p \<le> e \<and> h = o1\<lparr>TriggerPrice := Some e\<rparr>))"
proof
  have hits: "hits = sort_key ID (raw_hits p (orders s))"
    using TriggeredOrders_hits [OF assms(2), of s] assms(3) by simp
  then show "sorted_wrt (<) (map ID hits)"
    using store_inv_distinct_raw_hits [OF assms(1)] by (simp add: strict_sorted_iff)
  show "\<forall>h. h \<in> set hits \<longleftrightarrow> (\<exists>o1 e. gm_get (orders s') (ID h) = Some o1
       \<and> EffectiveTrigger (ID h) s' = Some e \<and> p \<le> e \<and> h = o1\<lparr>TriggerPrice := Some e\<rparr>)"
    using triggered_set [OF assms(1,2)] assms(3) by simp
qed

section \<open>Trailing-stop arithmetic\<close>

lemma trail_factor: "bps \<le> 5000 \<Longrightarrow> uint (10000 - bps :: uint16) = 10000 - uint bps"
  by uint_arith

lemma trail_bps_uint: "25 \<le> bps \<Longrightarrow> bps \<le> (5000 :: uint16) \<Longrightarrow> 25 \<le> uint bps \<and> uint bps \<le> 5000"
  by (simp add: word_le_def)

lemma le_div_10000: "(p :: int) \<le> x div 10000 \<longleftrightarrow> p * 10000 \<le> x"
proof -
  have "x div 10000 * 10000 + x mod 10000 = x" and "0 \<le> x mod 10000" and "x mod 10000 < 10000"
    by simp_all
  then show ?thesis by linarith
qed

lemma trail_trigger_iff:
  "bps \<le> 5000 \<Longrightarrow> p \<le> trail_trigger h bps \<longleftrightarrow> p * 10000 \<le> h * (10000 - uint bps)"
  by (simp add: trail_trigger_def trail_factor le_div_10000)

lemma trail_trigger_less:
  assumes "0 < h" and "25 \<le> bps" and "bps \<le> (5000 :: uint16)"
  shows "trail_trigger h bps < h"
proof -
  have "\<not> h * 10000 \<le> h * (10000 - uint bps)"
    using assms(1) trail_bps_uint [OF assms(2,3)] by (simp add: not_le)
  then show ?thesis using trail_trigger_iff [OF assms(3), of h h] by simp
qed

lemma trail_trigger_pos:
  assumes "2 \<le> h" and "bps \<le> (5000 :: uint16)"
  shows "0 < trail_trigger h bps"
proof -
  have "uint bps \<le> 5000" using assms(2) by (simp add: word_le_def)
  then have "2 * 5000 \<le> h * (10000 - uint bps)"
    using assms(1) by (intro mult_mono) auto
  then show ?thesis using trail_trigger_iff [OF assms(2), of 1 h] by simp
qed

lemma trail_trigger_mono:
  "bps \<le> 5000 \<Longrightarrow> h \<le> h' \<Longrightarrow> trail_trigger h bps \<le> trail_trigger h' bps"
  unfolding trail_trigger_def
  by (intro zdiv_mono1 mult_right_mono) auto

text \<open>C15. The integer trailing trigger is exact: for an allowed trail a price is at or below it
  iff it has fallen from the watermark by at least the trail, measured without rounding; the
  trigger is always strictly below the watermark, and it is positive as soon as the watermark is
  at least two micro-dollars.\<close>

theorem trail_trigger_exact:
  assumes "0 < h" and "25 \<le> bps" and "bps \<le> (5000 :: uint16)"
  shows "(p \<le> trail_trigger h bps \<longleftrightarrow> 10000 * (h - p) \<ge> h * uint bps)
    \<and> trail_trigger h bps < h \<and> (2 \<le> h \<longrightarrow> 0 < trail_trigger h bps)"
  using trail_trigger_iff [OF assms(3), of p h] trail_trigger_less [OF assms] trail_trigger_pos assms(3)
  by (auto simp: algebra_simps)

theorem trail_trigger_exact_witness:
  "(19000 \<le> trail_trigger 20000 (500 :: uint16) \<longleftrightarrow> 10000 * (20000 - 19000) \<ge> 20000 * uint (500 :: uint16))
    \<and> trail_trigger 20000 500 < 20000 \<and> 0 < trail_trigger 20000 500"
  using trail_trigger_exact [of 20000 500 19000] by simp

theorem triggered_orders_exact_witness:
  "\<exists>hits s'. TriggeredOrders (Some 19000) \<lparr>orders = [(1, \<lparr>ID = 1, TriggerPrice = Some 20000,
       TrailBps = 0, HighWatermark = None, Status = StatusOpen\<rparr>)], latestPrice = None,
       latestAt = zero_time\<rparr> = (hits, s') \<and> sorted_wrt (<) (map ID hits) \<and>
    (\<forall>h. h \<in> set hits \<longleftrightarrow> (\<exists>o1 e. gm_get (orders s') (ID h) = Some o1
       \<and> EffectiveTrigger (ID h) s' = Some e \<and> 19000 \<le> e \<and> h = o1\<lparr>TriggerPrice := Some e\<rparr>))"
proof -
  let ?s = "\<lparr>orders = [(1, \<lparr>ID = 1, TriggerPrice = Some 20000, TrailBps = 0,
       HighWatermark = None, Status = StatusOpen\<rparr>)], latestPrice = None, latestAt = zero_time\<rparr>"
  have inv: "store_inv ?s"
    by (simp add: store_inv_def gm_ok_def valid_order_def fixed_order_def)
  obtain hits s' where r: "TriggeredOrders (Some 19000) ?s = (hits, s')"
    by (metis surj_pair)
  from triggered_orders_exact [OF inv _ r] r show ?thesis by auto
qed

section \<open>The watermark over a run of samples\<close>

fun sample_run :: "int list \<Rightarrow> Store \<Rightarrow> Store" where
  "sample_run [] s = s"
| "sample_run (p # ps) s = sample_run ps (snd (TriggeredOrders (Some p) s))"

lemma trigger_step_trailing:
  "Status o1 = StatusOpen \<Longrightarrow> TrailBps o1 \<noteq> 0 \<Longrightarrow> HighWatermark o1 = Some h \<Longrightarrow>
    fst (trigger_step p o1) = o1\<lparr>HighWatermark := Some (max h p)\<rparr>"
  by (cases o1) (auto simp: trigger_step_def raise_watermark_def word_gt_0 max_def Let_def)

text \<open>C16. The watermark of an open trailing order is the maximum of the sample it was activated
  with and of every positive sample since; nothing else of the order changes.\<close>

theorem watermark_is_maximum:
  assumes "gm_get (orders s) i = Some o1" and "Status o1 = StatusOpen" and "TrailBps o1 \<noteq> 0"
    and "HighWatermark o1 = Some h" and "\<forall>p \<in> set ps. 0 < p"
  shows "gm_get (orders (sample_run ps s)) i = Some (o1\<lparr>HighWatermark := Some (Max (set (h # ps)))\<rparr>)"
  using assms
proof (induction ps arbitrary: s o1 h)
  case Nil
  then show ?case by simp
next
  case (Cons p ps)
  let ?s = "snd (TriggeredOrders (Some p) s)" and ?o = "o1\<lparr>HighWatermark := Some (max h p)\<rparr>"
  have "gm_get (orders ?s) i = Some ?o"
    using Cons.prems by (simp add: TriggeredOrders_get trigger_step_trailing)
  then have "gm_get (orders (sample_run ps ?s)) i
      = Some (?o\<lparr>HighWatermark := Some (Max (set (max h p # ps)))\<rparr>)"
    using Cons.prems by (intro Cons.IH) simp_all
  moreover have "Max (set (max h p # ps)) = Max (set (h # p # ps))"
    by (cases "ps = []") (simp_all add: max.assoc)
  ultimately show ?case by simp
qed

theorem watermark_is_maximum_witness:
  "gm_get (orders (sample_run [21000, 20500] \<lparr>orders = [(7, \<lparr>ID = 7, TriggerPrice = None,
       TrailBps = 500, HighWatermark = Some 20000, Status = StatusOpen\<rparr>)], latestPrice = None,
       latestAt = zero_time\<rparr>)) 7
   = Some (\<lparr>ID = 7, TriggerPrice = None, TrailBps = 500, HighWatermark = Some 20000,
       Status = StatusOpen\<rparr>\<lparr>HighWatermark := Some (Max (set [20000, 21000, 20500]))\<rparr>)"
  by (rule watermark_is_maximum) (simp_all add: gm_get_def)

section \<open>Independence of the iteration order\<close>

definition same_book :: "Store \<Rightarrow> Store \<Rightarrow> bool" where
  "same_book s t \<longleftrightarrow> (\<forall>i. gm_get (orders s) i = gm_get (orders t) i)
     \<and> latestPrice s = latestPrice t \<and> latestAt s = latestAt t"

lemma same_book_entries:
  "store_inv s \<Longrightarrow> store_inv t \<Longrightarrow> same_book s t \<Longrightarrow> set (orders s) = set (orders t)"
  by (rule gm_same_entries) (simp_all add: store_inv_ok same_book_def)

lemma distinct_map_filter_ids: "distinct (map f xs) \<Longrightarrow> distinct (map f (filter P xs))"
  by (induction xs) auto

lemma distinct_ids:
  assumes "store_inv s"
  shows "distinct (map ID (map snd (orders s)))"
proof -
  have "map ID (map snd (orders s)) = map fst (orders s)"
    using store_inv_ids [OF assms] by (auto simp: case_prod_beta)
  moreover have "distinct (map fst (orders s))"
    using store_inv_ok [OF assms] by (simp add: gm_ok_def)
  ultimately show ?thesis by (simp only:)
qed

text \<open>The listings and the trigger scan give the same answer for every order in which Go may
  iterate over the map: two representations of the same book list the same orders, trigger the
  same orders in the same sequence and end in the same book.\<close>

theorem iteration_order_irrelevant:
  assumes "store_inv s" and "store_inv t" and "same_book s t"
  shows "Snapshot s = Snapshot t \<and> OpenOrders s = OpenOrders t
    \<and> fst (TriggeredOrders p s) = fst (TriggeredOrders p t)
    \<and> same_book (snd (TriggeredOrders p s)) (snd (TriggeredOrders p t))"
proof (intro conjI)
  note entries = same_book_entries [OF assms]
  show "Snapshot s = Snapshot t"
    unfolding Snapshot_def
    by (intro sort_key_set_unique distinct_ids assms) (simp add: entries)
  show "OpenOrders s = OpenOrders t"
    unfolding OpenOrders_def
    by (intro sort_key_set_unique distinct_map_filter_ids distinct_ids assms) (simp add: entries)
  show "fst (TriggeredOrders p s) = fst (TriggeredOrders p t)"
  proof (cases "\<exists>q. p = Some q \<and> 0 < q")
    case True
    then obtain q where q: "p = Some q" "0 < q" by blast
    have "sort_key ID (raw_hits q (orders s)) = sort_key ID (raw_hits q (orders t))"
      by (rule sort_key_set_unique)
        (simp_all add: store_inv_distinct_raw_hits assms set_raw_hits entries)
    with q show ?thesis by (simp add: TriggeredOrders_hits)
  next
    case False
    then have "TriggeredOrders p u = ([], u)" for u
      by (cases p) (auto intro: TriggeredOrders_none)
    then show ?thesis by simp
  qed
  show "same_book (snd (TriggeredOrders p s)) (snd (TriggeredOrders p t))"
  proof (cases p)
    case None
    then show ?thesis using assms(3) by (simp add: TriggeredOrders_none)
  next
    case (Some q)
    then show ?thesis using assms(3) by (simp add: same_book_def TriggeredOrders_get)
  qed
qed

theorem iteration_order_irrelevant_witness:
  "\<exists>s t. orders s \<noteq> orders t \<and> Snapshot s = Snapshot t \<and> OpenOrders s = OpenOrders t
    \<and> fst (TriggeredOrders (Some 9) s) = fst (TriggeredOrders (Some 9) t)
    \<and> same_book (snd (TriggeredOrders (Some 9) s)) (snd (TriggeredOrders (Some 9) t))"
proof -
  let ?a = "(1, \<lparr>ID = 1, TriggerPrice = Some 10, TrailBps = 0, HighWatermark = None,
    Status = StatusOpen\<rparr>)"
  let ?b = "(2, \<lparr>ID = 2, TriggerPrice = None, TrailBps = 25, HighWatermark = Some 9,
    Status = StatusOpen\<rparr>)"
  let ?s = "\<lparr>orders = [?a, ?b], latestPrice = None, latestAt = zero_time\<rparr>"
  let ?t = "\<lparr>orders = [?b, ?a], latestPrice = None, latestAt = zero_time\<rparr>"
  have inv: "store_inv ?s" "store_inv ?t"
    by (simp_all add: store_inv_def gm_ok_def valid_order_def fixed_order_def trailing_order_def)
  have same: "same_book ?s ?t" by (simp add: same_book_def gm_get_def)
  show ?thesis
    using iteration_order_irrelevant [OF inv same, of "Some 9"]
    by (intro exI [of _ ?s] exI [of _ ?t]) simp
qed

end
