(* ===== verification/Order_Lifecycle.thy ===== *)
theory Order_Lifecycle
  imports Order_Triggers
begin

text \<open>
  The order book as a step relation: every state the request handlers and the watcher can bring it
  to is well formed, and each step changes the phase of the order it names only. The interface the
  clients of the book rely on is a locale, interpreted here on the operations of the model.
\<close>

section \<open>Steps of the book\<close>

datatype store_op = OpPut gotime Order | OpDelete uint64 | OpMark uint64
  | OpObserve "int option" gotime | OpTrigger "int option"

fun apply_store_op :: "store_op \<Rightarrow> Store \<Rightarrow> Store" where
  "apply_store_op (OpPut now o1) s = (case Put now o1 s of Inl _ \<Rightarrow> s | Inr s' \<Rightarrow> s')"
| "apply_store_op (OpDelete i) s = snd (Delete i s)"
| "apply_store_op (OpMark i) s = snd (MarkExecuted i s)"
| "apply_store_op (OpObserve p at) s = ObservePrice p at s"
| "apply_store_op (OpTrigger p) s = snd (TriggeredOrders p s)"

inductive store_step :: "Store \<Rightarrow> Store \<Rightarrow> bool" where
  store_step: "store_step s (apply_store_op op s)"

inductive_simps store_step_simps: "store_step s t"
inductive_cases store_stepE [elim!]: "store_step s t"

lemma apply_store_op_inv: "store_inv s \<Longrightarrow> store_inv (apply_store_op op s)"
  by (cases op) (auto simp: store_op_inv split: sum.split intro: Put_inv)

interpretation store_machine: inv_machine "\<lambda>s. s = NewStore" store_step store_inv
  by unfold_locales (auto simp: NewStore_inv apply_store_op_inv)

text \<open>C17. Every reachable order book is well formed: ids are non-zero, unique and equal to their
  keys; each order is open or executed and holds either a fixed trigger in (0, 2^256) or a trail
  of 25 to 5000 basis points with a positive watermark, never both.\<close>

theorem reachable_store_wellformed:
  "reach (\<lambda>s. s = NewStore) store_step s \<Longrightarrow> store_inv s"
  by (rule store_machine.inv_reach)

theorem reachable_store_wellformed_witness:
  "store_inv (apply_store_op (OpPut 0 \<lparr>ID = 3, TriggerPrice = Some 5, TrailBps = 0,
     HighWatermark = None, Status = StatusOpen\<rparr>) NewStore)"
  by (rule reachable_store_wellformed, rule reach_step, rule reach_init, rule refl, rule store_step)

section \<open>The life cycle of an order\<close>

datatype phase = Absent | Live | Done

definition order_phase :: "Store \<Rightarrow> uint64 \<Rightarrow> phase" where
  "order_phase s i = (case gm_get (orders s) i of None \<Rightarrow> Absent
     | Some o1 \<Rightarrow> if Status o1 = StatusOpen then Live else Done)"

locale order_book =
  fixes phase_of :: "'s \<Rightarrow> 'i \<Rightarrow> phase"
    and mark :: "'i \<Rightarrow> 's \<Rightarrow> bool \<times> 's"
    and del :: "'i \<Rightarrow> 's \<Rightarrow> bool \<times> 's"
  assumes mark_phase: "phase_of (snd (mark i s)) j =
      (if j = i \<and> phase_of s i = Live then Done else phase_of s j)"
    and mark_result: "fst (mark i s) \<longleftrightarrow> phase_of s i = Live"
    and del_phase: "phase_of (snd (del i s)) j = (if j = i then Absent else phase_of s j)"
    and del_result: "fst (del i s) \<longleftrightarrow> phase_of s i \<noteq> Absent"
begin

lemma mark_twice: "\<not> fst (mark i (snd (mark i s)))"
  by (simp add: mark_result mark_phase)

lemma mark_after_del: "\<not> fst (mark i (snd (del i s)))"
  by (simp add: mark_result del_phase)

lemma del_twice: "\<not> fst (del i (snd (del i s)))"
  by (simp add: del_result del_phase)

lemma mark_commute: "phase_of (snd (mark i (snd (mark j s)))) = phase_of (snd (mark j (snd (mark i s))))"
  by (rule ext) (simp add: mark_phase)

end

interpretation book: order_book order_phase MarkExecuted Delete
  by unfold_locales
    (auto simp: order_phase_def MarkExecuted_def Delete_def split: option.splits if_splits)

text \<open>An order is executed once: a second \<open>MarkExecuted\<close>, or one after a cancellation, is
  refused, and marking never touches another order.\<close>

theorem executed_once:
  "\<not> fst (MarkExecuted i (snd (MarkExecuted i s)))
    \<and> \<not> fst (MarkExecuted i (snd (Delete i s)))
    \<and> (fst (MarkExecuted i s) \<longleftrightarrow> order_phase s i = Live)
    \<and> order_phase (snd (MarkExecuted i s)) j
        = (if j = i \<and> order_phase s i = Live then Done else order_phase s j)"
  using book.mark_twice book.mark_after_del book.mark_result book.mark_phase by simp

lemma Put_phase:
  "Put now o1 s = Inr s' \<Longrightarrow>
    order_phase s' j = (if j = ID o1 then Live else order_phase s j) \<and> order_phase s (ID o1) = Absent"
  by (erule Put_Inr) (auto simp: order_phase_def isTrailing_def)

lemma Trigger_phase: "order_phase (snd (TriggeredOrders p s)) j = order_phase s j"
proof (cases p)
  case None
  then show ?thesis by (simp add: TriggeredOrders_none)
next
  case (Some q)
  then show ?thesis by (simp add: order_phase_def TriggeredOrders_get split: option.split)
qed

lemma Observe_phase: "order_phase (ObservePrice p at s) i = order_phase s i"
  by (simp add: order_phase_def)

lemma apply_store_op_phase:
  "order_phase (apply_store_op op s) i = (case op of
      OpPut now o1 \<Rightarrow> if i = ID o1 \<and> \<not> isl (Put now o1 s) then Live else order_phase s i
    | OpDelete j \<Rightarrow> if i = j then Absent else order_phase s i
    | OpMark j \<Rightarrow> if i = j \<and> order_phase s i = Live then Done else order_phase s i
    | OpObserve p at \<Rightarrow> order_phase s i
    | OpTrigger p \<Rightarrow> order_phase s i)"
proof (cases op)
  case (OpPut now o1)
  then show ?thesis using Put_phase [of now o1 s _ i] by (cases "Put now o1 s") auto
qed (auto simp add: Observe_phase Trigger_phase book.mark_phase book.del_phase)

lemma put_absent: "\<not> isl (Put now o1 s) \<Longrightarrow> order_phase s (ID o1) = Absent"
  using Put_phase [of now o1 s] by (cases "Put now o1 s") auto

lemma done_stays: "order_phase s i = Done \<Longrightarrow> OpDelete i \<notin> set ops \<Longrightarrow>
    order_phase (fold apply_store_op ops s) i = Done"
proof (induction ops arbitrary: s)
  case (Cons op ops)
  have "order_phase (apply_store_op op s) i = Done"
    using Cons.prems put_absent [of _ _ s] unfolding apply_store_op_phase by (cases op) force+
  then show ?case using Cons.IH Cons.prems(2) by simp
qed simp

lemma live_stays: "order_phase s i = Live \<Longrightarrow> OpDelete i \<notin> set ops \<Longrightarrow> OpMark i \<notin> set ops \<Longrightarrow>
    order_phase (fold apply_store_op ops s) i = Live"
proof (induction ops arbitrary: s)
  case (Cons op ops)
  have "order_phase (apply_store_op op s) i = Live"
    using Cons.prems unfolding apply_store_op_phase by (cases op) auto
  then show ?case using Cons.IH Cons.prems(2,3) by simp
qed simp

text \<open>C23. The exact life cycle of the orders, operation by operation. An accepted \<open>Put\<close> opens the
  order it places, which was absent, and a refused one changes nothing; \<open>Delete\<close> removes its order
  and \<open>MarkExecuted\<close> executes its order if that is open; the price sampling and the trigger scan
  change the phase of no order, and no operation that of an order it does not name. So over any run
  an executed order stays executed until it is deleted, and an open one stays open until it is
  deleted or marked.\<close>

theorem order_life_cycle:
  "order_phase (apply_store_op op s) i = (case op of
      OpPut now o1 \<Rightarrow> if i = ID o1 \<and> \<not> isl (Put now o1 s) then Live else order_phase s i
    | OpDelete j \<Rightarrow> if i = j then Absent else order_phase s i
    | OpMark j \<Rightarrow> if i = j \<and> order_phase s i = Live then Done else order_phase s i
    | OpObserve p at \<Rightarrow> order_phase s i
    | OpTrigger p \<Rightarrow> order_phase s i)
  \<and> (Put now o1 s = Inr s' \<longrightarrow> order_phase s (ID o1) = Absent)
  \<and> (order_phase s i = Done \<and> OpDelete i \<notin> set ops \<longrightarrow> order_phase (fold apply_store_op ops s) i = Done)
  \<and> (order_phase s i = Live \<and> OpDelete i \<notin> set ops \<and> OpMark i \<notin> set ops
      \<longrightarrow> order_phase (fold apply_store_op ops s) i = Live)"
  using apply_store_op_phase Put_phase [of now o1 s s'] done_stays [of s i ops] live_stays [of s i ops] by blast

abbreviation fixed3 :: "int \<Rightarrow> Order" where
  "fixed3 t \<equiv> \<lparr>ID = 3, TriggerPrice = Some t, TrailBps = 0, HighWatermark = None, Status = StatusOpen\<rparr>"

text \<open>Order 3 is executed; a scan, a sample, a second marking and a \<open>Put\<close> of the same id leave it so.\<close>

theorem order_life_cycle_witness:
  "order_phase (fold apply_store_op [OpTrigger (Some 4), OpObserve (Some 4) 7, OpMark 3, OpPut 0 (fixed3 9)]
     (fold apply_store_op [OpPut 0 (fixed3 5), OpMark 3] NewStore)) 3 = Done"
proof -
  let ?s = "fold apply_store_op [OpPut 0 (fixed3 5), OpMark 3] NewStore"
  have "order_phase ?s 3 = Done" by code_simp
  then show ?thesis
    using order_life_cycle [of "OpDelete 3" ?s 3 0 "fixed3 5" ?s
        "[OpTrigger (Some 4), OpObserve (Some 4) 7, OpMark 3, OpPut 0 (fixed3 9)]"] by simp
qed

section \<open>Placing an order\<close>

text \<open>\<open>Put\<close> accepts an order iff its id is new and non-zero, it is open and it holds exactly one
  valid policy; a trailing order also needs a sample at most ten seconds old, which becomes its
  watermark. A refusal leaves no trace, the checks are made in the code's order, and acceptance
  adds this one order.\<close>

theorem Put_correct:
  "Put now o1 s =
    (if order_phase s (ID o1) \<noteq> Absent then Inl (OrderExists (ID o1))
     else if \<not> (ID o1 \<noteq> 0 \<and> Status o1 = StatusOpen) then Inl InvalidIdentity
     else if fixed_order o1 then Inr (s\<lparr>orders := gm_put (ID o1) o1 (orders s)\<rparr>)
     else if TriggerPrice o1 = None \<and> 25 \<le> TrailBps o1 \<and> TrailBps o1 \<le> 5000
         \<and> HighWatermark o1 = None \<and> latestPrice s \<noteq> None \<and> \<not> time_IsZero (latestAt s)
         \<and> 0 \<le> now - latestAt s \<and> now - latestAt s \<le> 10 * second_ns
       then Inr (s\<lparr>orders := gm_put (ID o1) (o1\<lparr>HighWatermark := latestPrice s\<rparr>) (orders s)\<rparr>)
     else Inl InvalidPolicy)"
proof -
  have absent: "order_phase s (ID o1) = Absent \<longleftrightarrow> gm_get (orders s) (ID o1) = None"
    by (simp add: order_phase_def split: option.split)
  have ready: "trailingReady now s \<longleftrightarrow> latestPrice s \<noteq> None \<and> \<not> time_IsZero (latestAt s)
      \<and> 0 \<le> now - latestAt s \<and> now - latestAt s \<le> 10 * second_ns"
    by (auto simp: trailingReady_def time_Sub_def trailingSampleMaxAge_def second_ns_def Let_def)
  have "isFixed o1 \<Longrightarrow> \<not> isTrailing now s o1"
    by (auto simp: isFixed_iff isTrailing_def)
  then show ?thesis
    by (auto simp: Put_def absent fixed_order_eq isTrailing_def ready)
qed

text \<open>\<open>SupportedPolicies\<close> is the readiness signal it claims to be: it lists trailing iff a
  well-formed new trailing order would be accepted at that moment, and always lists fixed.\<close>

theorem supported_policies_sound:
  assumes "order_phase s i = Absent" and "i \<noteq> 0" and "25 \<le> bps" and "bps \<le> 5000"
  shows "(''trailing'' \<in> set (SupportedPolicies now s) \<longleftrightarrow>
      (\<exists>s'. Put now \<lparr>ID = i, TriggerPrice = None, TrailBps = bps, HighWatermark = None,
         Status = StatusOpen\<rparr> s = Inr s')) \<and> ''fixed'' \<in> set (SupportedPolicies now s)"
proof -
  have "gm_get (orders s) i = None"
    using assms(1) by (simp add: order_phase_def split: option.splits if_splits)
  then show ?thesis
    using assms by (simp add: SupportedPolicies_def Put_def isFixed_def isTrailing_def Let_def)
qed

theorem supported_policies_sound_witness:
  "(''trailing'' \<in> set (SupportedPolicies 5 NewStore) \<longleftrightarrow>
      (\<exists>s'. Put 5 \<lparr>ID = 1, TriggerPrice = None, TrailBps = 100, HighWatermark = None,
         Status = StatusOpen\<rparr> NewStore = Inr s')) \<and> ''fixed'' \<in> set (SupportedPolicies 5 NewStore)"
  by (rule supported_policies_sound) (simp_all add: order_phase_def NewStore_def)

end
