(* ===== verification/Chain_Env.thy ===== *)
theory Chain_Env
  imports Order_Lifecycle
begin

text \<open>
  The outside world of the watcher: the \<open>ChainClient\<close> interface of
  \<open>internal/extension/watcher.go\<close>, the clock, the request handlers that run at the same time,
  and the go-ethereum functions (ABI packing, signing) whose code is not in the repository. Each
  is a parameter: a field of the record \<open>chain_env\<close> that acts on an abstract world state \<open>'w\<close>,
  so a client may answer differently at every call. The context argument of the Go methods, which
  the watcher never inspects, is left out.
\<close>

datatype rpc_error = NotFound | RpcFail string

text \<open>The dynamic type of a value that ABI unpacking returns as \<open>any\<close>.\<close>

datatype abi_value = VBig int | VUint8 uint8 | VInt8 int8 | VUint64 uint64 | VAddress address
  | VBytes bytes

text \<open>The arguments of \<open>ethtypes.NewTransaction\<close>, and the signed transaction with its hash.\<close>

record transaction =
  tx_nonce :: uint64
  tx_to :: address
  tx_value :: int
  tx_gas :: uint64
  tx_gasPrice :: int
  tx_data :: bytes

record signed_tx =
  signed_raw :: bytes
  signed_hash :: hash

text \<open>What a request handler may do to the order book between two steps of the watcher.\<close>

datatype handler_op = HandlerPut gotime Order | HandlerDelete uint64

fun handler_store_op :: "handler_op \<Rightarrow> store_op" where
  "handler_store_op (HandlerPut now o1) = OpPut now o1"
| "handler_store_op (HandlerDelete i) = OpDelete i"

record 'w chain_env =
  env_now :: "'w \<Rightarrow> gotime \<times> 'w"
  env_sleep :: "int \<Rightarrow> 'w \<Rightarrow> 'w"
  env_handlers :: "'w \<Rightarrow> handler_op list \<times> 'w"
  CallContract :: "address \<Rightarrow> bytes \<Rightarrow> 'w \<Rightarrow> (rpc_error + bytes) \<times> 'w"
  SuggestGasPrice :: "'w \<Rightarrow> (rpc_error + int) \<times> 'w"
  PendingNonceAt :: "address \<Rightarrow> 'w \<Rightarrow> (rpc_error + uint64) \<times> 'w"
  EstimateGas :: "address \<Rightarrow> address \<Rightarrow> bytes \<Rightarrow> 'w \<Rightarrow> (rpc_error + uint64) \<times> 'w"
  SendTransaction :: "signed_tx \<Rightarrow> 'w \<Rightarrow> rpc_error option \<times> 'w"
  TransactionReceipt :: "hash \<Rightarrow> 'w \<Rightarrow> (rpc_error + uint64) \<times> 'w"
  TransactionByHash :: "hash \<Rightarrow> 'w \<Rightarrow> (rpc_error + bool) \<times> 'w"
  ChainID :: "'w \<Rightarrow> (rpc_error + int) \<times> 'w"
  abi_pack_settle :: "int \<Rightarrow> int option \<Rightarrow> int \<Rightarrow> string + bytes"
  abi_pack_orders :: "int \<Rightarrow> string + bytes"
  abi_unpack_orders :: "bytes \<Rightarrow> string + (abi_value \<times> abi_value \<times> abi_value)"
  abi_pack_getFeedById :: "bytes \<Rightarrow> string + bytes"
  abi_unpack_getFeedById :: "bytes \<Rightarrow> string + (abi_value \<times> abi_value \<times> abi_value)"
  abi_pack_FTSO_V2 :: "string + bytes"
  abi_unpack_FTSO_V2 :: "bytes \<Rightarrow> string + abi_value"
  sign_transaction :: "int \<Rightarrow> transaction \<Rightarrow> string + signed_tx"

text \<open>Receipt status 1 is \<open>ethtypes.ReceiptStatusSuccessful\<close>.\<close>

definition ReceiptStatusSuccessful :: uint64 where
  "ReceiptStatusSuccessful = 1"

end
