(* ===== verification/Msg_Types.thy ===== *)
theory Msg_Types
  imports Decoder_Registry Chain_Env
begin

text \<open>
  \<open>pkg/types\<close>: the payloads of the instructions and of the answers. Packing and unpacking are
  go-ethereum's \<open>abi.Arguments\<close> and parameters of the model; \<open>unpackStrict\<close> makes a decoder that
  accepts only what packing produces.
\<close>

section \<open>Payloads\<close>

record PlaceOrderRequest =
  PlaceOrderID :: int
  Ciphertext :: bytes

record CancelOrderRequest =
  CancelOrderID :: int

record OrderResponse =
  ResponseOrderID :: string
  ResponseStatus :: string

record OrderState =
  StateOrderID :: string
  StateStatus :: string

record State =
  EncryptionPubKey :: string
  SupportedPoliciesField :: "string list"
  OpenOrdersCount :: int
  Orders :: "OrderState list"

record StateResponse =
  StateVersion :: hash
  StateField :: State

section \<open>Strict ABI decoding\<close>

text \<open>The arguments as name and Solidity type, and the two library functions at them.\<close>

type_synonym abi_arguments = "(string \<times> string) list"

definition PlaceOrderMessageArgs :: abi_arguments where
  "PlaceOrderMessageArgs = [(''orderId'', ''uint256''), (''ciphertext'', ''bytes'')]"

definition CancelOrderMessageArgs :: abi_arguments where
  "CancelOrderMessageArgs = [(''orderId'', ''uint256'')]"

record abi_lib =
  args_Unpack :: "abi_arguments \<Rightarrow> bytes \<Rightarrow> string + abi_value list"
  args_Pack :: "abi_arguments \<Rightarrow> abi_value list \<Rightarrow> string + bytes"

datatype decode_error = UnpackFailed string | RepackFailed string | NonCanonicalLength nat nat
  | NonCanonicalByte nat | WrongType string | MissingValue

fun first_mismatch :: "nat \<Rightarrow> bytes \<Rightarrow> bytes \<Rightarrow> nat option" where
  "first_mismatch i (x # xs) (y # ys) = (if x \<noteq> y then Some i else first_mismatch (Suc i) xs ys)"
| "first_mismatch i _ _ = None"

definition unpackStrict :: "abi_lib \<Rightarrow> abi_arguments \<Rightarrow> bytes \<Rightarrow> decode_error + abi_value list" where
  "unpackStrict L args data = (case args_Unpack L args data of
     Inl m \<Rightarrow> Inl (UnpackFailed m)
   | Inr values \<Rightarrow> (case args_Pack L args values of
       Inl m \<Rightarrow> Inl (RepackFailed m)
     | Inr repacked \<Rightarrow>
         if length repacked \<noteq> length data then Inl (NonCanonicalLength (length data) (length repacked))
         else (case first_mismatch 0 repacked data of
             Some i \<Rightarrow> Inl (NonCanonicalByte i)
           | None \<Rightarrow> Inr values)))"

text \<open>An index out of range would panic: \<open>MissingValue\<close>.\<close>

definition DecodePlaceOrder :: "abi_lib \<Rightarrow> bytes \<Rightarrow> decode_error + PlaceOrderRequest" where
  "DecodePlaceOrder L data = (case unpackStrict L PlaceOrderMessageArgs data of
     Inl er \<Rightarrow> Inl er
   | Inr values \<Rightarrow> (case values of
       VBig i # VBytes c # _ \<Rightarrow> Inr \<lparr>PlaceOrderID = i, Ciphertext = c\<rparr>
     | VBig i # _ # _ \<Rightarrow> Inl (WrongType ''ciphertext'')
     | VBig i # [] \<Rightarrow> Inl MissingValue
     | _ # _ \<Rightarrow> Inl (WrongType ''orderId'')
     | [] \<Rightarrow> Inl MissingValue))"

definition DecodeCancelOrder :: "abi_lib \<Rightarrow> bytes \<Rightarrow> decode_error + CancelOrderRequest" where
  "DecodeCancelOrder L data = (case unpackStrict L CancelOrderMessageArgs data of
     Inl er \<Rightarrow> Inl er
   | Inr values \<Rightarrow> (case values of
       VBig i # _ \<Rightarrow> Inr \<lparr>CancelOrderID = i\<rparr>
     | _ # _ \<Rightarrow> Inl (WrongType ''orderId'')
     | [] \<Rightarrow> Inl MissingValue))"

lemma first_mismatch_None: "length xs = length ys \<Longrightarrow> first_mismatch i xs ys = None \<longleftrightarrow> xs = ys"
  by (induction i xs ys rule: first_mismatch.induct) auto

lemma first_mismatch_same [simp]: "first_mismatch i xs xs = None"
  by (simp add: first_mismatch_None)

lemma unpackStrict_iff:
  "unpackStrict L args data = Inr vs \<longleftrightarrow> args_Unpack L args data = Inr vs \<and> args_Pack L args vs = Inr data"
  by (auto simp: unpackStrict_def first_mismatch_None split: sum.splits if_splits option.splits)

text \<open>A decoder whose result determines its input.\<close>

locale canonical_decoder =
  fixes decode :: "'d \<Rightarrow> 'e + 'r" and encode :: "'r \<Rightarrow> 'f + 'd"
  assumes canonical: "decode d = Inr r \<Longrightarrow> encode r = Inr d"
begin

lemma decode_inj: "decode d = Inr r \<Longrightarrow> decode d' = Inr r \<Longrightarrow> d = d'"
  using canonical by (metis sum.inject(2))

lemma decode_encode: "decode d = Inr r \<Longrightarrow> encode r = Inr d' \<Longrightarrow> d' = d"
  using canonical by (metis sum.inject(2))

end

interpretation strict: canonical_decoder "unpackStrict L args" "args_Pack L args"
  by unfold_locales (simp add: unpackStrict_iff)

text \<open>The documented arity of the library: one value per argument.\<close>

definition unpack_arity :: "abi_lib \<Rightarrow> bool" where
  "unpack_arity L \<longleftrightarrow> (\<forall>args d vs. args_Unpack L args d = Inr vs \<longrightarrow> length vs = length args)"

lemma DecodePlaceOrder_values:
  "unpack_arity L \<Longrightarrow> DecodePlaceOrder L d = Inr req \<longleftrightarrow>
    unpackStrict L PlaceOrderMessageArgs d = Inr [VBig (PlaceOrderID req), VBytes (Ciphertext req)]"
proof
  assume ar: "unpack_arity L" and dec: "DecodePlaceOrder L d = Inr req"
  then obtain vs where vs: "unpackStrict L PlaceOrderMessageArgs d = Inr vs"
    by (auto simp: DecodePlaceOrder_def split: sum.splits)
  then have "length vs = length PlaceOrderMessageArgs"
    using ar by (auto simp: unpack_arity_def unpackStrict_iff)
  then have "length vs = 2" by (simp add: PlaceOrderMessageArgs_def)
  then obtain a b where "vs = [a, b]" by (auto simp: length_Suc_conv numeral_2_eq_2)
  with dec vs show "unpackStrict L PlaceOrderMessageArgs d = Inr [VBig (PlaceOrderID req), VBytes (Ciphertext req)]"
    by (auto simp: DecodePlaceOrder_def split: abi_value.splits)
qed (simp add: DecodePlaceOrder_def)

lemma DecodeCancelOrder_values:
  "unpack_arity L \<Longrightarrow> DecodeCancelOrder L d = Inr req \<longleftrightarrow>
    unpackStrict L CancelOrderMessageArgs d = Inr [VBig (CancelOrderID req)]"
proof
  assume ar: "unpack_arity L" and dec: "DecodeCancelOrder L d = Inr req"
  then obtain vs where vs: "unpackStrict L CancelOrderMessageArgs d = Inr vs"
    by (auto simp: DecodeCancelOrder_def split: sum.splits)
  then have "length vs = length CancelOrderMessageArgs"
    using ar by (auto simp: unpack_arity_def unpackStrict_iff)
  then have "length vs = 1" by (simp add: CancelOrderMessageArgs_def)
  then obtain a where "vs = [a]" by (auto simp: length_Suc_conv)
  with dec vs show "unpackStrict L CancelOrderMessageArgs d = Inr [VBig (CancelOrderID req)]"
    by (auto simp: DecodeCancelOrder_def split: abi_value.splits)
qed (simp add: DecodeCancelOrder_def)

text \<open>C28. Decoding is strict: a payload decodes to a request iff unpacking yields its two values and
  packing them gives the payload back byte for byte, so two payloads with the same request are the
  same bytes.\<close>

theorem place_order_canonical:
  assumes "unpack_arity L"
  shows "(DecodePlaceOrder L d = Inr req \<longleftrightarrow>
      args_Unpack L PlaceOrderMessageArgs d = Inr [VBig (PlaceOrderID req), VBytes (Ciphertext req)]
      \<and> args_Pack L PlaceOrderMessageArgs [VBig (PlaceOrderID req), VBytes (Ciphertext req)] = Inr d)
    \<and> (DecodePlaceOrder L d = Inr req \<and> DecodePlaceOrder L d' = Inr req \<longrightarrow> d = d')"
  using strict.decode_inj by (auto simp: DecodePlaceOrder_values [OF assms] unpackStrict_iff)

text \<open>A library for the witness: one byte for the id, then the ciphertext.\<close>

definition tiny_abi :: abi_lib where
  "tiny_abi = \<lparr>args_Unpack = (\<lambda>args d. case (args, d) of
       ([_], [i]) \<Rightarrow> Inr [VBig (int (code i))]
     | ([_, _], i # c) \<Rightarrow> Inr [VBig (int (code i)), VBytes c]
     | _ \<Rightarrow> Inl ''length''),
   args_Pack = (\<lambda>args vs. case vs of
       [VBig i] \<Rightarrow> Inr [byte (nat i)]
     | [VBig i, VBytes c] \<Rightarrow> Inr (byte (nat i) # c)
     | _ \<Rightarrow> Inl ''values'')\<rparr>"

lemma tiny_abi_arity: "unpack_arity tiny_abi"
  by (auto simp: unpack_arity_def tiny_abi_def split: list.splits)

theorem place_order_canonical_witness:
  "DecodePlaceOrder tiny_abi (byte 7 # ''ct'') = Inr \<lparr>PlaceOrderID = 7, Ciphertext = ''ct''\<rparr>"
  using place_order_canonical [OF tiny_abi_arity, of "byte 7 # ''ct''"
      "\<lparr>PlaceOrderID = 7, Ciphertext = ''ct''\<rparr>" "[]"]
  by (simp add: tiny_abi_def PlaceOrderMessageArgs_def)

section \<open>The registered decoders\<close>

datatype decoded = DecodedPlace PlaceOrderRequest | DecodedCancel CancelOrderRequest
  | DecodedResponse OrderResponse

text \<open>The text of a decoding error is not modelled beyond its kind.\<close>

fun decode_error_text :: "decode_error \<Rightarrow> string" where
  "decode_error_text (UnpackFailed m) = m"
| "decode_error_text (RepackFailed m) = ''repacking decoded values: '' @ m"
| "decode_error_text (NonCanonicalLength a b) = ''non-canonical encoding: '' @ format_nat a
     @ '' bytes decoded, '' @ format_nat b @ '' bytes re-encoded''"
| "decode_error_text (NonCanonicalByte i) = ''non-canonical encoding: mismatch at byte '' @ format_nat i"
| "decode_error_text (WrongType f) = f @ '': unexpected type''"
| "decode_error_text MissingValue = ''index out of range''"

definition funcDecoder :: "(bytes \<Rightarrow> decode_error + 'r) \<Rightarrow> ('r \<Rightarrow> decoded) \<Rightarrow> decoded decode_fn" where
  "funcDecoder f wrap data = (case f data of Inl er \<Rightarrow> Inl (decode_error_text er) | Inr r \<Rightarrow> Inr (wrap r))"

definition order_response_of_json :: "json \<Rightarrow> decoded option" where
  "order_response_of_json v = (case string_fields [''orderId'', ''status''] v of
     None \<Rightarrow> None
   | Some f \<Rightarrow> Some (DecodedResponse \<lparr>ResponseOrderID = f ''orderId'', ResponseStatus = f ''status''\<rparr>))"

definition RegisterDecoders :: "abi_lib \<Rightarrow> decoded Registry \<Rightarrow> decoded Registry" where
  "RegisterDecoders L r =
     (let r1 = Register \<lparr>OPType = ''DARKSTOP'', OPCommand = ''PLACE_ORDER'', Kind = KindMessage\<rparr>
            (funcDecoder (DecodePlaceOrder L) DecodedPlace) r;
          r2 = Register \<lparr>OPType = ''DARKSTOP'', OPCommand = ''PLACE_ORDER'', Kind = KindResult\<rparr>
            (JSONDecoder_Decode order_response_of_json) r1;
          r3 = Register \<lparr>OPType = ''DARKSTOP'', OPCommand = ''CANCEL_ORDER'', Kind = KindMessage\<rparr>
            (funcDecoder (DecodeCancelOrder L) DecodedCancel) r2
      in Register \<lparr>OPType = ''DARKSTOP'', OPCommand = ''CANCEL_ORDER'', Kind = KindResult\<rparr>
            (JSONDecoder_Decode order_response_of_json) r3)"

end
