(* ===== verification/Abi_Codec.thy ===== *)
theory Abi_Codec
  imports Vault Msg_Types
begin

text \<open>
  The two instruction messages between the vault and the enclave. The enclave decodes with go-ethereum,
  a parameter of the model; \<open>abi_agrees\<close> is what it documents, that packing is the encoding of the
  Solidity ABI and unpacking inverts it. \<open>sol_abi\<close> is an executable codec with that property.
\<close>

definition abi_agrees :: "abi_lib \<Rightarrow> bool" where
  "abi_agrees L \<longleftrightarrow> (\<forall>i. args_Pack L CancelOrderMessageArgs [VBig (uint i)] = Inr (abi_encode_id i)
       \<and> args_Unpack L CancelOrderMessageArgs (abi_encode_id i) = Inr [VBig (uint i)])
     \<and> (\<forall>i c. length c < 2 ^ 256 \<longrightarrow> args_Pack L PlaceOrderMessageArgs [VBig (uint i), VBytes c] = Inr (abi_encode_id_bytes i c)
       \<and> args_Unpack L PlaceOrderMessageArgs (abi_encode_id_bytes i c) = Inr [VBig (uint i), VBytes c])"

lemma decode_instruction:
  "abi_agrees L \<Longrightarrow> length c < 2 ^ 256 \<Longrightarrow> DecodePlaceOrder L (abi_encode_id_bytes i c) = Inr \<lparr>PlaceOrderID = uint i, Ciphertext = c\<rparr>"
  "abi_agrees L \<Longrightarrow> DecodeCancelOrder L (abi_encode_id i) = Inr \<lparr>CancelOrderID = uint i\<rparr>"
  by (simp_all add: abi_agrees_def DecodePlaceOrder_def DecodeCancelOrder_def unpackStrict_def)

section \<open>Words\<close>

definition abi_unword :: "bytes \<Rightarrow> nat" where
  "abi_unword b = foldl (\<lambda>a c. 256 * a + code c) 0 (take 32 b)"

lemma foldl_digits: "foldl (\<lambda>a c. 256 * a + code c) a (map (\<lambda>k. byte (n div 256 ^ k mod 256)) (rev [0..<m])) = a * 256 ^ m + n mod 256 ^ m"
proof (induction m arbitrary: a)
  case (Suc m)
  have "n mod 256 ^ Suc m = 256 ^ m * (n div 256 ^ m mod 256) + n mod 256 ^ m"
    using mod_mult2_eq [of n "256 ^ m" 256] by (simp add: ac_simps)
  with Suc show ?case by (simp add: algebra_simps)
qed simp

lemma abi_word_digits: "abi_word n = map (\<lambda>k. byte (unat n div 256 ^ k mod 256)) (rev [0..<32])"
proof -
  have "nat (uint n div 256 ^ k mod 256) = unat n div 256 ^ k mod 256" for k
    by (simp add: nat_mod_distrib nat_div_distrib nat_power_eq pos_imp_zdiv_nonneg_iff)
  then show ?thesis by (simp add: abi_word_def)
qed

lemma length_abi_word [simp]: "length (abi_word n) = 32"
  by (simp add: abi_word_def)

lemma abi_unword_word [simp]: "abi_unword (abi_word n @ r) = unat n"
proof -
  have "abi_unword (abi_word n @ r) = unat n mod 256 ^ 32"
    using foldl_digits [of 0 "unat n" 32] by (simp only: abi_unword_def abi_word_digits take_append length_map length_rev length_upt) simp
  then show ?thesis using unsigned_less [of n, where 'a = nat] by simp
qed

section \<open>The codec\<close>

definition sol_unpack :: "abi_arguments \<Rightarrow> bytes \<Rightarrow> string + abi_value list" where
  "sol_unpack args b =
     (if map snd args = [''uint256''] then
        (if length b < 32 then Inl ''length'' else Inr [VBig (int (abi_unword b))])
      else if map snd args = [''uint256'', ''bytes''] then
        (let off = abi_unword (drop 32 b); tail = drop off b; len = abi_unword tail in
         if length b < 64 \<or> length tail < 32 \<or> length tail < 32 + len then Inl ''length''
         else Inr [VBig (int (abi_unword b)), VBytes (take len (drop 32 tail))])
      else Inl ''type'')"

definition sol_pack :: "abi_arguments \<Rightarrow> abi_value list \<Rightarrow> string + bytes" where
  "sol_pack args vs = (case vs of
     [VBig i] \<Rightarrow> Inr (abi_encode_id (word_of_int i))
   | [VBig i, VBytes c] \<Rightarrow> Inr (abi_encode_id_bytes (word_of_int i) c)
   | _ \<Rightarrow> Inl ''values'')"

definition sol_abi :: abi_lib where
  "sol_abi = \<lparr>args_Unpack = sol_unpack, args_Pack = sol_pack\<rparr>"

lemma sol_unpack_place:
  assumes "length c < 2 ^ 256"
  shows "sol_unpack PlaceOrderMessageArgs (abi_encode_id_bytes i c) = Inr [VBig (uint i), VBytes c]"
proof -
  let ?tail = "abi_word (of_nat (length c)) @ abi_pad c"
  let ?b = "abi_word i @ abi_word 64 @ ?tail"
  have "drop 32 ?b = abi_word 64 @ ?tail" by simp
  then have off: "abi_unword (drop 32 ?b) = 64" by simp
  have tail: "drop 64 ?b = ?tail" by simp
  have small: "unat (of_nat (length c) :: uint256) = length c"
    using assms by (simp add: unsigned_of_nat take_bit_nat_eq_self)
  then have len: "abi_unword ?tail = length c" by simp
  show ?thesis
    by (simp add: sol_unpack_def PlaceOrderMessageArgs_def abi_encode_id_bytes_def Let_def off tail len del: drop_append)
      (simp add: abi_pad_def small)
qed

lemma sol_abi_agrees: "abi_agrees sol_abi"
  using sol_unpack_place
  by (auto simp: abi_agrees_def sol_abi_def sol_pack_def sol_unpack_def CancelOrderMessageArgs_def abi_encode_id_def)
    (use abi_unword_word [of _ "[]"] in simp)

end
