(* ===== verification/Watcher.thy ===== *)
theory Watcher
  imports Chain_Env
begin

text \<open>
  The FTSO watcher, \<open>internal/extension/watcher.go\<close>: its state, the price reading, the nonce
  reservation, one settlement with retries, the reconciliation of unconfirmed broadcasts and the
  tick that composes them. Every method takes the world and the watcher and returns both.

  Two fields are history variables, which no method reads: \<open>broadcasts\<close> lists the calls of
  \<open>SendTransaction\<close>, each with the book and the mined nonces known at that moment, and \<open>minedNonces\<close> the nonces of the
  transactions the watcher found mined, by a receipt or by the node's word for one without a
  receipt. Request handlers may act on the shared order book at any time: \<open>interfere\<close> lets them
  do so before each access of the watcher to the book.
\<close>

section \<open>State\<close>

definition settleMaxAgeSec :: int where "settleMaxAgeSec = 300"
definition payoutDecimals :: int where "payoutDecimals = 6"
definition settleAttempts :: nat where "settleAttempts = 3"
definition pendingDropChecks :: int where "pendingDropChecks = 3"
definition pendingReplacementAge :: int where "pendingReplacementAge = 30 * second_ns"

definition flrUsdFeedID :: bytes where
  "flrUsdFeedID = byte 1 # ''FLR/USD'' @ replicate 13 (byte 0)"

record pendingSettlement =
  txHash :: hash
  nonce :: uint64
  gasPrice :: int
  triggerPrice :: int
  firstSeen :: gotime
  missingChecks :: int

record broadcast =
  b_order :: uint64
  b_trigger :: int
  b_tx :: transaction
  b_book :: Store
  b_mined :: "uint64 list"

record Watcher =
  wstore :: Store
  vault :: address
  from_addr :: address
  ftso :: address
  chainID :: "int option"
  pending :: "(uint64, pendingSettlement) gomap"
  nonceOwners :: "(uint64, uint64) gomap"
  nextNonce :: uint64
  nonceReady :: bool
  broadcasts :: "broadcast list"
  minedNonces :: "uint64 list"

type_synonym 'w wst = "Watcher \<times> 'w"

datatype watcher_error =
    PackError string | CallError rpc_error | UnpackError string | TypeError
  | FeedFuture int | FeedStale int | PriceError watcher_error
  | NonceOwned uint64 uint64 | NonceFetch rpc_error | NonceExhausted
  | GasPriceError rpc_error | GasError rpc_error | ChainIdError rpc_error
  | SignError string | SendError rpc_error | Reverted hash | NilTrigger
  | PendingTransaction pendingSettlement rpc_error

definition interfere :: "'w chain_env \<Rightarrow> 'w wst \<Rightarrow> 'w wst" where
  "interfere e st = (case st of (w, x) \<Rightarrow> (case env_handlers e x of (ops, x') \<Rightarrow>
     (w\<lparr>wstore := fold (\<lambda>h. apply_store_op (handler_store_op h)) ops (wstore w)\<rparr>, x')))"

definition w_get :: "'w chain_env \<Rightarrow> uint64 \<Rightarrow> 'w wst \<Rightarrow> Order option \<times> 'w wst" where
  "w_get e i st = (case interfere e st of (w, x) \<Rightarrow> (Get i (wstore w), (w, x)))"

definition w_effective :: "'w chain_env \<Rightarrow> uint64 \<Rightarrow> 'w wst \<Rightarrow> int option \<times> 'w wst" where
  "w_effective e i st = (case interfere e st of (w, x) \<Rightarrow> (EffectiveTrigger i (wstore w), (w, x)))"

definition w_mark :: "'w chain_env \<Rightarrow> uint64 \<Rightarrow> 'w wst \<Rightarrow> 'w wst" where
  "w_mark e i st = (case interfere e st of (w, x) \<Rightarrow>
     (w\<lparr>wstore := snd (MarkExecuted i (wstore w))\<rparr>, x))"

definition w_delete :: "'w chain_env \<Rightarrow> uint64 \<Rightarrow> 'w wst \<Rightarrow> 'w wst" where
  "w_delete e i st = (case interfere e st of (w, x) \<Rightarrow>
     (w\<lparr>wstore := snd (Delete i (wstore w))\<rparr>, x))"

definition NewWatcher :: "(string \<Rightarrow> string + address) \<Rightarrow> Store \<Rightarrow> address \<Rightarrow> string \<Rightarrow> string + Watcher" where
  "NewWatcher key_address s v executorKeyHex =
     (case key_address (TrimPrefix executorKeyHex ''0x'') of
        Inl m \<Rightarrow> Inl (''parsing executor private key: '' @ m)
      | Inr a \<Rightarrow> Inr \<lparr>wstore = s, vault = v, from_addr = a, ftso = 0, chainID = None, pending = [],
          nonceOwners = [], nextNonce = 0, nonceReady = False, broadcasts = [],
          minedNonces = []\<rparr>)"

section \<open>Reading the chain\<close>

definition normalizePrice :: "int \<Rightarrow> int8 \<Rightarrow> int" where
  "normalizePrice v d = (let shift = payoutDecimals - sint d
     in if shift \<ge> 0 then v * 10 ^ nat shift else v div 10 ^ nat (- shift))"

definition ftsoAddress :: "'w chain_env \<Rightarrow> 'w wst \<Rightarrow> (watcher_error + address) \<times> 'w wst" where
  "ftsoAddress e st = (case st of (w, x) \<Rightarrow>
     if ftso w \<noteq> 0 then (Inr (ftso w), st)
     else (case abi_pack_FTSO_V2 e of
         Inl m \<Rightarrow> (Inl (PackError m), st)
       | Inr input \<Rightarrow> (case CallContract e (vault w) input x of
           (Inl er, x') \<Rightarrow> (Inl (CallError er), (w, x'))
         | (Inr out, x') \<Rightarrow> (case abi_unpack_FTSO_V2 e out of
             Inl m \<Rightarrow> (Inl (UnpackError m), (w, x'))
           | Inr (VAddress a) \<Rightarrow> (Inr a, (w\<lparr>ftso := a\<rparr>, x'))
           | Inr _ \<Rightarrow> (Inl TypeError, (w, x'))))))"

definition currentPrice :: "'w chain_env \<Rightarrow> 'w wst \<Rightarrow> (watcher_error + (int \<times> uint64)) \<times> 'w wst" where
  "currentPrice e st = (case ftsoAddress e st of
     (Inl er, st') \<Rightarrow> (Inl er, st')
   | (Inr f, (w, x)) \<Rightarrow> (case abi_pack_getFeedById e flrUsdFeedID of
       Inl m \<Rightarrow> (Inl (PackError m), (w, x))
     | Inr input \<Rightarrow> (case CallContract e f input x of
         (Inl er, x') \<Rightarrow> (Inl (CallError er), (w, x'))
       | (Inr out, x') \<Rightarrow> (case abi_unpack_getFeedById e out of
           Inl m \<Rightarrow> (Inl (UnpackError m), (w, x'))
         | Inr (VBig v, VInt8 d, VUint64 ts) \<Rightarrow> (Inr (normalizePrice v d, ts), (w, x'))
         | Inr _ \<Rightarrow> (Inl TypeError, (w, x'))))))"

definition onChainOrderStatus :: "'w chain_env \<Rightarrow> uint64 \<Rightarrow> 'w wst \<Rightarrow> (watcher_error + uint8) \<times> 'w wst" where
  "onChainOrderStatus e i st = (case st of (w, x) \<Rightarrow> (case abi_pack_orders e (uint i) of
     Inl m \<Rightarrow> (Inl (PackError m), st)
   | Inr input \<Rightarrow> (case CallContract e (vault w) input x of
       (Inl er, x') \<Rightarrow> (Inl (CallError er), (w, x'))
     | (Inr out, x') \<Rightarrow> (case abi_unpack_orders e out of
         Inl m \<Rightarrow> (Inl (UnpackError m), (w, x'))
       | Inr (_, _, VUint8 s) \<Rightarrow> (Inr s, (w, x'))
       | Inr _ \<Rightarrow> (Inl TypeError, (w, x'))))))"

definition ensureChainID :: "'w chain_env \<Rightarrow> 'w wst \<Rightarrow> watcher_error option \<times> 'w wst" where
  "ensureChainID e st = (case st of (w, x) \<Rightarrow>
     if chainID w \<noteq> None then (None, st)
     else (case ChainID e x of
         (Inl er, x') \<Rightarrow> (Some (ChainIdError er), (w, x'))
       | (Inr c, x') \<Rightarrow> (None, (w\<lparr>chainID := Some c\<rparr>, x'))))"

definition packSettleCalldata :: "'w chain_env \<Rightarrow> uint64 \<Rightarrow> int option \<Rightarrow> int \<Rightarrow> string + bytes" where
  "packSettleCalldata e i trigger maxAge = abi_pack_settle e (uint i) trigger maxAge"

section \<open>Nonces\<close>

definition owned_nonce :: "(uint64, uint64) gomap \<Rightarrow> uint64 \<Rightarrow> uint64 option" where
  "owned_nonce m i = map_option fst (List.find (\<lambda>(n, own). own = i) m)"

lemma max_uint64_step: "c \<noteq> - 1 \<Longrightarrow> unat (c + 1 :: uint64) = unat c + 1"
  by (metis add.commute add_eq_0_iff unatSuc Suc_eq_plus1)

function next_free :: "(uint64, uint64) gomap \<Rightarrow> uint64 \<Rightarrow> uint64 option" where
  "next_free m c = (if gm_get m c = None then Some c
     else if c = - 1 then None else next_free m (c + 1))"
  by pat_completeness auto
termination
proof (relation "measure (\<lambda>(m, c). 2 ^ 64 - unat c)")
  fix m :: "(uint64, uint64) gomap" and c :: uint64
  assume "c \<noteq> - 1"
  then have "unat (c + 1) = unat c + 1" by (rule max_uint64_step)
  moreover have "unat (c + 1) < 2 ^ 64" using unsigned_less [of "c + 1"] by simp
  ultimately show "((m, c + 1), (m, c)) \<in> measure (\<lambda>(m, c). 2 ^ 64 - unat c)" by simp
qed simp

declare next_free.simps [simp del]

definition reserveNonce :: "'w chain_env \<Rightarrow> uint64 \<Rightarrow> 'w wst \<Rightarrow> (watcher_error + uint64) \<times> 'w wst" where
  "reserveNonce e i st = (case st of (w, x) \<Rightarrow> (case owned_nonce (nonceOwners w) i of
     Some n \<Rightarrow> (Inr n, st)
   | None \<Rightarrow> (case PendingNonceAt e (from_addr w) x of
       (Inl er, x') \<Rightarrow> (Inl (NonceFetch er), (w, x'))
     | (Inr remote, x') \<Rightarrow>
         (let candidate = (if nonceReady w \<and> nextNonce w > remote then nextNonce w else remote)
          in case next_free (nonceOwners w) candidate of
              None \<Rightarrow> (Inl NonceExhausted, (w, x'))
            | Some c \<Rightarrow> if c = - 1 then (Inl NonceExhausted, (w, x'))
                else (Inr c, (w\<lparr>nonceOwners := gm_put c i (nonceOwners w), nextNonce := c + 1,
                       nonceReady := True\<rparr>, x'))))))"

definition releaseNonce :: "uint64 \<Rightarrow> uint64 \<Rightarrow> bool \<Rightarrow> Watcher \<Rightarrow> Watcher" where
  "releaseNonce i n consumed w =
     (if gm_get (nonceOwners w) n \<noteq> Some i then w
      else (let w' = w\<lparr>nonceOwners := gm_del n (nonceOwners w)\<rparr>
            in if \<not> consumed \<and> (\<not> nonceReady w \<or> n < nextNonce w)
               then w'\<lparr>nextNonce := n, nonceReady := True\<rparr> else w'))"

definition releaseOrderNonce :: "uint64 \<Rightarrow> bool \<Rightarrow> Watcher \<Rightarrow> Watcher" where
  "releaseOrderNonce i consumed w = (case owned_nonce (nonceOwners w) i of
     None \<Rightarrow> w | Some n \<Rightarrow> releaseNonce i n consumed w)"

end
