(* ===== verification/Config.thy ===== *)
theory Config
  imports Go_Strings
begin

text \<open>
  \<open>internal/config/config.go\<close>: the constants of the extension and its settings after the
  environment has overridden the defaults. \<open>os.Getenv\<close> is an argument: the empty string for a
  variable that is not set.
\<close>

definition Version :: string where "Version = ''0.2.0''"
definition OPTypeDarkstop :: string where "OPTypeDarkstop = ''DARKSTOP''"
definition OPCommandPlaceOrder :: string where "OPCommandPlaceOrder = ''PLACE_ORDER''"
definition OPCommandCancelOrder :: string where "OPCommandCancelOrder = ''CANCEL_ORDER''"
definition TimeoutShutdown :: int where "TimeoutShutdown = 5 * second_ns"
definition WatcherInterval :: int where "WatcherInterval = 2 * second_ns"

record settings =
  ExtensionPort :: int
  SignPort :: int
  TypesServerPort :: int
  ChainURL :: string
  VaultAddress :: string
  ExecutorPrivateKey :: string
  EnclavePrivateKey :: string

definition default_settings :: settings where
  "default_settings = \<lparr>ExtensionPort = 8080, SignPort = 9090, TypesServerPort = 8100, ChainURL = [],
     VaultAddress = [], ExecutorPrivateKey = [], EnclavePrivateKey = []\<rparr>"

definition override_port :: "string \<Rightarrow> int \<Rightarrow> int" where
  "override_port s d = (if s \<noteq> [] then (case Atoi s of Some v \<Rightarrow> v | None \<Rightarrow> d) else d)"

definition init_settings :: "(string \<Rightarrow> string) \<Rightarrow> settings" where
  "init_settings getenv = default_settings\<lparr>
     ChainURL := getenv ''CHAIN_URL'', VaultAddress := getenv ''VAULT_ADDRESS'',
     ExecutorPrivateKey := getenv ''EXECUTOR_PRIVATE_KEY'',
     EnclavePrivateKey := getenv ''ENCLAVE_PRIVATE_KEY'',
     ExtensionPort := override_port (getenv ''EXTENSION_PORT'') (ExtensionPort default_settings),
     SignPort := override_port (getenv ''SIGN_PORT'') (SignPort default_settings),
     TypesServerPort := override_port (getenv ''TYPES_SERVER_PORT'') (TypesServerPort default_settings)\<rparr>"

end
