(* ===== verification/Go_Fmt.thy ===== *)
theory Go_Fmt
  imports Go_Json
begin

text \<open>
  The text output of Go's library the tools rely on: the strings of \<open>encoding/json\<close> with the HTML
  escapes of its encoder, and \<open>strconv.Quote\<close> (the \<open>%q\<close> verb). What \<open>json_escape\<close> writes,
  \<open>scan_string\<close> and \<open>unquote\<close> of the decoder's model read back. The table behind
  \<open>unicode.IsPrint\<close> is a parameter above ASCII.
\<close>

definition nl :: string where
  "nl = [CHR 0x0A]"

definition em_dash :: string where
  "em_dash = utf8_encode 0x2014"

section \<open>JSON strings\<close>

definition short_escapes :: "(char \<times> char) list" where
  "short_escapes = [(CHR 0x22, CHR 0x22), (CHR 0x5C, CHR 0x5C), (CHR 0x08, CHR ''b''),
     (CHR 0x0C, CHR ''f''), (CHR 0x0A, CHR ''n''), (CHR 0x0D, CHR ''r''), (CHR 0x09, CHR ''t'')]"

definition json_escape_byte :: "char \<Rightarrow> bytes" where
  "json_escape_byte c = (case map_of short_escapes c of
       Some e \<Rightarrow> [CHR 0x5C, e]
     | None \<Rightarrow> if code c < 32 \<or> c \<in> set ''<>&''
         then CHR 0x5C # ''u00'' @ [hex_digit (code c div 16), hex_digit (code c mod 16)]
         else [c])"

definition line_separator :: "bytes \<Rightarrow> bool" where
  "line_separator s \<longleftrightarrow> take 3 s = utf8_encode 0x2028 \<or> take 3 s = utf8_encode 0x2029"

function json_escape :: "bytes \<Rightarrow> bytes" where
  "json_escape s = (case s of
     [] \<Rightarrow> []
   | c # cs \<Rightarrow>
      if code c < 0x80 then json_escape_byte c @ json_escape cs
      else if utf8_len s = 0 then CHR 0x5C # ''ufffd'' @ json_escape cs
      else if line_separator s
        then CHR 0x5C # ''u202'' @ [if take 3 s = utf8_encode 0x2028 then CHR ''8'' else CHR ''9'']
          @ json_escape (drop 3 s)
      else take (utf8_len s) s @ json_escape (drop (utf8_len s) s))"
  by pat_completeness auto
termination
  by (relation "measure length") auto

declare json_escape.simps [simp del]

text \<open>What is left of a string after encoding and decoding: every invalid byte is replaced.\<close>

function to_valid_utf8 :: "bytes \<Rightarrow> bytes" where
  "to_valid_utf8 s = (case s of
     [] \<Rightarrow> []
   | c # cs \<Rightarrow>
      if utf8_len s = 0 then replacement_char @ to_valid_utf8 cs
      else take (utf8_len s) s @ to_valid_utf8 (drop (utf8_len s) s))"
  by pat_completeness auto
termination
  by (relation "measure length") auto

declare to_valid_utf8.simps [simp del]

lemma to_valid_ascii: "code c < 128 \<Longrightarrow> to_valid_utf8 (c # s) = c # to_valid_utf8 s"
  by (subst to_valid_utf8.simps) (simp add: utf8_len_ascii)

lemma to_valid_Nil [simp]: "to_valid_utf8 [] = []"
  by (simp add: to_valid_utf8.simps)

lemma to_valid_plain: "list_all (\<lambda>c. code c < 128) s \<Longrightarrow> to_valid_utf8 s = s"
  by (induction s) (simp_all add: to_valid_ascii)

lemma utf8_len_prefix: "utf8_len s = n \<Longrightarrow> 0 < n \<Longrightarrow> utf8_len (take n s @ r) = n"
proof -
  assume a: "utf8_len s = n" "0 < n"
  then have "n \<le> length s" using utf8_len_le [of s] by simp
  moreover from a have "n \<le> 4 \<and> utf8_seq (map code (take n s)) \<and> (\<forall>k<n. \<not> utf8_seq (map code (take k s)))"
    using utf8_len_iff by blast
  ultimately have "n \<le> 4 \<and> utf8_seq (map code (take n (take n s @ r)))
      \<and> (\<forall>k<n. \<not> utf8_seq (map code (take k (take n s @ r))))"
    by simp
  then show ?thesis using utf8_len_iff by blast
qed

lemma unquote_seq:
  assumes "utf8_len s = n" and "0 < n" and "hd s \<noteq> CHR 0x5C"
  shows "unquote (take n s @ r) = take n s @ unquote r"
proof -
  have le: "n \<le> length s" using assms(1) utf8_len_le by blast
  then obtain c cs m where s: "s = c # cs" and m: "n = Suc m"
    using assms(2) by (cases s; cases n) auto
  have len: "utf8_len (take n s @ r) = n" using utf8_len_prefix assms(1,2) by blast
  have "take n s @ r = c # (take m cs @ r)" by (simp add: s m)
  then show ?thesis
    using len assms(3) le m s by (subst unquote.simps) simp
qed

lemma escape_byte_cases:
  assumes "code c < 128"
  obtains (verbatim) "c \<noteq> CHR 0x22" "c \<noteq> CHR 0x5C" "32 \<le> code c" "json_escape_byte c = [c]"
  | (letter) e where "json_escape_byte c = [CHR 0x5C, e]" "(c, e) \<in> set short_escapes"
  | (hex) "json_escape_byte c = CHR 0x5C # ''u00'' @ [hex_digit (code c div 16), hex_digit (code c mod 16)]"
proof (cases "map_of short_escapes c")
  case None
  then have "c \<noteq> CHR 0x22" "c \<noteq> CHR 0x5C" by (auto simp: short_escapes_def)
  with None verbatim hex show ?thesis
    by (cases "code c < 32 \<or> c \<in> set ''<>&''") (auto simp: json_escape_byte_def)
next
  case (Some e)
  with letter show ?thesis by (auto simp: json_escape_byte_def dest: map_of_SomeD)
qed

lemma short_escape_letter: "(c, e) \<in> set short_escapes \<Longrightarrow>
    escape_value e = c \<and> e \<noteq> CHR ''u'' \<and> e \<in> set (CHR 0x22 # CHR 0x5C # ''/bfnrt'')"
  by (auto simp: short_escapes_def escape_value_def)

lemma hex_val_0 [simp]: "hex_val (CHR ''0'') = Some 0"
  by (simp add: hex_val_def code_def)

lemma getu4_hex: "a < 16 \<Longrightarrow> b < 16 \<Longrightarrow>
    getu4 (CHR 0x5C # ''u00'' @ [hex_digit a, hex_digit b] @ r) = Some (16 * a + b)"
  by simp

lemma getu4_letter: "e \<noteq> CHR ''u'' \<Longrightarrow> getu4 (CHR 0x5C # e # r) = None"
  by (cases "(CHR 0x5C # e # r)" rule: getu4.cases) auto

lemma scan_string_letter: "e \<noteq> CHR ''u'' \<Longrightarrow> e \<in> set (CHR 0x22 # CHR 0x5C # ''/bfnrt'') \<Longrightarrow>
    scan_string (CHR 0x5C # e # r) = map_option (apfst (append [CHR 0x5C, e])) (scan_string r)"
  by (subst scan_string.simps) (simp add: getu4_letter code_def)

lemma scan_string_hex: "getu4 (CHR 0x5C # s @ r) \<noteq> None \<Longrightarrow> length s = 5 \<Longrightarrow>
    scan_string (CHR 0x5C # s @ r) = map_option (apfst (append (CHR 0x5C # s))) (scan_string r)"
  by (subst scan_string.simps) (simp add: code_def del: getu4.simps)

lemma append_one: "(@) [c] = (#) c"
  by (rule ext) simp

lemma scan_string_other: "c \<noteq> CHR 0x22 \<Longrightarrow> c \<noteq> CHR 0x5C \<Longrightarrow> 32 \<le> code c \<Longrightarrow>
    scan_string (c # r) = map_option (apfst (Cons c)) (scan_string r)"
  by (subst scan_string.simps) simp

lemma unquote_hex: "getu4 (CHR 0x5C # s @ r) = Some v \<Longrightarrow> length s = 5 \<Longrightarrow> v < 0xD800 \<or> 0xE000 \<le> v \<Longrightarrow>
    unquote (CHR 0x5C # s @ r) = utf8_encode v @ unquote r"
  by (subst unquote.simps) (auto simp del: getu4.simps)

lemma unquote_letter: "e \<noteq> CHR ''u'' \<Longrightarrow> unquote (CHR 0x5C # e # r) = escape_value e # unquote r"
  by (subst unquote.simps) (simp add: getu4_letter)

lemma code_div_16: "code c < 128 \<Longrightarrow> code c div 16 < 16"
  by (simp add: less_mult_imp_div_less)

lemma utf8_encode_ascii: "code c < 128 \<Longrightarrow> utf8_encode (code c) = [c]"
  by (simp add: utf8_encode_def)

lemma scan_escape_byte:
  assumes "code c < 128"
  shows "scan_string (json_escape_byte c @ r) = map_option (apfst (append (json_escape_byte c))) (scan_string r)"
  using assms
proof (cases rule: escape_byte_cases [of c])
  case verbatim
  then show ?thesis by (simp add: scan_string_other append_one)
next
  case (letter e)
  then show ?thesis using short_escape_letter [of c e] by (simp add: scan_string_letter)
next
  case hex
  then show ?thesis
    using scan_string_hex [of "''u00'' @ [hex_digit (code c div 16), hex_digit (code c mod 16)]" r]
      code_div_16 [of c] assms by simp
qed

lemma unquote_escape_byte:
  assumes "code c < 128"
  shows "unquote (json_escape_byte c @ r) = c # unquote r"
  using assms
proof (cases rule: escape_byte_cases [of c])
  case verbatim
  then show ?thesis using unquote_seq [of "[c]" 1 r] assms by (simp add: utf8_len_ascii)
next
  case (letter e)
  then show ?thesis using short_escape_letter [of c e] by (simp add: unquote_letter)
next
  case hex
  then show ?thesis
    using unquote_hex [of "''u00'' @ [hex_digit (code c div 16), hex_digit (code c mod 16)]" r "code c"]
      code_div_16 [of c] utf8_encode_ascii [of c] assms by simp
qed

lemma scan_string_high: "list_all (\<lambda>c. 128 \<le> code c) w \<Longrightarrow>
    scan_string (w @ r) = map_option (apfst (append w)) (scan_string r)"
proof (induction w)
  case Nil
  then show ?case by (simp add: option.map_ident apfst_def map_prod_def)
next
  case (Cons c w)
  then have "c \<noteq> CHR 0x22" "c \<noteq> CHR 0x5C" by (auto simp: code_def)
  with Cons show ?case by (simp add: scan_string_other option.map_comp comp_def apfst_def map_prod_def case_prod_beta)
qed

lemma utf8_high:
  assumes "utf8_len (c # cs) = n" and "0 < n" and "128 \<le> code c"
  shows "list_all (\<lambda>d. 128 \<le> code d) (take n (c # cs))"
proof -
  have "utf8_seq (map code (take n (c # cs)))" using assms(1,2) utf8_len_iff by blast
  then show ?thesis
    using assms(3) by (auto simp: utf8_seq_def take_Cons split: list.splits nat.splits if_splits)
qed

lemma json_escape_Nil [simp]: "json_escape [] = []"
  by (simp add: json_escape.simps)

lemma scan_unicode_escape: "hex_val d = Some v \<Longrightarrow>
    scan_string (CHR 0x5C # ''u202'' @ [d] @ r) = map_option (apfst (append (CHR 0x5C # ''u202'' @ [d]))) (scan_string r)"
  using scan_string_hex [of "''u202'' @ [d]" r] by (simp add: hex_val_def [of "CHR ''2''"] code_def [of "CHR ''2''"])

lemma map_option_append: "map_option (apfst (append v)) (map_option (apfst (append w)) x) = map_option (apfst (\<lambda>a. v @ w @ a)) x"
  by (cases x) auto

lemma separator_bytes: "utf8_encode 0x2028 = [byte 0xE2, byte 0x80, byte 0xA8]"
  "utf8_encode 0x2029 = [byte 0xE2, byte 0x80, byte 0xA9]"
  by (simp_all add: utf8_encode_def)

lemma separator_len: "line_separator s \<Longrightarrow> utf8_len s = 3"
proof -
  assume "line_separator s"
  then have "take 3 s = [byte 0xE2, byte 0x80, byte 0xA8] \<or> take 3 s = [byte 0xE2, byte 0x80, byte 0xA9]"
    by (simp only: line_separator_def separator_bytes)
  then have "s = byte 0xE2 # byte 0x80 # byte 0xA8 # drop 3 s \<or> s = byte 0xE2 # byte 0x80 # byte 0xA9 # drop 3 s"
    by (metis append_Cons append_Nil append_take_drop_id)
  moreover have "utf8_len (byte 0xE2 # byte 0x80 # byte 0xA8 # r) = 3" for r
    by (simp add: utf8_len_def utf8_seq_def)
  moreover have "utf8_len (byte 0xE2 # byte 0x80 # byte 0xA9 # r) = 3" for r
    by (simp add: utf8_len_def utf8_seq_def)
  ultimately show ?thesis by metis
qed

lemma replacement_rune: "utf8_encode 0xFFFD = replacement_char"
  by (simp add: replacement_char_def)

lemma json_escape_simps:
  "code c < 128 \<Longrightarrow> json_escape (c # cs) = json_escape_byte c @ json_escape cs"
  "128 \<le> code c \<Longrightarrow> utf8_len (c # cs) = 0 \<Longrightarrow> json_escape (c # cs) = CHR 0x5C # ''ufffd'' @ json_escape cs"
  "128 \<le> code c \<Longrightarrow> line_separator (c # cs) \<Longrightarrow> json_escape (c # cs) = CHR 0x5C # ''u202''
     @ [if take 3 (c # cs) = utf8_encode 0x2028 then CHR ''8'' else CHR ''9''] @ json_escape (drop 3 (c # cs))"
  "128 \<le> code c \<Longrightarrow> utf8_len (c # cs) = n \<Longrightarrow> 0 < n \<Longrightarrow> \<not> line_separator (c # cs) \<Longrightarrow>
     json_escape (c # cs) = take n (c # cs) @ json_escape (drop n (c # cs))"
  by (subst json_escape.simps, simp add: separator_len)+

lemma to_valid_simps:
  "utf8_len (c # cs) = 0 \<Longrightarrow> to_valid_utf8 (c # cs) = replacement_char @ to_valid_utf8 cs"
  "utf8_len (c # cs) = n \<Longrightarrow> 0 < n \<Longrightarrow> to_valid_utf8 (c # cs) = take n (c # cs) @ to_valid_utf8 (drop n (c # cs))"
  by (subst to_valid_utf8.simps, simp)+

text \<open>How a string is read, from the front.\<close>

lemma escape_induct [case_names Nil ascii invalid sep seq]:
  assumes "P []"
    and "\<And>c cs. code c < 128 \<Longrightarrow> P cs \<Longrightarrow> P (c # cs)"
    and "\<And>c cs. 128 \<le> code c \<Longrightarrow> utf8_len (c # cs) = 0 \<Longrightarrow> P cs \<Longrightarrow> P (c # cs)"
    and "\<And>c cs. 128 \<le> code c \<Longrightarrow> line_separator (c # cs) \<Longrightarrow> P (drop 3 (c # cs)) \<Longrightarrow> P (c # cs)"
    and "\<And>c cs n. 128 \<le> code c \<Longrightarrow> utf8_len (c # cs) = n \<Longrightarrow> 0 < n \<Longrightarrow> \<not> line_separator (c # cs) \<Longrightarrow>
       P (drop n (c # cs)) \<Longrightarrow> P (c # cs)"
  shows "P s"
proof (induction s rule: json_escape.induct)
  case (1 s)
  show ?case
  proof (cases s)
    case (Cons c cs)
    have ge: "128 \<le> code c" if "\<not> code c < 128" using that by simp
    show ?thesis
      using 1 [OF Cons] assms(2-5) [of c cs] ge Cons separator_len [of "c # cs"]
      by (metis gr0I zero_neq_numeral)
  qed (simp add: assms(1))
qed

text \<open>The encoder's string ends where the decoder finds its end, and reads back as its valid form.\<close>

lemma scan_json_escape:
  "scan_string (json_escape s @ r) = map_option (apfst (append (json_escape s))) (scan_string r)"
proof (induction s rule: escape_induct)
  case Nil
  then show ?case by (cases "scan_string r") auto
next
  case (ascii c cs)
  then show ?case by (simp add: json_escape_simps(1) scan_escape_byte map_option_append)
next
  case (invalid c cs)
  then show ?case
    using scan_string_hex [of "''ufffd''" "json_escape cs @ r"]
    by (simp add: json_escape_simps(2) map_option_append hex_val_def code_def)
next
  case (sep c cs)
  define d where "d = (if take 3 (c # cs) = utf8_encode 0x2028 then CHR ''8'' else CHR ''9'')"
  have "hex_val d \<noteq> None" by (simp add: d_def hex_val_def code_def)
  then obtain v where "hex_val d = Some v" by blast
  from sep scan_unicode_escape [OF this] json_escape_simps(3) [OF sep(1,2)] show ?case
    unfolding d_def [symmetric] by (simp add: map_option_append)
next
  case (seq c cs n)
  then have "list_all (\<lambda>d. 128 \<le> code d) (take n (c # cs))" by (blast intro: utf8_high)
  then show ?case
    using seq scan_string_high by (simp add: json_escape_simps(4) map_option_append)
qed

lemma unquote_unicode: "getu4 (CHR 0x5C # ''u202'' @ [d] @ r) = Some v \<Longrightarrow> v < 0xD800 \<Longrightarrow>
    unquote (CHR 0x5C # ''u202'' @ [d] @ r) = utf8_encode v @ unquote r"
  using unquote_hex [of "''u202'' @ [d]" r v] by simp

lemma unquote_json_escape: "unquote (json_escape s) = to_valid_utf8 s"
proof (induction s rule: escape_induct)
  case Nil
  then show ?case by (simp add: unquote.simps)
next
  case (ascii c cs)
  then show ?case by (simp add: json_escape_simps(1) unquote_escape_byte to_valid_ascii)
next
  case (invalid c cs)
  then show ?case
    using unquote_hex [of "''ufffd''" "json_escape cs" "0xFFFD"]
    by (simp add: json_escape_simps(2) to_valid_simps(1) replacement_rune hex_val_def code_def)
next
  case (sep c cs)
  let ?r = "json_escape (drop 3 (c # cs))"
  have "unquote (CHR 0x5C # ''u202'' @ [if take 3 (c # cs) = utf8_encode 0x2028 then CHR ''8'' else CHR ''9''] @ ?r)
      = take 3 (c # cs) @ unquote ?r"
    using sep(2) unquote_unicode [of "CHR ''8''" ?r "0x2028"] unquote_unicode [of "CHR ''9''" ?r "0x2029"]
    by (auto simp: line_separator_def hex_val_def code_def)
  then show ?case
    using sep json_escape_simps(3) [OF sep(1,2)] to_valid_simps(2) [OF separator_len [OF sep(2)]] by simp
next
  case (seq c cs n)
  then have "hd (c # cs) \<noteq> CHR 0x5C" by (auto simp: code_def)
  from unquote_seq [OF seq(2,3) this] seq show ?case
    by (simp add: json_escape_simps(4) to_valid_simps(2))
qed

definition json_string :: "bytes \<Rightarrow> bytes" where
  "json_string s = CHR 0x22 # json_escape s @ [CHR 0x22]"

lemma parse_json_string: "parse_value (Suc n) (json_string s @ r) = Some (JStr (to_valid_utf8 s), r)"
  by (simp add: json_string_def parse_value.simps is_space_def scan_json_escape scan_string_quote
      unquote_json_escape)

section \<open>Indented output\<close>

definition indent :: "nat \<Rightarrow> string" where
  "indent n = replicate n (CHR '' '')"

definition member_text :: "nat \<Rightarrow> bytes \<times> bytes \<Rightarrow> bytes" where
  "member_text n kv = indent n @ quoted (fst kv) @ CHR '':'' # CHR '' '' # snd kv"

definition object_text :: "nat \<Rightarrow> (bytes \<times> bytes) list \<Rightarrow> bytes" where
  "object_text n kvs = (if kvs = [] then ''{}'' else CHR ''{'' # nl
     @ str_join (CHR '','' # nl) (map (member_text (n + 2)) kvs) @ nl @ indent n @ ''}'')"

definition array_text :: "nat \<Rightarrow> bytes list \<Rightarrow> bytes" where
  "array_text n vs = (if vs = [] then ''[]'' else CHR ''['' # nl
     @ str_join (CHR '','' # nl) (map (append (indent (n + 2))) vs) @ nl @ indent n @ '']'')"

text \<open>White space before a value, a member or an element does not matter.\<close>

lemma skip_ws_append: "list_all is_space w \<Longrightarrow> skip_ws (w @ s) = skip_ws s"
  by (induction w) (simp_all add: skip_ws_def)

lemma parse_value_space: "list_all is_space w \<Longrightarrow> parse_value n (w @ s) = parse_value n s"
  by (cases n) (simp_all add: parse_value.simps skip_ws_append)

lemma parse_members_space: "list_all is_space w \<Longrightarrow> parse_members n first (w @ s) = parse_members n first s"
  by (cases n) (simp_all add: parse_members.simps next_is_def parse_key_def skip_ws_append)

lemma parse_elems_space: "list_all is_space w \<Longrightarrow> parse_elems n first (w @ s) = parse_elems n first s"
  by (cases n) (simp_all add: parse_elems.simps next_is_def skip_ws_append parse_value_space)

lemma spaces [simp]: "list_all is_space nl" "list_all is_space (indent n)"
  by (auto simp: nl_def indent_def is_space_def list_all_iff)

lemma member_tail_space: "list_all is_space w \<Longrightarrow> member_tail n (w @ s) = member_tail n s"
  by (simp add: member_tail_def skip_ws_append)

text \<open>\<open>t\<close> is a text of \<open>j\<close> at any fuel from \<open>k\<close> on, whatever follows it.\<close>

definition text_of :: "nat \<Rightarrow> bytes \<Rightarrow> json \<Rightarrow> bool" where
  "text_of k t j \<longleftrightarrow> (\<forall>n r. k \<le> n \<longrightarrow> parse_value n (t @ r) = Some (j, r))"

lemma text_ofD: "text_of k t j \<Longrightarrow> k \<le> n \<Longrightarrow> parse_value n (t @ r) = Some (j, r)"
  by (simp add: text_of_def)

lemma text_of_mono: "text_of k t j \<Longrightarrow> k \<le> m \<Longrightarrow> text_of m t j"
  by (simp add: text_of_def)

lemma text_of_string: "text_of 1 (json_string s) (JStr (to_valid_utf8 s))"
  unfolding text_of_def by (auto simp: Suc_le_eq gr0_conv_Suc parse_json_string)

lemma parse_member_text:
  assumes "list_all plain k" and "text_of m v j" and "m \<le> n"
  shows "parse_members (Suc n) first (member_text i (k, v) @ r) = map_option (apfst (Cons (k, j))) (member_tail n r)"
proof -
  let ?t = "quoted k @ CHR '':'' # CHR '' '' # v @ r"
  have "\<not> next_is (CHR ''}'') ?t" by (simp add: quoted_def next_is_def is_space_def)
  moreover have "parse_key ?t = Some (k, CHR '' '' # v @ r)"
    using parse_key_field [OF assms(1), of "CHR '' '' # v" r] by (simp add: json_field_def quoted_def)
  moreover have "parse_value n (CHR '' '' # v @ r) = Some (j, r)"
    using parse_value_space [of "'' ''" n "v @ r"] text_ofD [OF assms(2,3), of r] by (simp add: is_space_def)
  ultimately show ?thesis
    using parse_members_space [of "indent i" "Suc n" first ?t] parse_members_step [of first ?t n]
    by (simp add: member_text_def)
qed

lemma parse_members_text:
  assumes "kvs \<noteq> []" and "list_all (\<lambda>((k, v), j). list_all plain k \<and> text_of m v j) (zip kvs js)"
    and "length js = length kvs" and "m + length kvs \<le> n"
  shows "parse_members n first (str_join (CHR '','' # nl) (map (member_text i) kvs) @ nl @ indent i' @ CHR ''}'' # r)
    = Some (zip (map fst kvs) js, r)"
  using assms
proof (induction kvs arbitrary: n js first)
  case Nil
  then show ?case by simp
next
  case (Cons kv kvs)
  obtain k v where kv: "kv = (k, v)" by (cases kv)
  from Cons.prems(3) obtain j js' where js: "js = j # js'" by (cases js) auto
  from Cons.prems(4) obtain n' where n: "n = Suc n'" "m + length kvs \<le> n'" by (cases n) auto
  have k: "list_all plain k" "text_of m v j" using Cons.prems(2) by (simp_all add: kv js)
  have step: "parse_members n first (member_text i kv @ q) = map_option (apfst (Cons (k, j))) (member_tail n' q)" for q
    using parse_member_text [OF k] n by (simp add: kv)
  show ?case
  proof (cases kvs)
    case Nil
    then show ?thesis
      using step [of "nl @ indent i' @ CHR ''}'' # r"] Cons.prems(3)
      by (simp add: js kv member_tail_space)
  next
    case (Cons kv' kvs')
    let ?q = "str_join (CHR '','' # nl) (map (member_text i) kvs) @ nl @ indent i' @ CHR ''}'' # r"
    have "parse_members n' False ?q = Some (zip (map fst kvs) js', r)"
      using Cons Cons.prems Cons.IH [of js' n' False] n by (simp add: js kv)
    then show ?thesis
      using step [of "CHR '','' # nl @ ?q"] Cons parse_members_space [of nl n' False ?q] by (simp add: js kv)
  qed
qed

lemma text_of_object:
  assumes "kvs \<noteq> []" and "list_all (\<lambda>((k, v), j). list_all plain k \<and> text_of m v j) (zip kvs js)"
    and "length js = length kvs"
  shows "text_of (m + length kvs + 1) (object_text i kvs) (JObj (zip (map fst kvs) js))"
  unfolding text_of_def
proof (intro allI impI)
  fix n r
  let ?b = "str_join (CHR '','' # nl) (map (member_text (i + 2)) kvs) @ nl @ indent i @ CHR ''}'' # r"
  assume "m + length kvs + 1 \<le> n"
  then obtain n' where n: "n = Suc n'" "m + length kvs \<le> n'" by (cases n) auto
  have "parse_members n' True (nl @ ?b) = Some (zip (map fst kvs) js, r)"
    using parse_members_text [OF assms n(2)] by (simp add: parse_members_space)
  then show "parse_value n (object_text i kvs @ r) = Some (JObj (zip (map fst kvs) js), r)"
    using assms(1) by (simp add: n object_text_def parse_value.simps is_space_def)
qed

definition value_start :: "bytes \<Rightarrow> bool" where
  "value_start v \<longleftrightarrow> (case v of c # _ \<Rightarrow> \<not> is_space c \<and> c \<noteq> CHR '']'' | [] \<Rightarrow> False)"

lemma parse_elems_text:
  assumes "vs \<noteq> []" and "list_all2 (text_of m) vs js" and "m + length vs \<le> n"
    and "list_all value_start vs"
  shows "parse_elems n first (str_join (CHR '','' # nl) (map (append (indent i)) vs) @ nl @ indent i' @ CHR '']'' # r)
    = Some (js, r)"
  using assms
proof (induction vs arbitrary: n js first)
  case Nil
  then show ?case by simp
next
  case (Cons v vs)
  from Cons.prems(2) obtain j js' where js: "js = j # js'" "text_of m v j" "list_all2 (text_of m) vs js'"
    by (auto simp: list_all2_Cons1)
  from Cons.prems(3) obtain n' where n: "n = Suc n'" "m \<le> n'" "m + length vs \<le> n'" by (cases n) auto
  have nx: "\<not> next_is (CHR '']'') (v @ q)" for q
    using Cons.prems(4) by (auto simp: next_is_def value_start_def split: list.splits)
  have v: "parse_value n' (indent i @ v @ q) = Some (j, q)" for q
    using text_ofD [OF js(2) n(2)] by (simp add: parse_value_space)
  have nx': "\<not> next_is (CHR '']'') (indent i @ v @ q)" for q
    using nx [of q] by (simp add: next_is_def skip_ws_append)
  show ?case
  proof (cases vs)
    case Nil
    then show ?thesis
      using v [of "nl @ indent i' @ CHR '']'' # r"] nx' [of "nl @ indent i' @ CHR '']'' # r"] js
      by (simp add: n parse_elems.simps skip_ws_append is_space_def)
  next
    case (Cons v' vs')
    let ?q = "str_join (CHR '','' # nl) (map (append (indent i)) vs) @ nl @ indent i' @ CHR '']'' # r"
    have "parse_elems n' False ?q = Some (js', r)"
      using Cons Cons.prems Cons.IH [of js' n' False] n js by simp
    then show ?thesis
      using Cons v [of "CHR '','' # nl @ ?q"] nx' [of "CHR '','' # nl @ ?q"] parse_elems_space [of nl n' False ?q]
      by (simp add: n parse_elems.simps js is_space_def)
  qed
qed

lemma text_of_array:
  assumes "list_all2 (text_of m) vs js" and "list_all value_start vs"
  shows "text_of (m + length vs + 2) (array_text i vs) (JArr js)"
  unfolding text_of_def
proof (intro allI impI)
  fix n r
  assume "m + length vs + 2 \<le> n"
  then obtain n' where n: "n = Suc (Suc n')" "m + length vs \<le> Suc n'" by (cases n; cases "n - 1") auto
  show "parse_value n (array_text i vs @ r) = Some (JArr js, r)"
  proof (cases vs)
    case Nil
    then show ?thesis using assms(1)
      by (simp add: n array_text_def parse_value.simps parse_elems.simps next_is_def is_space_def)
  next
    case (Cons v vs')
    let ?b = "str_join (CHR '','' # nl) (map (append (indent (i + 2))) vs) @ nl @ indent i @ CHR '']'' # r"
    have "parse_elems (Suc n') True (nl @ ?b) = Some (js, r)"
      using parse_elems_text [OF _ assms(1) n(2) assms(2)] Cons by (simp add: parse_elems_space)
    then show ?thesis
      using Cons by (simp add: n array_text_def parse_value.simps is_space_def)
  qed
qed

lemma value_start_object: "value_start (object_text i kvs)"
  by (simp add: value_start_def object_text_def is_space_def)

lemma text_of_parse: "text_of k t j \<Longrightarrow> parse_value (json_fuel (t @ r)) (t @ r) = Some (j, r)"
  using text_ofD [of k t j "max k (json_fuel (t @ r))" r]
    parse_value_fuel [of "t @ r" "max k (json_fuel (t @ r))"] by simp

section \<open>\<open>strconv.Quote\<close>\<close>

definition utf8_rune :: "bytes \<Rightarrow> nat" where
  "utf8_rune w = (case map code w of
       [a] \<Rightarrow> a
     | [a, b] \<Rightarrow> (a - 0xC0) * 64 + (b - 0x80)
     | [a, b, c] \<Rightarrow> (a - 0xE0) * 4096 + (b - 0x80) * 64 + (c - 0x80)
     | [a, b, c, d] \<Rightarrow> (a - 0xF0) * 262144 + (b - 0x80) * 4096 + (c - 0x80) * 64 + (d - 0x80)
     | _ \<Rightarrow> 0xFFFD)"

definition hex_pad :: "nat \<Rightarrow> nat \<Rightarrow> string" where
  "hex_pad n v = map (\<lambda>i. hex_digit (v div 16 ^ (n - 1 - i) mod 16)) [0..<n]"

definition quote_letters :: "(nat \<times> char) list" where
  "quote_letters = [(7, CHR ''a''), (8, CHR ''b''), (12, CHR ''f''), (10, CHR ''n''), (13, CHR ''r''),
     (9, CHR ''t''), (11, CHR ''v'')]"

definition escaped_rune :: "(nat \<Rightarrow> bool) \<Rightarrow> bytes \<Rightarrow> string" where
  "escaped_rune isPrint w = (let r = utf8_rune w in
     if r = 34 \<or> r = 92 then CHR 0x5C # w
     else if (if r < 0x80 then 32 \<le> r \<and> r < 127 else isPrint r) then w
     else (case map_of quote_letters r of
         Some l \<Rightarrow> [CHR 0x5C, l]
       | None \<Rightarrow> if r < 32 \<or> r = 127 then CHR 0x5C # CHR ''x'' # hex_pad 2 r
           else if r < 0x10000 then CHR 0x5C # CHR ''u'' # hex_pad 4 r
           else CHR 0x5C # CHR ''U'' # hex_pad 8 r))"

function quote_body :: "(nat \<Rightarrow> bool) \<Rightarrow> bytes \<Rightarrow> string" where
  "quote_body isPrint s = (case s of
     [] \<Rightarrow> []
   | c # cs \<Rightarrow>
      if utf8_len s = 0 then CHR 0x5C # CHR ''x'' # hex_pad 2 (code c) @ quote_body isPrint cs
      else escaped_rune isPrint (take (utf8_len s) s) @ quote_body isPrint (drop (utf8_len s) s))"
  by pat_completeness auto
termination
  by (relation "measure (\<lambda>(p, s). length s)") auto

declare quote_body.simps [simp del]

definition Quote :: "(nat \<Rightarrow> bool) \<Rightarrow> bytes \<Rightarrow> string" where
  "Quote isPrint s = CHR 0x22 # quote_body isPrint s @ [CHR 0x22]"

end
