(* ===== verification/Launch.thy ===== *)
theory Launch
  imports Watcher Config Go_Fmt
begin

text \<open>
  \<open>LaunchWatcherFromConfig\<close> of \<open>internal/extension/watcher.go\<close>: whether the watcher starts, and
  with what. Dialling the node, go-ethereum's address functions and the table of printable runes
  behind \<open>%q\<close> are arguments.
\<close>

datatype launch_result = NotConfigured | LaunchFailed string | Launched Watcher int

definition LaunchWatcherFromConfig ::
    "(nat \<Rightarrow> bool) \<Rightarrow> (string \<Rightarrow> bool) \<Rightarrow> (string \<Rightarrow> address) \<Rightarrow> (string \<Rightarrow> string option) \<Rightarrow> (string \<Rightarrow> string + address)
     \<Rightarrow> settings \<Rightarrow> Store \<Rightarrow> launch_result" where
  "LaunchWatcherFromConfig isPrint IsHexAddress HexToAddress dial key_address cfg s =
     (if ChainURL cfg = [] \<or> VaultAddress cfg = [] \<or> ExecutorPrivateKey cfg = [] then NotConfigured
      else if \<not> IsHexAddress (VaultAddress cfg)
        then LaunchFailed (''VAULT_ADDRESS '' @ Quote isPrint (VaultAddress cfg) @ '' is not a valid address'')
      else (case dial (ChainURL cfg) of
          Some m \<Rightarrow> LaunchFailed (''dialing CHAIN_URL: '' @ m)
        | None \<Rightarrow> (case NewWatcher key_address s (HexToAddress (VaultAddress cfg)) (ExecutorPrivateKey cfg) of
            Inl m \<Rightarrow> LaunchFailed m
          | Inr w \<Rightarrow> Launched w WatcherInterval)))"

end
