(* ===== verification/Settlement.thy ===== *)
theory Settlement
  imports Watcher
begin

text \<open>
  The part of \<open>internal/extension/watcher.go\<close> that sends transactions: one settlement and its
  retries, the fee bump of a stuck transaction, the reconciliation of a pending broadcast against
  receipt, mempool and vault, and the tick.
\<close>

section \<open>Broadcasting\<close>

text \<open>A call of \<open>SendTransaction\<close> with the signed form of \<open>t\<close>, recorded in the history with the book
  as it was last read and the nonces of the receipts seen so far; and a receipt, recorded too.\<close>

definition broadcast_tx ::
    "'w chain_env \<Rightarrow> uint64 \<Rightarrow> int \<Rightarrow> transaction \<Rightarrow> signed_tx \<Rightarrow> 'w wst \<Rightarrow> rpc_error option \<times> 'w wst" where
  "broadcast_tx e i trigger t s st = (case st of (w, x) \<Rightarrow> (case SendTransaction e s x of (r, x') \<Rightarrow>
     (r, (w\<lparr>broadcasts := broadcasts w @ [\<lparr>b_order = i, b_trigger = trigger, b_tx = t,
            b_book = wstore w, b_mined = minedNonces w\<rparr>]\<rparr>, x'))))"

definition saw_mined :: "uint64 \<Rightarrow> Watcher \<Rightarrow> Watcher" where
  "saw_mined n w = w\<lparr>minedNonces := n # minedNonces w\<rparr>"

text \<open>\<open>settleOnce\<close> in three parts: the signed transaction goes out and its receipt is looked up once;
  before that it is built and signed for a reserved nonce; before that come the checks that may
  fail without trace. A nil trigger would panic where it is copied.\<close>

definition settle_send :: "'w chain_env \<Rightarrow> Order \<Rightarrow> int \<Rightarrow> transaction \<Rightarrow> signed_tx \<Rightarrow> 'w wst
    \<Rightarrow> watcher_error option \<times> 'w wst" where
  "settle_send e o1 trigger t s st = (case st of (w, x) \<Rightarrow> (case env_now e x of (now, x1) \<Rightarrow>
     (let p = \<lparr>txHash = signed_hash s, nonce = tx_nonce t, gasPrice = tx_gasPrice t,
               triggerPrice = trigger, firstSeen = now, missingChecks = 0\<rparr>
      in case broadcast_tx e (ID o1) trigger t s (w, x1) of
         (Some er, st2) \<Rightarrow> (Some (PendingTransaction p er), st2)
       | (None, (w2, x2)) \<Rightarrow> (case TransactionReceipt e (signed_hash s) x2 of
           (Inl er, x3) \<Rightarrow> (Some (PendingTransaction p er), (w2, x3))
         | (Inr status, x3) \<Rightarrow>
             (if status \<noteq> ReceiptStatusSuccessful then Some (Reverted (signed_hash s)) else None,
              (releaseNonce (ID o1) (tx_nonce t) True (saw_mined (tx_nonce t) w2), x3))))))"

definition settle_build :: "'w chain_env \<Rightarrow> Order \<Rightarrow> bytes \<Rightarrow> int \<Rightarrow> uint64 \<Rightarrow> uint64 \<Rightarrow> 'w wst
    \<Rightarrow> watcher_error option \<times> 'w wst" where
  "settle_build e o1 data gp gas n st = (case st of (w, x) \<Rightarrow>
     (let t = \<lparr>tx_nonce = n, tx_to = vault w, tx_value = 0, tx_gas = gas, tx_gasPrice = gp,
               tx_data = data\<rparr>
      in case sign_transaction e (the (chainID w)) t of
         Inl m \<Rightarrow> (Some (SignError m), (releaseNonce (ID o1) n False w, x))
       | Inr s \<Rightarrow> (case TriggerPrice o1 of
           None \<Rightarrow> (Some NilTrigger, (w, x))
         | Some trigger \<Rightarrow> settle_send e o1 trigger t s (w, x))))"

definition settleOnce :: "'w chain_env \<Rightarrow> Order \<Rightarrow> 'w wst \<Rightarrow> watcher_error option \<times> 'w wst" where
  "settleOnce e o1 st =
   (case packSettleCalldata e (ID o1) (TriggerPrice o1) settleMaxAgeSec of
      Inl m \<Rightarrow> (Some (PackError m), st)
    | Inr data \<Rightarrow> (case ensureChainID e st of
      (Some er, st1) \<Rightarrow> (Some er, st1)
    | (None, (w1, x1)) \<Rightarrow> (case SuggestGasPrice e x1 of
      (Inl er, x2) \<Rightarrow> (Some (GasPriceError er), (w1, x2))
    | (Inr gp, x2) \<Rightarrow> (case EstimateGas e (from_addr w1) (vault w1) data x2 of
      (Inl er, x3) \<Rightarrow> (Some (GasError er), (w1, x3))
    | (Inr gas, x3) \<Rightarrow> (case reserveNonce e (ID o1) (w1, x3) of
      (Inl er, st4) \<Rightarrow> (Some er, st4)
    | (Inr n, st4) \<Rightarrow> settle_build e o1 data gp gas n st4)))))"

text \<open>\<open>errors.As\<close> with a \<open>*pendingTransactionError\<close>.\<close>

fun unresolved :: "watcher_error \<Rightarrow> pendingSettlement option" where
  "unresolved (PendingTransaction p _) = Some p"
| "unresolved _ = None"

text \<open>The attempts of \<open>settleWithRetry\<close> that are left, and the number of the next one. The result
  is whether settlement was confirmed and whether a broadcast still waits for its receipt.\<close>

fun settle_attempts ::
    "'w chain_env \<Rightarrow> Order \<Rightarrow> nat \<Rightarrow> nat \<Rightarrow> 'w wst \<Rightarrow> (bool \<times> bool) \<times> 'w wst" where
  "settle_attempts e o1 attempt 0 (w, x) =
     ((False, False), (releaseOrderNonce (ID o1) False w, x))"
| "settle_attempts e o1 attempt (Suc left) (w, x) = (case settleOnce e o1 (w, x) of
     (None, st) \<Rightarrow> ((True, False), st)
   | (Some er, (w', x')) \<Rightarrow> (case unresolved er of
       Some p \<Rightarrow>
         ((False, True), (w'\<lparr>pending := gm_put (ID o1) p (pending w')\<rparr>, x'))
     | None \<Rightarrow> settle_attempts e o1 (Suc attempt) left
         (w', if attempt < settleAttempts then env_sleep e (second_ns * 2 ^ (attempt - 1)) x' else x')))"

definition settleWithRetry ::
    "'w chain_env \<Rightarrow> Order \<Rightarrow> 'w wst \<Rightarrow> (bool \<times> bool) \<times> 'w wst" where
  "settleWithRetry e o1 st = settle_attempts e o1 1 settleAttempts st"

section \<open>Reconciliation\<close>

definition bumped_price :: "int \<Rightarrow> int \<Rightarrow> int" where
  "bumped_price old suggested = (let bumped = old * 9 div 8 + 1
     in if suggested > bumped then suggested else bumped)"

definition replace_send :: "'w chain_env \<Rightarrow> uint64 \<Rightarrow> pendingSettlement \<Rightarrow> int \<Rightarrow> transaction \<Rightarrow> 'w wst
    \<Rightarrow> watcher_error option \<times> 'w wst" where
  "replace_send e i p currentTrigger t st = (case st of (w, x) \<Rightarrow>
     (case sign_transaction e (the (chainID w)) t of
        Inl m \<Rightarrow> (Some (SignError m), (w, x))
      | Inr s \<Rightarrow> (case broadcast_tx e i currentTrigger t s (w, x) of
          (Some er, st1) \<Rightarrow> (Some (SendError er), st1)
        | (None, (w1, x1)) \<Rightarrow> (case env_now e x1 of (now, x2) \<Rightarrow>
            (None, (w1\<lparr>pending := gm_put i (p\<lparr>txHash := signed_hash s, gasPrice := tx_gasPrice t,
               triggerPrice := currentTrigger, firstSeen := now, missingChecks := 0\<rparr>) (pending w1)\<rparr>,
             x2))))))"

definition replace_owned ::
    "'w chain_env \<Rightarrow> uint64 \<Rightarrow> pendingSettlement \<Rightarrow> int \<Rightarrow> 'w wst \<Rightarrow> watcher_error option \<times> 'w wst" where
  "replace_owned e i p currentTrigger st = (case st of (w, x) \<Rightarrow>
   (case packSettleCalldata e i (Some currentTrigger) settleMaxAgeSec of
      Inl m \<Rightarrow> (Some (PackError m), (w, x))
    | Inr data \<Rightarrow> (case SuggestGasPrice e x of
      (Inl er, x1) \<Rightarrow> (Some (GasPriceError er), (w, x1))
    | (Inr suggested, x1) \<Rightarrow> (case EstimateGas e (from_addr w) (vault w) data x1 of
      (Inl er, x2) \<Rightarrow> (Some (GasError er), (w, x2))
    | (Inr gas, x2) \<Rightarrow> (case ensureChainID e (w, x2) of
      (Some er, st3) \<Rightarrow> (Some er, st3)
    | (None, (w3, x3)) \<Rightarrow> replace_send e i p currentTrigger
        \<lparr>tx_nonce = nonce p, tx_to = vault w3, tx_value = 0, tx_gas = gas,
         tx_gasPrice = bumped_price (gasPrice p) suggested, tx_data = data\<rparr> (w3, x3))))))"

definition replacePending ::
    "'w chain_env \<Rightarrow> uint64 \<Rightarrow> pendingSettlement \<Rightarrow> int \<Rightarrow> 'w wst \<Rightarrow> watcher_error option \<times> 'w wst" where
  "replacePending e i p currentTrigger st = (case st of (w, x) \<Rightarrow>
     (case gm_get (nonceOwners w) (nonce p) of
        Some own \<Rightarrow> if own \<noteq> i then (Some (NonceOwned (nonce p) own), st)
          else replace_owned e i p currentTrigger
            (w\<lparr>nonceOwners := gm_put (nonce p) i (nonceOwners w)\<rparr>, x)
      | None \<Rightarrow> replace_owned e i p currentTrigger
            (w\<lparr>nonceOwners := gm_put (nonce p) i (nonceOwners w)\<rparr>, x)))"

datatype unconfirmedTxState = txStuck | txDropped | txMinedNoReceipt

definition drop_pending :: "uint64 \<Rightarrow> uint64 \<Rightarrow> bool \<Rightarrow> Watcher \<Rightarrow> Watcher" where
  "drop_pending i n consumed w = releaseNonce i n consumed (w\<lparr>pending := gm_del i (pending w)\<rparr>)"

text \<open>For the history: a transaction the node calls mined though it has no receipt, once the vault's
  answer makes the watcher act on that.\<close>

definition found_mined :: "unconfirmedTxState \<Rightarrow> uint64 \<Rightarrow> Watcher \<Rightarrow> Watcher" where
  "found_mined t n w = (if t = txMinedNoReceipt then saw_mined n w else w)"

definition reconcileAgainstVault :: "'w chain_env \<Rightarrow> uint64 \<Rightarrow> pendingSettlement \<Rightarrow> int option
    \<Rightarrow> unconfirmedTxState \<Rightarrow> 'w wst \<Rightarrow> 'w wst" where
  "reconcileAgainstVault e i p sampled txState st = (case onChainOrderStatus e i st of
     (Inl _, st1) \<Rightarrow> st1
   | (Inr status, (w1, x1)) \<Rightarrow>
       if status = 2 then
         w_mark e i (drop_pending i (nonce p) (txState = txMinedNoReceipt) (found_mined txState (nonce p) w1), x1)
       else if status = 1 then
         (if txState = txMinedNoReceipt then (drop_pending i (nonce p) True (found_mined txState (nonce p) w1), x1)
          else (case w_effective e i (w1, x1) of (trigger, (w2, x2)) \<Rightarrow>
            (case (sampled, trigger) of
               (Some price, Some t) \<Rightarrow>
                 if price \<le> t then snd (replacePending e i p t (w2, x2))
                 else if txState = txDropped then (drop_pending i (nonce p) False w2, x2)
                 else (w2, x2)
             | (Some price, None) \<Rightarrow>
                 if txState = txDropped then (drop_pending i (nonce p) False w2, x2) else (w2, x2)
             | (None, _) \<Rightarrow> (w2, x2))))
       else if status = 0 \<or> status = 3 then
         w_delete e i (drop_pending i (nonce p) (txState = txMinedNoReceipt) (found_mined txState (nonce p) w1), x1)
       else (w1, x1))"

definition reconcileUnconfirmed ::
    "'w chain_env \<Rightarrow> uint64 \<Rightarrow> pendingSettlement \<Rightarrow> int option \<Rightarrow> 'w wst \<Rightarrow> 'w wst" where
  "reconcileUnconfirmed e i p sampled st = (case st of (w, x) \<Rightarrow>
     (case TransactionByHash e (txHash p) x of
        (Inr isPending, x1) \<Rightarrow>
          if isPending then
            (let p' = p\<lparr>missingChecks := 0\<rparr>; w' = w\<lparr>pending := gm_put i p' (pending w)\<rparr>
             in case env_now e x1 of (now, x2) \<Rightarrow>
               if time_Sub now (firstSeen p') < pendingReplacementAge then (w', x2)
               else reconcileAgainstVault e i p' sampled txStuck (w', x2))
          else reconcileAgainstVault e i p sampled txMinedNoReceipt (w, x1)
      | (Inl (RpcFail _), x1) \<Rightarrow> (w, x1)
      | (Inl NotFound, x1) \<Rightarrow>
          (let p' = p\<lparr>missingChecks := missingChecks p + 1\<rparr>;
               w' = w\<lparr>pending := gm_put i p' (pending w)\<rparr>
           in if missingChecks p' < pendingDropChecks then (w', x1)
              else reconcileAgainstVault e i p' sampled txDropped (w', x1))))"

definition reconcile_one ::
    "'w chain_env \<Rightarrow> int option \<Rightarrow> uint64 \<times> pendingSettlement \<Rightarrow> 'w wst \<Rightarrow> 'w wst" where
  "reconcile_one e sampled entry st = (case entry of (i, p) \<Rightarrow> (case st of (w, x) \<Rightarrow>
     (case TransactionReceipt e (txHash p) x of
        (Inl NotFound, x1) \<Rightarrow> reconcileUnconfirmed e i p sampled (w, x1)
      | (Inl (RpcFail _), x1) \<Rightarrow> (w, x1)
      | (Inr status, x1) \<Rightarrow>
          (let w1 = drop_pending i (nonce p) True (saw_mined (nonce p) w)
           in if status = ReceiptStatusSuccessful then w_mark e i (w1, x1) else (w1, x1)))))"

definition reconcilePending :: "'w chain_env \<Rightarrow> int option \<Rightarrow> 'w wst \<Rightarrow> 'w wst" where
  "reconcilePending e sampled st = fold (reconcile_one e sampled) (pending (fst st)) st"

section \<open>The tick\<close>

fun settle_triggered :: "'w chain_env \<Rightarrow> Order list \<Rightarrow> 'w wst \<Rightarrow> 'w wst" where
  "settle_triggered e [] st = st"
| "settle_triggered e (o1 # os) (w, x) =
     (if pending w \<noteq> [] then (w, x)
      else (case w_get e (ID o1) (w, x) of (cur, st1) \<Rightarrow>
        (case cur of
           None \<Rightarrow> settle_triggered e os st1
         | Some c \<Rightarrow> if Status c \<noteq> StatusOpen then settle_triggered e os st1
             else (case settleWithRetry e o1 st1 of ((settled, wait), st2) \<Rightarrow>
               settle_triggered e os (if settled then w_mark e (ID o1) st2 else st2)))))"

definition feed_age :: "gotime \<Rightarrow> uint64 \<Rightarrow> int" where
  "feed_age now ts = sint (word_of_int (time_Unix now) - ts :: int64)"

definition sample_price :: "'w chain_env \<Rightarrow> int \<Rightarrow> uint64 \<Rightarrow> 'w wst \<Rightarrow> Order list \<times> 'w wst" where
  "sample_price e price ts st = (case interfere e st of (w1, x1) \<Rightarrow>
     (case interfere e (w1\<lparr>wstore := ObservePrice (Some price) (unix_time (sint ts)) (wstore w1)\<rparr>, x1) of
        (w2, x2) \<Rightarrow> (case TriggeredOrders (Some price) (wstore w2) of
          (hits, s') \<Rightarrow> (hits, (w2\<lparr>wstore := s'\<rparr>, x2)))))"

definition tick :: "'w chain_env \<Rightarrow> 'w wst \<Rightarrow> watcher_error option \<times> 'w wst" where
  "tick e st = (case currentPrice e st of
     (Inl er, st1) \<Rightarrow> (Some (PriceError er), reconcilePending e None st1)
   | (Inr (price, ts), (w1, x1)) \<Rightarrow> (case env_now e x1 of (now, x2) \<Rightarrow>
       (let age = feed_age now ts in
        if age < 0 then (Some (FeedFuture (- age)), reconcilePending e None (w1, x2))
        else if age > settleMaxAgeSec then (Some (FeedStale age), reconcilePending e None (w1, x2))
        else (case sample_price e price ts (w1, x2) of (triggered, st3) \<Rightarrow>
          (None, settle_triggered e triggered (reconcilePending e (Some price) st3))))))"

fun run_ticks :: "'w chain_env \<Rightarrow> nat \<Rightarrow> 'w wst \<Rightarrow> 'w wst" where
  "run_ticks e 0 st = st"
| "run_ticks e (Suc k) st = run_ticks e k (snd (tick e st))"

end
