(* ===== verification/Watcher_Inv.thy ===== *)
theory Watcher_Inv
  imports Settlement
begin

text \<open>
  The invariant of the watcher: at most one settlement is in flight, and the nonce table holds
  exactly its nonce, just below the local floor. With it travel the frame facts every method
  shares: the addresses are fixed, the order book stays well formed, the history only grows.
\<close>

section \<open>Frames\<close>

text \<open>\<open>w_frame P w w'\<close>: from \<open>w\<close> to \<open>w'\<close> only broadcasts satisfying \<open>P\<close> were added.\<close>

definition w_frame :: "(broadcast \<Rightarrow> bool) \<Rightarrow> Watcher \<Rightarrow> Watcher \<Rightarrow> bool" where
  "w_frame P w w' \<longleftrightarrow> vault w' = vault w \<and> from_addr w' = from_addr w
     \<and> (store_inv (wstore w) \<longrightarrow> store_inv (wstore w'))
     \<and> (\<exists>new. broadcasts w' = broadcasts w @ new \<and> list_all P new)"

lemma w_frame_refl [simp, intro]: "w_frame P w w"
  by (simp add: w_frame_def)

lemma w_frame_trans: "w_frame P u v \<Longrightarrow> w_frame P v w \<Longrightarrow> w_frame P u w"
  by (auto simp: w_frame_def)

lemma w_frame_quiet:
  "vault w' = vault w \<Longrightarrow> from_addr w' = from_addr w \<Longrightarrow> wstore w' = wstore w \<Longrightarrow>
    broadcasts w' = broadcasts w \<Longrightarrow> w_frame P w w'"
  by (simp add: w_frame_def)

lemma w_frame_vault: "w_frame P w w' \<Longrightarrow> vault w' = vault w"
  by (simp add: w_frame_def)

lemma releaseNonce_quiet [simp]:
  "vault (releaseNonce i n c w) = vault w" "from_addr (releaseNonce i n c w) = from_addr w"
  "wstore (releaseNonce i n c w) = wstore w" "broadcasts (releaseNonce i n c w) = broadcasts w"
  "pending (releaseNonce i n c w) = pending w" "ftso (releaseNonce i n c w) = ftso w"
  "chainID (releaseNonce i n c w) = chainID w" "minedNonces (releaseNonce i n c w) = minedNonces w"
  by (simp_all add: releaseNonce_def Let_def)

lemma releaseOrderNonce_quiet [simp]:
  "vault (releaseOrderNonce i c w) = vault w" "from_addr (releaseOrderNonce i c w) = from_addr w"
  "wstore (releaseOrderNonce i c w) = wstore w"
  "broadcasts (releaseOrderNonce i c w) = broadcasts w"
  "pending (releaseOrderNonce i c w) = pending w"
  "minedNonces (releaseOrderNonce i c w) = minedNonces w"
  by (simp_all add: releaseOrderNonce_def split: option.split)

lemma drop_pending_quiet [simp]:
  "vault (drop_pending i n c w) = vault w" "from_addr (drop_pending i n c w) = from_addr w"
  "wstore (drop_pending i n c w) = wstore w" "broadcasts (drop_pending i n c w) = broadcasts w"
  "minedNonces (drop_pending i n c w) = minedNonces w"
  by (simp_all add: drop_pending_def)

lemma saw_mined_fields [simp]:
  "vault (saw_mined n w) = vault w" "from_addr (saw_mined n w) = from_addr w"
  "wstore (saw_mined n w) = wstore w" "broadcasts (saw_mined n w) = broadcasts w"
  "pending (saw_mined n w) = pending w" "nonceOwners (saw_mined n w) = nonceOwners w"
  "nextNonce (saw_mined n w) = nextNonce w" "nonceReady (saw_mined n w) = nonceReady w"
  "ftso (saw_mined n w) = ftso w" "chainID (saw_mined n w) = chainID w"
  "minedNonces (saw_mined n w) = n # minedNonces w"
  by (simp_all add: saw_mined_def)

lemma found_mined_fields [simp]:
  "vault (found_mined t n w) = vault w" "from_addr (found_mined t n w) = from_addr w"
  "wstore (found_mined t n w) = wstore w" "broadcasts (found_mined t n w) = broadcasts w"
  "pending (found_mined t n w) = pending w" "nonceOwners (found_mined t n w) = nonceOwners w"
  "nextNonce (found_mined t n w) = nextNonce w" "nonceReady (found_mined t n w) = nonceReady w"
  by (simp_all add: found_mined_def)

section \<open>At most one settlement in flight\<close>

definition idle :: "Watcher \<Rightarrow> bool" where
  "idle w \<longleftrightarrow> pending w = [] \<and> nonceOwners w = []"

definition in_flight :: "uint64 \<Rightarrow> pendingSettlement \<Rightarrow> Watcher \<Rightarrow> bool" where
  "in_flight i p w \<longleftrightarrow> pending w = [(i, p)] \<and> nonceOwners w = [(nonce p, i)]
     \<and> nonceReady w \<and> nextNonce w = nonce p + 1 \<and> nonce p \<noteq> - 1"

definition nonce_inv :: "Watcher \<Rightarrow> bool" where
  "nonce_inv w \<longleftrightarrow> idle w \<or> (\<exists>i p. in_flight i p w)"

lemma idle_nonce_inv [intro]: "idle w \<Longrightarrow> nonce_inv w"
  by (simp add: nonce_inv_def)

lemma in_flight_nonce_inv [intro]: "in_flight i p w \<Longrightarrow> nonce_inv w"
  by (auto simp: nonce_inv_def)

lemma gm_one [simp]: "gm_put k v [] = [(k, v)]" "gm_put k v [(k, u)] = [(k, v)]"
  "gm_del k [(k, u)] = []" "gm_get [(k, v)] k = Some v"
  by (simp_all add: gm_put_def gm_del_def gm_get_def AList.delete_eq)

lemma drop_pending_idle: "in_flight i p w \<Longrightarrow> nonce p = n \<Longrightarrow> idle (drop_pending i n c w)"
  by (auto simp: in_flight_def idle_def drop_pending_def releaseNonce_def Let_def)

lemma in_flight_update:
  "in_flight i p w \<Longrightarrow> nonce p' = nonce p \<Longrightarrow> in_flight i p' (w\<lparr>pending := gm_put i p' (pending w)\<rparr>)"
  by (simp add: in_flight_def)

text \<open>The least nonce a later broadcast may carry: that of the settlement in flight, or else the
  local floor.\<close>

definition nonce_floor :: "Watcher \<Rightarrow> uint64" where
  "nonce_floor w = (case pending w of [] \<Rightarrow> if nonceReady w then nextNonce w else 0
     | (i, p) # _ \<Rightarrow> nonce p)"

lemma nonce_floor_cong: "pending w' = pending w \<Longrightarrow> nonceReady w' = nonceReady w \<Longrightarrow>
    nextNonce w' = nextNonce w \<Longrightarrow> nonce_floor w' = nonce_floor w"
  by (simp add: nonce_floor_def split: list.split)

lemma in_flight_floor: "in_flight i p w \<Longrightarrow> nonce_floor w = nonce p"
  by (simp add: in_flight_def nonce_floor_def)

lemma word_le_step: "n \<noteq> - 1 \<Longrightarrow> m \<le> n \<Longrightarrow> (m :: uint64) \<le> n + 1"
  by (metis max_uint64_step Suc_eq_plus1 le_SucI word_le_nat_alt)

lemma word_less_step: "n \<noteq> - 1 \<Longrightarrow> (n :: uint64) < n + 1"
  by (simp add: word_less_nat_alt max_uint64_step)

lemma drop_pending_floor:
  "in_flight i p w \<Longrightarrow> nonce_floor (drop_pending i (nonce p) c w) = (if c then nonce p + 1 else nonce p)"
  by (auto simp: in_flight_def nonce_floor_def drop_pending_def releaseNonce_def Let_def
      word_less_step)

section \<open>Mined nonces\<close>

text \<open>Every nonce found mined lies below the nonces that may still be used, and a broadcast carries a
  nonce above those found mined before it.\<close>

definition mined_lt :: "uint64 \<Rightarrow> Watcher \<Rightarrow> bool" where
  "mined_lt n w \<longleftrightarrow> (\<forall>m \<in> set (minedNonces w). m < n)"

definition mined_below :: "Watcher \<Rightarrow> bool" where
  "mined_below w \<longleftrightarrow> mined_lt (nonce_floor w) w"

definition above_mined :: "broadcast \<Rightarrow> bool" where
  "above_mined b \<longleftrightarrow> (\<forall>m \<in> set (b_mined b). m < tx_nonce (b_tx b))"

lemma mined_lt_mono: "mined_lt n w \<Longrightarrow> n \<le> k \<Longrightarrow> mined_lt k w"
  by (auto simp: mined_lt_def)

lemma mined_lt_cong: "minedNonces w' = minedNonces w \<Longrightarrow> mined_lt n w' = mined_lt n w"
  by (simp add: mined_lt_def)

lemma mined_lt_saw: "n \<noteq> - 1 \<Longrightarrow> mined_lt n w \<Longrightarrow> mined_lt (n + 1) (saw_mined n w)"
  using word_less_step [of n] by (auto simp: mined_lt_def)

section \<open>The order book under interference\<close>

lemma interfere_wstore:
  "interfere e (w, x) = (w\<lparr>wstore := fold (\<lambda>h. apply_store_op (handler_store_op h))
     (fst (env_handlers e x)) (wstore w)\<rparr>, snd (env_handlers e x))"
  by (simp add: interfere_def split: prod.split)

lemma handlers_inv:
  "store_inv s \<Longrightarrow> store_inv (fold (\<lambda>h. apply_store_op (handler_store_op h)) ops s)"
  by (induction ops arbitrary: s) (simp_all add: apply_store_op_inv)

text \<open>A watcher that differs from another at most in its order book.\<close>

definition book_only :: "Watcher \<Rightarrow> Watcher \<Rightarrow> bool" where
  "book_only w w' \<longleftrightarrow> (\<exists>s. w' = w\<lparr>wstore := s\<rparr> \<and> (store_inv (wstore w) \<longrightarrow> store_inv s))"

lemma book_only_refl [simp, intro]: "book_only w w"
  by (auto simp: book_only_def intro: exI [of _ "wstore w"])

lemma book_only_frame: "book_only w w' \<Longrightarrow> w_frame P w w'"
  by (auto simp: book_only_def w_frame_def)

lemma book_only_idle: "book_only w w' \<Longrightarrow> idle w' = idle w"
  by (auto simp: book_only_def idle_def)

lemma book_only_in_flight: "book_only w w' \<Longrightarrow> in_flight i p w' = in_flight i p w"
  by (auto simp: book_only_def in_flight_def)

lemma book_only_nonce_inv: "book_only w w' \<Longrightarrow> nonce_inv w' = nonce_inv w"
  by (simp add: nonce_inv_def book_only_idle book_only_in_flight)

lemma book_only_floor: "book_only w w' \<Longrightarrow> nonce_floor w' = nonce_floor w"
  by (auto simp: book_only_def intro: nonce_floor_cong)

lemma book_only_mined: "book_only w w' \<Longrightarrow> mined_below w' = mined_below w"
  by (auto simp: mined_below_def book_only_floor mined_lt_def) (auto simp: book_only_def)

lemma book_only_trans: "book_only u v \<Longrightarrow> book_only v w \<Longrightarrow> book_only u w"
proof -
  assume "book_only u v" and "book_only v w"
  then obtain s t where "v = u\<lparr>wstore := s\<rparr>" "store_inv (wstore u) \<longrightarrow> store_inv s"
    and "w = v\<lparr>wstore := t\<rparr>" "store_inv (wstore v) \<longrightarrow> store_inv t"
    by (auto simp: book_only_def)
  then show "book_only u w"
    unfolding book_only_def by (intro exI [of _ t]) simp
qed

lemma book_only_upd: "book_only w w' \<Longrightarrow> (store_inv (wstore w') \<Longrightarrow> store_inv s) \<Longrightarrow>
    book_only w (w'\<lparr>wstore := s\<rparr>)"
  by (erule book_only_trans) (auto simp: book_only_def)

lemma interfere_book: "book_only (fst st) (fst (interfere e st))"
  by (cases st) (auto simp: interfere_wstore book_only_def handlers_inv)

lemma w_get_book: "book_only (fst st) (fst (snd (w_get e i st)))"
  using interfere_book [of st e] by (simp add: w_get_def case_prod_beta)

lemma w_effective_book: "book_only (fst st) (fst (snd (w_effective e i st)))"
  using interfere_book [of st e] by (simp add: w_effective_def case_prod_beta)

lemma w_mark_book: "book_only (fst st) (fst (w_mark e i st))"
  using interfere_book [of st e]
  by (auto simp: w_mark_def split: prod.split intro: book_only_upd MarkExecuted_inv)

lemma w_delete_book: "book_only (fst st) (fst (w_delete e i st))"
  using interfere_book [of st e]
  by (auto simp: w_delete_def split: prod.split intro: book_only_upd Delete_inv)

lemma sample_price_book: "book_only (fst st) (fst (snd (sample_price e p ts st)))"
proof -
  obtain w1 x1 where 1: "interfere e st = (w1, x1)" by fastforce
  let ?w = "w1\<lparr>wstore := ObservePrice (Some p) (unix_time (sint ts)) (wstore w1)\<rparr>"
  obtain w2 x2 where 2: "interfere e (?w, x1) = (w2, x2)" by fastforce
  have "book_only (fst st) ?w"
    using interfere_book [of st e] 1 by (auto intro: book_only_upd ObservePrice_inv)
  moreover have "book_only ?w w2" using interfere_book [of "(?w, x1)" e] 2 by simp
  ultimately have "book_only (fst st) w2" by (rule book_only_trans)
  then show ?thesis
    using TriggeredOrders_inv [of "wstore w2" "Some p"]
    by (simp add: sample_price_def 1 2 book_only_upd case_prod_beta)
qed

end
