(* ===== verification/Watcher_Steps.thy ===== *)
theory Watcher_Steps
  imports Watcher_Inv
begin

text \<open>
  The invariant and the frame through every method of the watcher, one lemma per method, and the
  theorems about a tick that follow.
\<close>

section \<open>Settling one order\<close>

text \<open>A broadcast that settles its order at a trigger not below the sampled price \<open>p\<close>, with a nonce
  not below \<open>F\<close> and above those of the receipts seen.\<close>

definition settles :: "'w chain_env \<Rightarrow> address \<Rightarrow> uint64 \<Rightarrow> int \<Rightarrow> broadcast \<Rightarrow> bool" where
  "settles e v F p b \<longleftrightarrow> F \<le> tx_nonce (b_tx b) \<and> above_mined b \<and> p \<le> b_trigger b \<and> tx_to (b_tx b) = v \<and> tx_value (b_tx b) = 0
     \<and> packSettleCalldata e (b_order b) (Some (b_trigger b)) settleMaxAgeSec = Inr (tx_data (b_tx b))"

lemma ensureChainID_quiet:
  "ensureChainID e (w, x) = (r, (w', x')) \<Longrightarrow> vault w' = vault w \<and> from_addr w' = from_addr w
     \<and> wstore w' = wstore w \<and> broadcasts w' = broadcasts w \<and> pending w' = pending w
     \<and> nonceOwners w' = nonceOwners w \<and> nextNonce w' = nextNonce w \<and> nonceReady w' = nonceReady w
     \<and> minedNonces w' = minedNonces w \<and> (r = None \<or> (\<exists>er. r = Some (ChainIdError er)))"
  by (auto simp: ensureChainID_def split: sum.splits prod.splits if_splits)

lemma next_free_Nil [simp]: "next_free [] c = Some c"
  by (simp add: next_free.simps)

lemma owned_nonce_Nil [simp]: "owned_nonce [] i = None"
  by (simp add: owned_nonce_def)

lemma reserveNonce_idle:
  "idle w \<Longrightarrow> reserveNonce e i (w, x) = (r, (w', x')) \<Longrightarrow>
    (case r of Inl _ \<Rightarrow> w' = w
     | Inr n \<Rightarrow> n \<noteq> - 1 \<and> nonce_floor w \<le> n \<and> w' = w\<lparr>nonceOwners := [(n, i)], nextNonce := n + 1, nonceReady := True\<rparr>)"
  by (auto simp: reserveNonce_def idle_def nonce_floor_def Let_def split: sum.splits prod.splits if_splits)

lemma broadcast_tx_eq:
  "broadcast_tx e i tr t s (w, x) = (fst (SendTransaction e s x),
     (w\<lparr>broadcasts := broadcasts w @ [\<lparr>b_order = i, b_trigger = tr, b_tx = t,
        b_book = wstore w, b_mined = minedNonces w\<rparr>]\<rparr>,
      snd (SendTransaction e s x)))"
  by (simp add: broadcast_tx_def case_prod_beta)

definition settled_state :: "uint64 \<Rightarrow> uint64 \<Rightarrow> watcher_error option \<Rightarrow> Watcher \<Rightarrow> bool" where
  "settled_state F i r w \<longleftrightarrow> (case Option.bind r unresolved of
     Some q \<Rightarrow> pending w = [] \<and> in_flight i q (w\<lparr>pending := [(i, q)]\<rparr>) \<and> F \<le> nonce q
       \<and> mined_lt (nonce q) w
   | None \<Rightarrow> idle w \<and> F \<le> nonce_floor w \<and> mined_below w)"

lemma settle_send_step:
  assumes "settle_send e o1 trigger t s (w, x) = (r, (w', x'))"
    and "pending w = []" and "nonceOwners w = [(tx_nonce t, ID o1)]" and "nonceReady w"
    and "nextNonce w = tx_nonce t + 1" and "tx_nonce t \<noteq> - 1" and "F \<le> tx_nonce t"
    and "mined_lt (tx_nonce t) w"
    and "P \<lparr>b_order = ID o1, b_trigger = trigger, b_tx = t, b_book = wstore w,
        b_mined = minedNonces w\<rparr>"
  shows "w_frame P w w' \<and> wstore w' = wstore w \<and> settled_state F (ID o1) r w'"
proof -
  obtain now x1 where 1: "env_now e x = (now, x1)" by fastforce
  obtain sent x2 where 2: "SendTransaction e s x1 = (sent, x2)" by fastforce
  obtain rec x3 where 3: "TransactionReceipt e (signed_hash s) x2 = (rec, x3)" by fastforce
  have "\<forall>m \<in> set (minedNonces w). m < tx_nonce t + 1"
    using assms(8) word_le_step [OF assms(6) order.refl] by (auto simp: mined_lt_def)
  moreover have "tx_nonce t < tx_nonce t + 1" by (rule word_less_step [OF assms(6)])
  ultimately show ?thesis
    using assms
    by (cases sent; cases rec)
      (auto simp: settle_send_def broadcast_tx_eq 1 2 3 Let_def settled_state_def in_flight_def
        idle_def w_frame_def releaseNonce_def nonce_floor_def word_le_step mined_below_def
        mined_lt_def split: if_splits)
qed

lemma settle_build_step:
  assumes "settle_build e o1 data gp gas n (w, x) = (r, (w', x'))"
    and "pending w = []" and "nonceOwners w = [(n, ID o1)]" and "nonceReady w"
    and "nextNonce w = n + 1" and "n \<noteq> - 1" and "F \<le> n" and "TriggerPrice o1 = Some trigger" and "p \<le> trigger"
    and "mined_lt n w" and "packSettleCalldata e (ID o1) (Some trigger) settleMaxAgeSec = Inr data"
  shows "w_frame (settles e (vault w) F p) w w' \<and> wstore w' = wstore w \<and> settled_state F (ID o1) r w'"
proof -
  let ?t = "\<lparr>tx_nonce = n, tx_to = vault w, tx_value = 0, tx_gas = gas, tx_gasPrice = gp,
    tx_data = data\<rparr>"
  show ?thesis
  proof (cases "sign_transaction e (the (chainID w)) ?t")
    case (Inl m)
    with assms show ?thesis
      by (auto simp: settle_build_def settled_state_def idle_def releaseNonce_def nonce_floor_def Let_def
          w_frame_quiet word_less_step mined_below_def mined_lt_def)
  next
    case (Inr s)
    with assms have "settle_send e o1 trigger ?t s (w, x) = (r, (w', x'))"
      by (simp add: settle_build_def)
    then show ?thesis
      by (rule settle_send_step) (use assms in \<open>simp_all add: settles_def above_mined_def mined_lt_def\<close>)
  qed
qed

text \<open>What the requests to the node before a nonce is reserved may change: the chain id only.\<close>

definition quiet :: "Watcher \<Rightarrow> Watcher \<Rightarrow> bool" where
  "quiet w w' \<longleftrightarrow> vault w' = vault w \<and> from_addr w' = from_addr w \<and> wstore w' = wstore w
     \<and> broadcasts w' = broadcasts w \<and> pending w' = pending w \<and> nonceOwners w' = nonceOwners w \<and> nextNonce w' = nextNonce w
     \<and> nonceReady w' = nonceReady w \<and> minedNonces w' = minedNonces w"

lemma quiet_frame: "quiet w w' \<Longrightarrow> w_frame P w w'"
  by (simp add: quiet_def w_frame_quiet)

lemma quiet_idle: "quiet w w' \<Longrightarrow> idle w \<Longrightarrow> idle w'"
  by (simp add: quiet_def idle_def)

lemma quiet_floor: "quiet w w' \<Longrightarrow> nonce_floor w' = nonce_floor w"
  by (simp add: quiet_def nonce_floor_cong [of w' w])

lemma quiet_mined: "quiet w w' \<Longrightarrow> mined_below w \<Longrightarrow> mined_below w'"
  by (simp add: mined_below_def quiet_floor) (simp add: quiet_def mined_lt_def)

lemma ensureChainID_state:
  "ensureChainID e (w, x) = (r, (w', x')) \<Longrightarrow> quiet w w' \<and> Option.bind r unresolved = None"
  by (auto simp: quiet_def dest!: ensureChainID_quiet)

abbreviation reserved :: "uint64 \<Rightarrow> uint64 \<Rightarrow> Watcher \<Rightarrow> Watcher" where
  "reserved n i w \<equiv> w\<lparr>nonceOwners := [(n, i)], nextNonce := n + 1, nonceReady := True\<rparr>"

lemma reserveNonce_unresolved:
  "reserveNonce e i (w, x) = (Inl er, st) \<Longrightarrow> unresolved er = None"
  by (auto simp: reserveNonce_def Let_def split: option.splits sum.splits prod.splits if_splits)

text \<open>\<open>settleOnce\<close> gives up before it has a nonce, or builds a transaction with a new one.\<close>

lemma settleOnce_path:
  assumes run: "settleOnce e o1 (w, x) = (r, (w', x'))" and idle: "idle w"
    and data: "packSettleCalldata e (ID o1) (TriggerPrice o1) settleMaxAgeSec = Inr data"
  shows "quiet w w' \<and> Option.bind r unresolved = None
    \<or> (\<exists>w1 n gp gas x4. quiet w w1 \<and> n \<noteq> - 1 \<and> nonce_floor w \<le> n
        \<and> settle_build e o1 data gp gas n (reserved n (ID o1) w1, x4) = (r, (w', x')))"
proof -
  obtain r1 w1 x1 where 1: "ensureChainID e (w, x) = (r1, (w1, x1))" by (metis surj_pair)
  obtain r2 x2 where 2: "SuggestGasPrice e x1 = (r2, x2)" by fastforce
  obtain r3 x3 where 3: "EstimateGas e (from_addr w1) (vault w1) data x2 = (r3, x3)" by fastforce
  obtain r4 w4 x4 where 4: "reserveNonce e (ID o1) (w1, x3) = (r4, (w4, x4))" by (metis surj_pair)
  have q: "quiet w w1" and u1: "Option.bind r1 unresolved = None"
    using ensureChainID_state [OF 1] by simp_all
  note run = run [unfolded settleOnce_def data 1 2 3 4, simplified 1 2 3 4 sum.case prod.case]
  show ?thesis
  proof (cases "r1 = None \<and> (\<exists>gp. r2 = Inr gp) \<and> (\<exists>gas. r3 = Inr gas)")
    case False
    then show ?thesis
      using run q u1 by (auto split: option.splits sum.splits)
  next
    case True
    then obtain gp gas where r: "r1 = None" "r2 = Inr gp" "r3 = Inr gas" by blast
    note nonce = reserveNonce_idle [OF quiet_idle [OF q idle] 4]
    show ?thesis
    proof (cases r4)
      case (Inl er)
      then show ?thesis using run r q nonce reserveNonce_unresolved 4 by auto
    next
      case (Inr n)
      then have "settle_build e o1 data gp gas n (reserved n (ID o1) w1, x4) = (r, (w', x'))"
        using run r nonce by simp
      moreover have "n \<noteq> - 1 \<and> nonce_floor w \<le> n" using Inr nonce quiet_floor [OF q] by simp
      ultimately show ?thesis
        using q by (intro disjI2 exI conjI) simp_all
    qed
  qed
qed

lemma settleOnce_step:
  assumes run: "settleOnce e o1 (w, x) = (r, (w', x'))" and idle: "idle w"
    and t: "TriggerPrice o1 = Some t" "p \<le> t" and floor: "F \<le> nonce_floor w"
    and mined: "mined_below w"
  shows "w_frame (settles e (vault w) F p) w w' \<and> wstore w' = wstore w \<and> settled_state F (ID o1) r w'"
proof (cases "packSettleCalldata e (ID o1) (TriggerPrice o1) settleMaxAgeSec")
  case (Inl m)
  with assms show ?thesis by (auto simp: settleOnce_def settled_state_def)
next
  case data: (Inr data)
  consider (stop) "quiet w w'" "Option.bind r unresolved = None"
    | (build) w1 n gp gas x4 where "quiet w w1" "n \<noteq> - 1" "nonce_floor w \<le> n"
        "settle_build e o1 data gp gas n (reserved n (ID o1) w1, x4) = (r, (w', x'))"
    using settleOnce_path [OF run idle data] by (elim disjE exE conjE) auto
  then show ?thesis
  proof cases
    case stop
    then show ?thesis
      using quiet_frame [OF stop(1)] quiet_idle [OF stop(1) idle] quiet_floor [OF stop(1)] floor
        quiet_mined [OF stop(1) mined]
      by (simp add: settled_state_def quiet_def)
  next
    case build
    have "pending w1 = []" using quiet_idle [OF build(1) idle] by (simp add: idle_def)
    moreover have "F \<le> n" using floor build(3) by simp
    moreover have "mined_lt n (reserved n (ID o1) w1)"
      using mined mined_lt_mono build(1,3) by (fastforce simp: mined_below_def mined_lt_def quiet_def)
    ultimately have "w_frame (settles e (vault w1) F p) (reserved n (ID o1) w1) w'
        \<and> wstore w' = wstore w1 \<and> settled_state F (ID o1) r w'"
      using settle_build_step [OF build(4) _ _ _ _ build(2) _ t] data t(1) by simp
    moreover have "w_frame P w (reserved n (ID o1) w1)" for P
      using build(1) by (simp add: quiet_def w_frame_quiet)
    ultimately show ?thesis
      using build(1) by (auto simp: quiet_def intro: w_frame_trans)
  qed
qed

lemma releaseOrderNonce_idle: "idle w \<Longrightarrow> releaseOrderNonce i c w = w"
  by (simp add: releaseOrderNonce_def idle_def)

definition wait_state :: "uint64 \<Rightarrow> uint64 \<Rightarrow> bool \<Rightarrow> Watcher \<Rightarrow> bool" where
  "wait_state F i wait w \<longleftrightarrow> (if wait then \<exists>q. in_flight i q w else idle w) \<and> F \<le> nonce_floor w
     \<and> mined_below w"

lemma settle_attempts_step:
  "settle_attempts e o1 a left (w, x) = ((done, wait), (w', x')) \<Longrightarrow> idle w \<Longrightarrow>
    TriggerPrice o1 = Some t \<Longrightarrow> p \<le> t \<Longrightarrow> F \<le> nonce_floor w \<Longrightarrow> mined_below w \<Longrightarrow>
    w_frame (settles e (vault w) F p) w w' \<and> wstore w' = wstore w \<and> wait_state F (ID o1) wait w'"
proof (induction left arbitrary: a w x)
  case 0
  then show ?case by (auto simp: releaseOrderNonce_idle wait_state_def)
next
  case (Suc left)
  obtain r w1 x1 where r: "settleOnce e o1 (w, x) = (r, (w1, x1))" by (metis surj_pair)
  have one: "w_frame (settles e (vault w) F p) w w1" "wstore w1 = wstore w" "settled_state F (ID o1) r w1"
    using settleOnce_step [OF r Suc.prems(2-6)] by auto
  show ?case
  proof (cases "Option.bind r unresolved")
    case (Some q)
    with r Suc.prems(1) have "w' = w1\<lparr>pending := gm_put (ID o1) q (pending w1)\<rparr>" "wait"
      by (auto split: option.splits)
    then show ?thesis
      using one Some
      by (auto simp: settled_state_def wait_state_def w_frame_def nonce_floor_def mined_below_def mined_lt_def)
  next
    case None
    then have idle1: "idle w1" and floor1: "F \<le> nonce_floor w1" and mined1: "mined_below w1"
      using one by (simp_all add: settled_state_def)
    show ?thesis
    proof (cases r)
      case None
      with Suc.prems(1) r have "w' = w1" "\<not> wait" by auto
      then show ?thesis using one idle1 floor1 mined1 by (simp add: wait_state_def)
    next
      case (Some er)
      with Suc.prems(1) r None obtain a2 x2 where
        "settle_attempts e o1 a2 left (w1, x2) = ((done, wait), (w', x'))" by simp
      then have "w_frame (settles e (vault w1) F p) w1 w' \<and> wstore w' = wstore w1
          \<and> wait_state F (ID o1) wait w'"
        using Suc.IH idle1 floor1 mined1 Suc.prems(3,4) by blast
      then show ?thesis using one w_frame_vault [OF one(1)] by (auto intro: w_frame_trans)
    qed
  qed
qed

lemma settleWithRetry_step:
  "settleWithRetry e o1 (w, x) = ((done, wait), (w', x')) \<Longrightarrow> idle w \<Longrightarrow>
    TriggerPrice o1 = Some t \<Longrightarrow> p \<le> t \<Longrightarrow> F \<le> nonce_floor w \<Longrightarrow> mined_below w \<Longrightarrow>
    w_frame (settles e (vault w) F p) w w' \<and> wstore w' = wstore w \<and> wait_state F (ID o1) wait w'"
  unfolding settleWithRetry_def by (rule settle_attempts_step)

section \<open>Reconciling the broadcast in flight\<close>

definition allowed :: "'w chain_env \<Rightarrow> address \<Rightarrow> uint64 \<Rightarrow> int option \<Rightarrow> broadcast \<Rightarrow> bool" where
  "allowed e v F sampled b = (case sampled of None \<Rightarrow> False | Some p \<Rightarrow> settles e v F p b)"

lemma replace_send_step:
  assumes "replace_send e i p t tx (w, x) = (r, (w', x'))" and "in_flight i p w"
    and "P \<lparr>b_order = i, b_trigger = t, b_tx = tx, b_book = wstore w, b_mined = minedNonces w\<rparr>"
    and "tx_nonce tx = nonce p"
  shows "w_frame P w w' \<and> wstore w' = wstore w \<and> minedNonces w' = minedNonces w \<and> (\<exists>q. in_flight i q w' \<and> nonce q = nonce p)"
  using assms
  by (auto simp: replace_send_def broadcast_tx_eq in_flight_def w_frame_def
      split: sum.splits option.splits prod.splits)

lemma quiet_in_flight: "quiet w w' \<Longrightarrow> in_flight i p w \<Longrightarrow> in_flight i p w'"
  by (simp add: quiet_def in_flight_def)

lemma replacePending_owned:
  assumes "in_flight i p w"
  shows "replacePending e i p t (w, x) = replace_owned e i p t (w, x)"
proof -
  have "w\<lparr>nonceOwners := gm_put (nonce p) i (nonceOwners w)\<rparr> = w"
    using assms by (cases w) (simp add: in_flight_def)
  moreover have "gm_get (nonceOwners w) (nonce p) = Some i"
    using assms by (simp add: in_flight_def)
  ultimately show ?thesis by (simp add: replacePending_def)
qed

text \<open>A replacement is given up without a trace, or sent with the old nonce.\<close>

lemma replace_owned_path:
  assumes run: "replace_owned e i p t (w, x) = (r, (w', x'))"
    and data: "packSettleCalldata e i (Some t) settleMaxAgeSec = Inr data"
  shows "quiet w w' \<or> (\<exists>w1 gas gp x3. quiet w w1 \<and> replace_send e i p t \<lparr>tx_nonce = nonce p,
      tx_to = vault w1, tx_value = 0, tx_gas = gas, tx_gasPrice = gp, tx_data = data\<rparr> (w1, x3)
        = (r, (w', x')))"
proof -
  obtain r1 x1 where 1: "SuggestGasPrice e x = (r1, x1)" by fastforce
  obtain r2 x2 where 2: "EstimateGas e (from_addr w) (vault w) data x1 = (r2, x2)" by fastforce
  obtain r3 w3 x3 where 3: "ensureChainID e (w, x2) = (r3, (w3, x3))" by (metis surj_pair)
  have q: "quiet w w3" using ensureChainID_state [OF 3] by simp
  show ?thesis
  proof (cases "(\<exists>gp. r1 = Inr gp) \<and> (\<exists>gas. r2 = Inr gas) \<and> r3 = None")
    case False
    then show ?thesis
      using run q by (auto simp: replace_owned_def data 1 2 3 quiet_def
          split: sum.splits option.splits)
  next
    case True
    then obtain gp gas where "r1 = Inr gp" "r2 = Inr gas" "r3 = None" by blast
    with run q have "quiet w w3 \<and> replace_send e i p t \<lparr>tx_nonce = nonce p, tx_to = vault w3,
        tx_value = 0, tx_gas = gas, tx_gasPrice = bumped_price (gasPrice p) gp, tx_data = data\<rparr>
        (w3, x3) = (r, (w', x'))"
      by (simp add: replace_owned_def data 1 2 3)
    then show ?thesis by (intro disjI2 exI)
  qed
qed

lemma replacePending_step:
  assumes run: "replacePending e i p t (w, x) = (r, (w', x'))" and fl: "in_flight i p w"
    and price: "price \<le> t" and floor: "F \<le> nonce p" and mined: "mined_lt (nonce p) w"
  shows "w_frame (settles e (vault w) F price) w w' \<and> wstore w' = wstore w
    \<and> minedNonces w' = minedNonces w \<and> (\<exists>q. in_flight i q w' \<and> nonce q = nonce p)"
proof (cases "packSettleCalldata e i (Some t) settleMaxAgeSec")
  case (Inl m)
  then show ?thesis using run fl by (auto simp: replacePending_owned [OF fl] replace_owned_def)
next
  case data: (Inr data)
  consider (stop) "quiet w w'"
    | (send) w1 gas gp x3 where "quiet w w1" "replace_send e i p t \<lparr>tx_nonce = nonce p,
        tx_to = vault w1, tx_value = 0, tx_gas = gas, tx_gasPrice = gp, tx_data = data\<rparr> (w1, x3)
          = (r, (w', x'))"
    using replace_owned_path [OF run [unfolded replacePending_owned [OF fl]] data]
    by (elim disjE exE conjE) auto
  then show ?thesis
  proof cases
    case stop
    then show ?thesis using quiet_frame [OF stop] quiet_in_flight [OF stop fl] by (auto simp: quiet_def)
  next
    case send
    have "w_frame (settles e (vault w1) F price) w1 w' \<and> wstore w' = wstore w1
        \<and> minedNonces w' = minedNonces w1 \<and> (\<exists>q. in_flight i q w' \<and> nonce q = nonce p)"
      by (rule replace_send_step [OF send(2) quiet_in_flight [OF send(1) fl]])
        (use data price floor mined send(1) in
          \<open>simp_all add: settles_def above_mined_def mined_lt_def quiet_def\<close>)
    then show ?thesis
      using send(1) quiet_frame [OF send(1)] by (auto simp: quiet_def intro: w_frame_trans)
  qed
qed

lemma onChainOrderStatus_quiet: "onChainOrderStatus e i (w, x) = (r, (w', x')) \<Longrightarrow> w' = w"
  by (auto simp: onChainOrderStatus_def split: sum.splits prod.splits abi_value.splits)

text \<open>The state a reconciliation step may leave: nothing or one settlement in flight, the book
  touched only by the operations of the order book, every broadcast allowed by the sample.\<close>

definition reconciled :: "'w chain_env \<Rightarrow> uint64 \<Rightarrow> int option \<Rightarrow> Watcher \<Rightarrow> Watcher \<Rightarrow> bool" where
  "reconciled e F sampled w w' \<longleftrightarrow> w_frame (allowed e (vault w) F sampled) w w' \<and> nonce_inv w'
     \<and> F \<le> nonce_floor w' \<and> mined_below w'"

lemma reconciled_trans:
  "reconciled e F s u v \<Longrightarrow> reconciled e F s v w \<Longrightarrow> reconciled e F s u w"
  using w_frame_vault [of "allowed e (vault u) F s" u v] w_frame_trans [of "allowed e (vault u) F s" u v w]
  by (simp add: reconciled_def)

lemma reconciled_book: "reconciled e F s u v \<Longrightarrow> book_only v w \<Longrightarrow> reconciled e F s u w"
  by (auto simp: reconciled_def book_only_nonce_inv book_only_floor book_only_mined dest: book_only_frame w_frame_vault
      intro: w_frame_trans)

lemma in_flight_mined: "in_flight i p w \<Longrightarrow> mined_below w = mined_lt (nonce p) w"
  by (simp add: mined_below_def in_flight_floor)

lemma reconciled_flight: "in_flight i p w \<Longrightarrow> F \<le> nonce p \<Longrightarrow> mined_lt (nonce p) w \<Longrightarrow> w_frame (allowed e (vault u) F s) u w \<Longrightarrow> reconciled e F s u w"
  by (auto simp: reconciled_def in_flight_floor in_flight_mined)

lemma drop_pending_mined:
  assumes "in_flight i p w" and "mined_lt (nonce p) w"
  shows "mined_below (drop_pending i (nonce p) c w)"
proof -
  have "nonce p \<le> nonce p + 1" using assms(1) by (simp add: in_flight_def word_le_step)
  with assms(2) have "mined_lt (if c then nonce p + 1 else nonce p) w" by (auto intro: mined_lt_mono)
  then show ?thesis by (simp add: mined_below_def drop_pending_floor [OF assms(1)] mined_lt_def)
qed

lemma reconciled_drop:
  "F \<le> nonce p \<Longrightarrow> in_flight i p w \<Longrightarrow> mined_lt (nonce p) w \<Longrightarrow>
    reconciled e F s w (drop_pending i (nonce p) c w)"
  by (auto simp: reconciled_def w_frame_quiet drop_pending_floor drop_pending_mined
      intro: drop_pending_idle)
    (simp add: in_flight_def word_le_step)

text \<open>Found mined: the nonce is consumed for good.\<close>

lemma reconciled_mined:
  assumes floor: "F \<le> nonce p" and fl: "in_flight i p w" and mined: "mined_lt (nonce p) w"
  shows "reconciled e F s w (drop_pending i (nonce p) True (saw_mined (nonce p) w))"
proof -
  have fl': "in_flight i p (saw_mined (nonce p) w)" using fl by (simp add: in_flight_def)
  have n: "nonce p \<noteq> - 1" using fl by (simp add: in_flight_def)
  have "mined_below (drop_pending i (nonce p) True (saw_mined (nonce p) w))"
    using mined_lt_saw [OF n mined] by (simp add: mined_below_def drop_pending_floor [OF fl'] mined_lt_def)
  then show ?thesis
    using fl' floor n
    by (auto simp: reconciled_def w_frame_quiet drop_pending_floor word_le_step intro: drop_pending_idle)
qed

lemma reconciled_mark: "reconciled e F s w v \<Longrightarrow> reconciled e F s w (fst (w_mark e i (v, x)))"
  using w_mark_book [of "(v, x)" e i] by (auto intro: reconciled_book)

lemma reconciled_delete: "reconciled e F s w v \<Longrightarrow> reconciled e F s w (fst (w_delete e i (v, x)))"
  using w_delete_book [of "(v, x)" e i] by (auto intro: reconciled_book)

lemma reconcileAgainstVault_step:
  assumes fl: "in_flight i p w" and floor: "F \<le> nonce p" and mined: "mined_lt (nonce p) w"
  shows "reconciled e F s w (fst (reconcileAgainstVault e i p s st (w, x)))"
proof -
  obtain r w1 x1 where "onChainOrderStatus e i (w, x) = (r, (w1, x1))" by (metis surj_pair)
  with onChainOrderStatus_quiet have 1: "onChainOrderStatus e i (w, x) = (r, (w, x1))" by metis
  obtain trigger w2 x2 where 2: "w_effective e i (w, x1) = (trigger, (w2, x2))" by (metis surj_pair)
  have book: "book_only w w2" using w_effective_book [of "(w, x1)" e i] 2 by simp
  then have fl2: "in_flight i p w2" using fl by (simp add: book_only_in_flight)
  have mined2: "mined_lt (nonce p) w2"
    using mined book_only_mined [OF book] by (simp add: in_flight_mined [OF fl] in_flight_mined [OF fl2])
  have keep: "reconciled e F s w w" using fl floor mined by (rule reconciled_flight) simp
  have keep2: "reconciled e F s w w2" using keep book by (rule reconciled_book)
  have drop2: "reconciled e F s w (drop_pending i (nonce p) c w2)" for c
    using keep2 reconciled_drop [OF floor fl2 mined2] by (rule reconciled_trans)
  have repl: "reconciled e F s w (fst (snd (replacePending e i p t (w2, x2))))"
    if "s = Some price" "price \<le> t" for price t
  proof -
    obtain r3 w3 x3 where 3: "replacePending e i p t (w2, x2) = (r3, (w3, x3))" by (metis surj_pair)
    have "w_frame (settles e (vault w2) F price) w2 w3 \<and> wstore w3 = wstore w2
        \<and> minedNonces w3 = minedNonces w2 \<and> (\<exists>q. in_flight i q w3 \<and> nonce q = nonce p)"
      using 3 fl2 that(2) floor mined2 by (rule replacePending_step)
    moreover have "allowed e (vault w2) F s = settles e (vault w2) F price"
      using that(1) by (simp add: allowed_def fun_eq_iff)
    ultimately have "reconciled e F s w2 w3"
      using floor mined2 by (auto simp: reconciled_def in_flight_floor in_flight_mined mined_lt_def)
    with keep2 3 show ?thesis by (auto intro: reconciled_trans)
  qed
  have found: "found_mined txMinedNoReceipt n v = saw_mined n v" "t \<noteq> txMinedNoReceipt \<Longrightarrow> found_mined t n v = v" for t n v
    by (simp_all add: found_mined_def)
  show ?thesis
    using keep keep2 drop2 repl
    by (auto simp: reconcileAgainstVault_def 1 2 found intro: reconciled_drop [OF floor fl mined]
        reconciled_mined [OF floor fl mined] reconciled_mark reconciled_delete split: sum.split option.split)
qed

lemma reconcileUnconfirmed_step:
  assumes fl: "in_flight i p w" and floor: "F \<le> nonce p" and mined: "mined_lt (nonce p) w"
  shows "reconciled e F s w (fst (reconcileUnconfirmed e i p s (w, x)))"
proof -
  obtain r x1 where 1: "TransactionByHash e (txHash p) x = (r, x1)" by fastforce
  obtain now x2 where 2: "env_now e x1 = (now, x2)" by fastforce
  have keep: "reconciled e F s w w" using fl floor mined by (rule reconciled_flight) simp
  have upd: "in_flight i p' (w\<lparr>pending := gm_put i p' (pending w)\<rparr>)" if "nonce p' = nonce p" for p'
    using fl that by (rule in_flight_update)
  have upd_rec: "reconciled e F s w (w\<lparr>pending := gm_put i p' (pending w)\<rparr>)" if "nonce p' = nonce p" for p'
    by (rule reconciled_flight [OF upd [OF that]])
      (use floor that mined in \<open>simp_all add: w_frame_quiet mined_lt_def\<close>)
  have go: "reconciled e F s w (fst (reconcileAgainstVault e i p' s t
      (w\<lparr>pending := gm_put i p' (pending w)\<rparr>, y)))" if "nonce p' = nonce p" for p' t y
    by (rule reconciled_trans [OF upd_rec [OF that] reconcileAgainstVault_step [OF upd [OF that]]])
      (use floor that mined in \<open>simp_all add: mined_lt_def\<close>)
  show ?thesis
    using keep go upd_rec reconcileAgainstVault_step [OF fl floor mined]
    by (auto simp: reconcileUnconfirmed_def 1 2 Let_def split: sum.split rpc_error.split)
qed

lemma reconcile_one_step:
  assumes fl: "in_flight i p w" and floor: "F \<le> nonce p" and mined: "mined_lt (nonce p) w"
  shows "reconciled e F s w (fst (reconcile_one e s (i, p) (w, x)))"
proof -
  obtain r x1 where 1: "TransactionReceipt e (txHash p) x = (r, x1)" by fastforce
  have "reconciled e F s w w" using fl floor mined by (rule reconciled_flight) simp
  then show ?thesis
    using reconcileUnconfirmed_step [OF fl floor mined] reconciled_mined [OF floor fl mined]
      reconciled_mark [OF reconciled_mined [OF floor fl mined]]
    by (auto simp: reconcile_one_def 1 Let_def split: sum.split rpc_error.split)
qed

lemma reconcilePending_step:
  assumes "nonce_inv w" and "F \<le> nonce_floor w" and "mined_below w"
  shows "reconciled e F s w (fst (reconcilePending e s (w, x)))"
proof (cases "idle w")
  case True
  then show ?thesis using assms by (simp add: reconcilePending_def idle_def reconciled_def)
next
  case False
  with assms obtain i p where fl: "in_flight i p w" by (auto simp: nonce_inv_def)
  then show ?thesis
    using reconcile_one_step [OF fl] assms(2,3) in_flight_floor [OF fl] in_flight_mined [OF fl]
    by (simp add: reconcilePending_def in_flight_def)
qed

end
