(* ===== verification/Watcher_Tick.thy ===== *)
theory Watcher_Tick
  imports Watcher_Steps
begin

text \<open>
  What a tick, and a run of ticks from a fresh watcher, guarantee: one settlement in flight, a
  well-formed order book, and broadcasts that settle a triggered order against a fresh sample.
\<close>

section \<open>The triggered orders of a tick\<close>

definition wants :: "int \<Rightarrow> Order \<Rightarrow> bool" where
  "wants p o1 \<longleftrightarrow> (\<exists>t. TriggerPrice o1 = Some t \<and> p \<le> t)"

lemma triggered_wants: "h \<in> set (fst (TriggeredOrders (Some p) s)) \<Longrightarrow> wants p h"
proof (cases "0 < p")
  case True
  assume "h \<in> set (fst (TriggeredOrders (Some p) s))"
  with True obtain o1 where "snd (trigger_step p o1) = Some h"
    by (auto simp: TriggeredOrders_hits in_raw_hits)
  then show ?thesis by (auto simp: trigger_step_hit wants_def)
next
  case False
  then show "h \<in> set (fst (TriggeredOrders (Some p) s)) \<Longrightarrow> ?thesis"
    by (cases "p = 0") (simp_all add: TriggeredOrders_def)
qed

lemma sample_price_wants: "h \<in> set (fst (sample_price e p ts st)) \<Longrightarrow> wants p h"
  by (auto simp: sample_price_def case_prod_beta intro: triggered_wants)

lemma reconciled_refl: "nonce_inv w \<Longrightarrow> F \<le> nonce_floor w \<Longrightarrow> mined_below w \<Longrightarrow> reconciled e F s w w"
  by (simp add: reconciled_def)

lemma reconciled_from_book: "nonce_inv w \<Longrightarrow> F \<le> nonce_floor w \<Longrightarrow> mined_below w \<Longrightarrow>
    book_only w w' \<Longrightarrow> reconciled e F s w w'"
  by (rule reconciled_book [OF reconciled_refl])

lemma reconciled_settle:
  assumes "idle w" and "F \<le> nonce_floor w" and "wants p o1" and "mined_below w"
  shows "reconciled e F (Some p) w (fst (snd (settleWithRetry e o1 (w, x))))"
proof -
  obtain t where t: "TriggerPrice o1 = Some t" "p \<le> t" using assms(3) by (auto simp: wants_def)
  obtain ok wait w' x' where run: "settleWithRetry e o1 (w, x) = ((ok, wait), (w', x'))"
    by (metis surj_pair)
  have "w_frame (settles e (vault w) F p) w w' \<and> wait_state F (ID o1) wait w'"
    using settleWithRetry_step [OF run assms(1) t assms(2,4)] by simp
  moreover have "allowed e (vault w) F (Some p) = settles e (vault w) F p"
    by (simp add: allowed_def fun_eq_iff)
  ultimately show ?thesis
    using run by (auto simp: reconciled_def wait_state_def split: if_splits)
qed

lemma settle_triggered_step:
  "nonce_inv w \<Longrightarrow> F \<le> nonce_floor w \<Longrightarrow> mined_below w \<Longrightarrow> \<forall>o1 \<in> set os. wants p o1 \<Longrightarrow>
    reconciled e F (Some p) w (fst (settle_triggered e os (w, x)))"
proof (induction os arbitrary: w x)
  case Nil
  then show ?case by (simp add: reconciled_refl)
next
  case (Cons o1 os)
  obtain cur w1 x1 where get: "w_get e (ID o1) (w, x) = (cur, (w1, x1))" by (metis surj_pair)
  have book: "book_only w w1" using w_get_book [of "(w, x)" e "ID o1"] get by simp
  have rec1: "reconciled e F (Some p) w w1" using Cons.prems book by (auto intro: reconciled_from_book)
  have on: "reconciled e F (Some p) w (fst (settle_triggered e os (v, y)))"
    if "reconciled e F (Some p) w v" for v y
  proof -
    have "reconciled e F (Some p) v (fst (settle_triggered e os (v, y)))"
      using Cons that by (auto simp: reconciled_def)
    with that show ?thesis by (rule reconciled_trans)
  qed
  show ?case
  proof (cases "pending w = [] \<and> (\<exists>c. cur = Some c \<and> Status c = StatusOpen)")
    case False
    then show ?thesis
      using get on [OF rec1] Cons.prems by (auto intro: reconciled_refl split: option.split)
  next
    case True
    have "idle w1"
      using True Cons.prems book by (auto simp: nonce_inv_def in_flight_def book_only_idle)
    obtain ok wait w2 x2 where run: "settleWithRetry e o1 (w1, x1) = ((ok, wait), (w2, x2))"
      by (metis surj_pair)
    have "reconciled e F (Some p) w1 w2"
      using reconciled_settle [OF \<open>idle w1\<close>, of F p o1 e x1] rec1 run Cons.prems(4)
      by (simp add: reconciled_def)
    with rec1 have rec2: "reconciled e F (Some p) w w2" by (rule reconciled_trans)
    obtain w3 x3 where mark: "w_mark e (ID o1) (w2, x2) = (w3, x3)" by fastforce
    have "reconciled e F (Some p) w w3"
      using reconciled_mark [OF rec2, of "ID o1" x2] mark by simp
    then show ?thesis
      using True get run mark on rec2 by auto
  qed
qed

section \<open>The tick\<close>

lemma ftsoAddress_quiet:
  "ftsoAddress e (w, x) = (r, (w', x')) \<Longrightarrow> \<exists>a. w' = w\<lparr>ftso := a\<rparr>"
  by (auto simp: ftsoAddress_def split: sum.splits prod.splits if_splits abi_value.splits
      intro: exI [of _ "ftso w"])

lemma currentPrice_quiet:
  "currentPrice e (w, x) = (r, (w', x')) \<Longrightarrow> \<exists>a. w' = w\<lparr>ftso := a\<rparr>"
  by (auto simp: currentPrice_def dest: ftsoAddress_quiet
      split: sum.splits prod.splits abi_value.splits)

lemma ftso_upd: "nonce_inv (w\<lparr>ftso := a\<rparr>) = nonce_inv w"
  "nonce_floor (w\<lparr>ftso := a\<rparr>) = nonce_floor w" "mined_below (w\<lparr>ftso := a\<rparr>) = mined_below w" "w_frame P w (w\<lparr>ftso := a\<rparr>)"
  by (simp_all add: nonce_inv_def idle_def in_flight_def nonce_floor_def mined_below_def mined_lt_def w_frame_quiet split: list.split)

text \<open>The sample a tick acts on: the price read, when its age is within bounds.\<close>

definition fresh_sample :: "'w chain_env \<Rightarrow> 'w wst \<Rightarrow> int option" where
  "fresh_sample e st = (case currentPrice e st of
     (Inl _, _) \<Rightarrow> None
   | (Inr (price, ts), (_, x1)) \<Rightarrow> (let age = feed_age (fst (env_now e x1)) ts
       in if 0 \<le> age \<and> age \<le> settleMaxAgeSec then Some price else None))"

lemma tick_step:
  assumes "nonce_inv w" and "F \<le> nonce_floor w" and "mined_below w"
  shows "reconciled e F (fresh_sample e (w, x)) w (fst (snd (tick e (w, x))))
    \<and> (fst (tick e (w, x)) = None \<longleftrightarrow> fresh_sample e (w, x) \<noteq> None)"
proof -
  obtain r w1 x1 where cp: "currentPrice e (w, x) = (r, (w1, x1))" by (metis surj_pair)
  obtain now x2 where now: "env_now e x1 = (now, x2)" by fastforce
  obtain a where w1: "w1 = w\<lparr>ftso := a\<rparr>" using currentPrice_quiet [OF cp] by blast
  have rec1: "reconciled e F s w w1" for s
    using assms by (simp add: reconciled_def w1 ftso_upd)
  have fail: "reconciled e F s w (fst (reconcilePending e s (v, y)))"
    if "reconciled e F s w v" for s v y
    using that reconcilePending_step [of v F e s y] by (metis reconciled_def reconciled_trans)
  show ?thesis
  proof (cases "fresh_sample e (w, x)")
    case None
    then show ?thesis
      using fail [OF rec1] by (auto simp: fresh_sample_def tick_def cp now Let_def settleMaxAgeSec_def
          split: sum.splits if_splits)
  next
    case (Some price)
    then obtain ts where r: "r = Inr (price, ts)" and age: "0 \<le> feed_age now ts"
        "feed_age now ts \<le> settleMaxAgeSec"
      by (auto simp: fresh_sample_def cp now Let_def split: sum.splits prod.splits if_splits)
    obtain hits w3 x3 where sp: "sample_price e price ts (w1, x2) = (hits, (w3, x3))"
      by (metis surj_pair)
    have "book_only w1 w3" using sample_price_book [of "(w1, x2)" e price ts] sp by simp
    with rec1 have "reconciled e F (Some price) w w3" by (rule reconciled_book)
    then have rec4: "reconciled e F (Some price) w (fst (reconcilePending e (Some price) (w3, x3)))"
      by (rule fail)
    obtain w4 x4 where rp: "reconcilePending e (Some price) (w3, x3) = (w4, x4)" by fastforce
    have "\<forall>h \<in> set hits. wants price h" using sample_price_wants [of _ e price ts "(w1, x2)"] sp by auto
    then have "reconciled e F (Some price) w4 (fst (settle_triggered e hits (w4, x4)))"
      using settle_triggered_step [of w4 F hits price e x4] rec4 rp by (simp add: reconciled_def)
    with rec4 rp have "reconciled e F (Some price) w (fst (settle_triggered e hits (w4, x4)))"
      by (auto intro: reconciled_trans)
    then show ?thesis
      using age Some by (simp add: tick_def cp r now sp rp Let_def)
  qed
qed

section \<open>A concrete world\<close>

text \<open>A chain for the witnesses: vault at address 1, price 0.019 with 6 decimals sampled at second
  1000, clock at second 1005, receipts answered by \<open>rcpt\<close> in the state of the world. Packing and
  signing are given by simple injective functions.\<close>

definition demo_chain :: "('w \<Rightarrow> rpc_error + uint64) \<Rightarrow> (rpc_error + bool) \<Rightarrow> 'w chain_env" where
  "demo_chain rcpt lookup = \<lparr>
    env_now = (\<lambda>x. (unix_time 1005, x)), env_sleep = (\<lambda>_ x. x), env_handlers = (\<lambda>x. ([], x)),
    CallContract = (\<lambda>_ input x. (Inr input, x)), SuggestGasPrice = (\<lambda>x. (Inr 25, x)),
    PendingNonceAt = (\<lambda>_ x. (Inr 4, x)), EstimateGas = (\<lambda>_ _ _ x. (Inr 90000, x)),
    SendTransaction = (\<lambda>_ x. (None, x)), TransactionReceipt = (\<lambda>_ x. (rcpt x, x)),
    TransactionByHash = (\<lambda>_ x. (lookup, x)), ChainID = (\<lambda>x. (Inr 114, x)),
    abi_pack_settle = (\<lambda>i t m. case t of None \<Rightarrow> Inl ''nil'' | Some _ \<Rightarrow> Inr ''S''),
    abi_pack_orders = (\<lambda>_. Inr ''O''),
    abi_unpack_orders = (\<lambda>_. Inr (VAddress 9, VBig 5, VUint8 1)),
    abi_pack_getFeedById = (\<lambda>_. Inr ''F''),
    abi_unpack_getFeedById = (\<lambda>_. Inr (VBig 1900000, VInt8 8, VUint64 1000)),
    abi_pack_FTSO_V2 = Inr ''A'', abi_unpack_FTSO_V2 = (\<lambda>_. Inr (VAddress 2)),
    sign_transaction = (\<lambda>_ t. Inr \<lparr>signed_raw = tx_data t, signed_hash = ucast (tx_nonce t)\<rparr>)\<rparr>"

definition demo_order :: Order where
  "demo_order = \<lparr>ID = 1, TriggerPrice = Some 20000, TrailBps = 0, HighWatermark = None,
     Status = StatusOpen\<rparr>"

definition demo_store :: Store where
  "demo_store = \<lparr>orders = [(1, demo_order)], latestPrice = None, latestAt = zero_time\<rparr>"

definition demo_watcher :: Watcher where
  "demo_watcher = \<lparr>wstore = demo_store, vault = 1, from_addr = 7, ftso = 0, chainID = None,
     pending = [], nonceOwners = [], nextNonce = 0, nonceReady = False, broadcasts = [], minedNonces = []\<rparr>"

end
