(* ===== verification/Watcher_History.thy ===== *)
theory Watcher_History
  imports Watcher_Tick
begin

text \<open>
  What the methods of the watcher add to its history, in any state: for which order, at which
  trigger and on which book a transaction is sent, how many are sent for one order, and on which
  answer of the node an order counts as settled. From it, what one tick adds.
\<close>

section \<open>One attempt and its retries\<close>

text \<open>Broadcast \<open>b\<close> was confirmed, leaving the world \<open>z\<close>: the node took its signed form and, asked
  next, returned a successful receipt for its hash.\<close>

definition confirmed :: "'w chain_env \<Rightarrow> broadcast \<Rightarrow> 'w \<Rightarrow> bool" where
  "confirmed e b z \<longleftrightarrow> (\<exists>c s y y'. sign_transaction e c (b_tx b) = Inr s
     \<and> SendTransaction e s y = (None, y')
     \<and> TransactionReceipt e (signed_hash s) y' = (Inr ReceiptStatusSuccessful, z))"

text \<open>A broadcast that settles the order \<open>o1\<close> as the scan returned it, sent on the book \<open>s\<close>.\<close>

definition sent_for :: "Order \<Rightarrow> Store \<Rightarrow> broadcast \<Rightarrow> bool" where
  "sent_for o1 s b \<longleftrightarrow> b_order b = ID o1 \<and> TriggerPrice o1 = Some (b_trigger b) \<and> b_book b = s"

text \<open>What one attempt does: it leaves the book alone and sends at most one broadcast.\<close>

definition attempt_of ::
    "'w chain_env \<Rightarrow> Order \<Rightarrow> Watcher \<Rightarrow> watcher_error option \<Rightarrow> Watcher \<Rightarrow> 'w \<Rightarrow> bool" where
  "attempt_of e o1 w r w' z \<longleftrightarrow> wstore w' = wstore w \<and> (broadcasts w' = broadcasts w \<and> r \<noteq> None \<or>
     (\<exists>b. broadcasts w' = broadcasts w @ [b] \<and> sent_for o1 (wstore w) b
        \<and> (r = None \<longrightarrow> confirmed e b z)))"

lemma ensureChainID_history:
  "ensureChainID e (w, x) = (r, (w', x')) \<Longrightarrow> broadcasts w' = broadcasts w \<and> wstore w' = wstore w"
  by (drule ensureChainID_quiet) simp

lemma reserveNonce_history:
  "reserveNonce e i (w, x) = (r, (w', x')) \<Longrightarrow> broadcasts w' = broadcasts w \<and> wstore w' = wstore w"
  by (auto simp: reserveNonce_def Let_def split: option.splits prod.splits sum.splits if_splits)

lemma settle_send_attempt:
  assumes "settle_send e o1 trigger t s (w, x) = (r, (w', x'))"
    and "sign_transaction e c t = Inr s" and "TriggerPrice o1 = Some trigger"
  shows "attempt_of e o1 w r w' x'"
proof -
  have "confirmed e b z" if "b_tx b = t" "SendTransaction e s y = (None, y')"
      "TransactionReceipt e (signed_hash s) y' = (Inr ReceiptStatusSuccessful, z)" for b y y' z
    using assms(2) that by (auto simp: confirmed_def)
  then show ?thesis
    using assms(1,3)
    by (auto simp: settle_send_def broadcast_tx_def attempt_of_def sent_for_def Let_def
        split: prod.splits option.splits sum.splits if_splits)
qed

lemma settle_build_attempt:
  "settle_build e o1 data gp gas n (w, x) = (r, (w', x')) \<Longrightarrow> attempt_of e o1 w r w' x'"
  by (auto simp: settle_build_def Let_def split: sum.splits option.splits
      intro: settle_send_attempt) (auto simp: attempt_of_def)

lemma settleOnce_attempt:
  assumes "settleOnce e o1 (w, x) = (r, (w', x'))"
  shows "attempt_of e o1 w r w' x'"
  using assms
  by (auto simp: settleOnce_def split: sum.splits prod.splits option.splits dest!: settle_build_attempt)
    (auto simp: attempt_of_def dest!: ensureChainID_history reserveNonce_history)

lemma settle_attempts_history:
  "settle_attempts e o1 a left (w, x) = ((ok, wait), (w', x')) \<Longrightarrow>
    wstore w' = wstore w \<and> (\<exists>new. broadcasts w' = broadcasts w @ new \<and> length new \<le> left
      \<and> list_all (sent_for o1 (wstore w)) new \<and> (ok \<longrightarrow> new \<noteq> [] \<and> confirmed e (last new) x'))"
proof (induction left arbitrary: a w x)
  case 0
  then show ?case by auto
next
  case (Suc left)
  obtain r w1 x1 where r: "settleOnce e o1 (w, x) = (r, (w1, x1))" by (metis surj_pair)
  note one = settleOnce_attempt [OF r]
  have book: "wstore w1 = wstore w" using one by (simp add: attempt_of_def)
  show ?case
  proof (cases "r = None \<or> Option.bind r unresolved \<noteq> None")
    case True
    with Suc.prems r have "broadcasts w' = broadcasts w1" "wstore w' = wstore w1" and "x' = x1"
      and "ok \<longrightarrow> r = None"
      by (auto split: option.splits)
    with one show ?thesis by (auto simp: attempt_of_def)
  next
    case False
    with Suc.prems r obtain a2 x2 where
      "settle_attempts e o1 a2 left (w1, x2) = ((ok, wait), (w', x'))" by auto
    from Suc.IH [OF this] obtain new where new: "wstore w' = wstore w" "broadcasts w' = broadcasts w1 @ new"
      "length new \<le> left" "list_all (sent_for o1 (wstore w)) new"
      "ok \<longrightarrow> new \<noteq> [] \<and> confirmed e (last new) x'" by (auto simp: book)
    from one have "broadcasts w1 = broadcasts w
        \<or> (\<exists>b. broadcasts w1 = broadcasts w @ [b] \<and> sent_for o1 (wstore w) b)"
      by (auto simp: attempt_of_def)
    then show ?thesis
    proof (elim disjE exE conjE)
      assume "broadcasts w1 = broadcasts w"
      with new show ?thesis by (auto intro: exI [of _ new])
    next
      fix b
      assume "broadcasts w1 = broadcasts w @ [b]" "sent_for o1 (wstore w) b"
      with new show ?thesis by (auto intro: exI [of _ "b # new"])
    qed
  qed
qed

lemma settleWithRetry_history:
  "settleWithRetry e o1 (w, x) = ((ok, wait), (w', x')) \<Longrightarrow>
    wstore w' = wstore w \<and> (\<exists>new. broadcasts w' = broadcasts w @ new \<and> length new \<le> 3
      \<and> list_all (sent_for o1 (wstore w)) new \<and> (ok \<longrightarrow> new \<noteq> [] \<and> confirmed e (last new) x'))"
  using settle_attempts_history [of e o1 1 3 w x ok wait w' x']
  by (simp add: settleWithRetry_def settleAttempts_def)

section \<open>Who executes an order\<close>

text \<open>Request handlers never execute an order, and of the watcher's accesses to the book only
  \<open>w_mark\<close> does.\<close>

lemma handler_done:
  "order_phase (apply_store_op (handler_store_op h) s) i = Done \<Longrightarrow> order_phase s i = Done"
  by (cases h) (auto simp: book.del_phase dest!: Put_phase [of _ _ _ _ i] split: sum.splits if_splits)

lemma handlers_done:
  "order_phase (fold (\<lambda>h. apply_store_op (handler_store_op h)) ops s) i = Done \<Longrightarrow> order_phase s i = Done"
  by (induction ops arbitrary: s) (auto dest: handler_done)

lemma interfere_done:
  "order_phase (wstore (fst (interfere e st))) i = Done \<Longrightarrow> order_phase (wstore (fst st)) i = Done"
  by (cases st) (auto simp: interfere_wstore dest: handlers_done)

lemma w_get_done:
  "order_phase (wstore (fst (snd (w_get e j st)))) i = Done \<Longrightarrow> order_phase (wstore (fst st)) i = Done"
  by (auto simp: w_get_def case_prod_beta dest: interfere_done)

lemma w_effective_done:
  "order_phase (wstore (fst (snd (w_effective e j st)))) i = Done \<Longrightarrow> order_phase (wstore (fst st)) i = Done"
  by (auto simp: w_effective_def case_prod_beta dest: interfere_done)

lemma w_delete_done:
  "order_phase (wstore (fst (w_delete e j st))) i = Done \<Longrightarrow> order_phase (wstore (fst st)) i = Done"
  by (auto simp: w_delete_def case_prod_beta book.del_phase dest: interfere_done split: if_splits)

lemma w_mark_done:
  "order_phase (wstore (fst (w_mark e j st))) i = Done \<Longrightarrow> i = j \<or> order_phase (wstore (fst st)) i = Done"
  by (auto simp: w_mark_def case_prod_beta book.mark_phase dest: interfere_done split: if_splits)

lemma w_access_broadcasts:
  "broadcasts (fst (snd (w_get e j st))) = broadcasts (fst st)"
  "broadcasts (fst (snd (w_effective e j st))) = broadcasts (fst st)"
  "broadcasts (fst (w_delete e j st)) = broadcasts (fst st)"
  "broadcasts (fst (w_mark e j st)) = broadcasts (fst st)"
  by (cases st; simp add: w_get_def w_effective_def w_delete_def w_mark_def interfere_wstore case_prod_beta)+

section \<open>The settling loop\<close>

definition loop_sends :: "'w chain_env \<Rightarrow> Order list \<Rightarrow> Watcher \<Rightarrow> broadcast list \<Rightarrow> Watcher \<Rightarrow> bool" where
  "loop_sends e os w new w' \<longleftrightarrow> broadcasts w' = broadcasts w @ new
     \<and> (\<forall>b \<in> set new. order_phase (b_book b) (b_order b) = Live \<and> (\<exists>o1 \<in> set os. sent_for o1 (b_book b) b))
     \<and> (distinct (map ID os) \<longrightarrow> (\<forall>i. length (filter (\<lambda>b. b_order b = i) new) \<le> 3))
     \<and> (\<forall>i. order_phase (wstore w') i = Done \<longrightarrow> order_phase (wstore w) i = Done
          \<or> (\<exists>b \<in> set new. b_order b = i \<and> (\<exists>z. confirmed e b z)))"

text \<open>The transactions of the first order, then those of the others.\<close>

lemma loop_sends_Cons:
  assumes one: "broadcasts v = broadcasts w @ new1" "length new1 \<le> 3"
      "\<forall>b \<in> set new1. sent_for o1 (b_book b) b \<and> order_phase (b_book b) (ID o1) = Live"
      "\<And>i. order_phase (wstore v) i = Done \<Longrightarrow> order_phase (wstore w) i = Done
        \<or> (\<exists>b \<in> set new1. b_order b = i \<and> (\<exists>z. confirmed e b z))"
    and rest: "loop_sends e os v new2 w'"
  shows "loop_sends e (o1 # os) w (new1 @ new2) w'"
proof -
  have "length (filter (\<lambda>b. b_order b = i) (new1 @ new2)) \<le> 3" if dist: "distinct (map ID (o1 # os))" for i
  proof (cases "i = ID o1")
    case True
    have "b_order b \<noteq> i" if b: "b \<in> set new2" for b
    proof -
      obtain o2 where "o2 \<in> set os" "b_order b = ID o2"
        using b rest unfolding loop_sends_def sent_for_def by blast
      then show ?thesis using dist True by (metis distinct.simps(2) image_eqI list.simps(9) set_map)
    qed
    then have "filter (\<lambda>b. b_order b = i) new2 = []" by (simp add: filter_empty_conv)
    moreover have "length (filter (\<lambda>b. b_order b = i) new1) \<le> 3"
      by (rule order.trans [OF length_filter_le one(2)])
    ultimately show ?thesis by simp
  next
    case False
    then have "filter (\<lambda>b. b_order b = i) new1 = []"
      using one(3) by (auto simp: filter_empty_conv sent_for_def)
    then show ?thesis using rest dist by (simp add: loop_sends_def)
  qed
  moreover have "order_phase (b_book b) (b_order b) = Live" if "b \<in> set new1" for b
    using one(3) that by (auto simp: sent_for_def)
  moreover have "order_phase (wstore w) i = Done
      \<or> (\<exists>b \<in> set (new1 @ new2). b_order b = i \<and> (\<exists>z. confirmed e b z))"
    if "order_phase (wstore w') i = Done" for i
  proof -
    have "order_phase (wstore v) i = Done \<or> (\<exists>b \<in> set new2. b_order b = i \<and> (\<exists>z. confirmed e b z))"
      using rest that unfolding loop_sends_def by blast
    then show ?thesis using one(4) [of i] unfolding set_append by blast
  qed
  moreover have "\<exists>o2 \<in> set (o1 # os). sent_for o2 (b_book b) b" if "b \<in> set (new1 @ new2)" for b
    using that one(3) rest by (auto simp: loop_sends_def)
  ultimately show ?thesis
    using one(1) rest by (auto simp: loop_sends_def)
qed

lemma settle_triggered_pending: "pending w \<noteq> [] \<Longrightarrow> settle_triggered e os (w, x) = (w, x)"
  by (cases os) simp_all

lemma settle_triggered_history:
  "\<exists>new. loop_sends e os w new (fst (settle_triggered e os (w, x)))"
proof (induction os arbitrary: w x)
  case Nil
  show ?case by (rule exI [of _ "[]"]) (simp add: loop_sends_def)
next
  case (Cons o1 os)
  obtain cur w1 x1 where get: "w_get e (ID o1) (w, x) = (cur, (w1, x1))" by (metis surj_pair)
  have w1: "broadcasts w1 = broadcasts w" "\<And>i. order_phase (wstore w1) i = Done \<Longrightarrow> order_phase (wstore w) i = Done"
    using w_access_broadcasts(1) [of e "ID o1" "(w, x)"] w_get_done [of e "ID o1" "(w, x)"] get by auto
  consider (stop) "pending w \<noteq> []" | (skip) "pending w = []" "\<not> (\<exists>c. cur = Some c \<and> Status c = StatusOpen)"
    | (settle) c where "pending w = []" "cur = Some c" "Status c = StatusOpen"
    by blast
  then show ?case
  proof cases
    case stop
    then show ?thesis by (intro exI [of _ "[]"]) (simp add: loop_sends_def)
  next
    case skip
    obtain new where "loop_sends e os w1 new (fst (settle_triggered e os (w1, x1)))" using Cons.IH by blast
    then have "loop_sends e (o1 # os) w ([] @ new) (fst (settle_triggered e os (w1, x1)))"
      using w1 by (intro loop_sends_Cons [where v = w1]) auto
    moreover have "settle_triggered e (o1 # os) (w, x) = settle_triggered e os (w1, x1)"
      using skip get by (auto split: option.split)
    ultimately show ?thesis by auto
  next
    case settle
    have live: "order_phase (wstore w1) (ID o1) = Live"
      using settle(2,3) get by (auto simp: w_get_def Get_def order_phase_def split: prod.splits)
    obtain ok wait w2 x2 where run: "settleWithRetry e o1 (w1, x1) = ((ok, wait), (w2, x2))"
      by (metis surj_pair)
    obtain new1 where book: "wstore w2 = wstore w1" and new1: "broadcasts w2 = broadcasts w1 @ new1"
        "length new1 \<le> 3" "list_all (sent_for o1 (wstore w1)) new1"
        "ok \<longrightarrow> new1 \<noteq> [] \<and> confirmed e (last new1) x2"
      using settleWithRetry_history [OF run] by blast
    obtain v y where v: "(if ok then w_mark e (ID o1) (w2, x2) else (w2, x2)) = (v, y)" by fastforce
    have "broadcasts v = broadcasts w @ new1"
      using v new1(1) w1(1) w_access_broadcasts(4) [of e "ID o1" "(w2, x2)"] by (auto split: if_splits)
    moreover have "\<forall>b \<in> set new1. sent_for o1 (b_book b) b \<and> order_phase (b_book b) (ID o1) = Live"
      using new1(3) live by (auto simp: list_all_iff sent_for_def)
    moreover have "order_phase (wstore w) i = Done \<or> (\<exists>b \<in> set new1. b_order b = i \<and> (\<exists>z. confirmed e b z))"
      if "order_phase (wstore v) i = Done" for i
    proof (cases "ok \<and> i = ID o1")
      case True
      then show ?thesis using new1(3,4) last_in_set [of new1] by (auto simp: list_all_iff sent_for_def)
    next
      case False
      then have "order_phase (wstore w2) i = Done"
        using that v w_mark_done [of e "ID o1" "(w2, x2)" i] by (auto split: if_splits)
      then show ?thesis using w1(2) book by simp
    qed
    moreover obtain new2 where "loop_sends e os v new2 (fst (settle_triggered e os (v, y)))"
      using Cons.IH by blast
    ultimately have "loop_sends e (o1 # os) w (new1 @ new2) (fst (settle_triggered e os (v, y)))"
      using new1(2) by (intro loop_sends_Cons [where v = v]) auto
    moreover have "settle_triggered e (o1 # os) (w, x) = settle_triggered e os (v, y)"
      using settle get run v by simp
    ultimately show ?thesis by auto
  qed
qed

section \<open>Reconciliation\<close>

text \<open>A replacement of the pending broadcast \<open>p\<close> of order \<open>i\<close>: the old nonce, at the trigger the book
  gives for the order at that moment.\<close>

definition replaces :: "uint64 \<Rightarrow> pendingSettlement \<Rightarrow> broadcast \<Rightarrow> bool" where
  "replaces i p b \<longleftrightarrow> b_order b = i \<and> tx_nonce (b_tx b) = nonce p
     \<and> EffectiveTrigger i (b_book b) = Some (b_trigger b)"

text \<open>The node's answers on which reconciliation marks the order executed.\<close>

definition executed_evidence :: "'w chain_env \<Rightarrow> uint64 \<Rightarrow> pendingSettlement \<Rightarrow> Watcher \<Rightarrow> bool" where
  "executed_evidence e i p w \<longleftrightarrow>
     (\<exists>y z. TransactionReceipt e (txHash p) y = (Inr ReceiptStatusSuccessful, z))
   \<or> (\<exists>v y st. vault v = vault w \<and> onChainOrderStatus e i (v, y) = (Inr 2, st))"

definition reconcile_sends :: "'w chain_env \<Rightarrow> uint64 \<Rightarrow> pendingSettlement \<Rightarrow> Watcher \<Rightarrow> Watcher \<Rightarrow> bool" where
  "reconcile_sends e i p w w' \<longleftrightarrow> (\<exists>new. broadcasts w' = broadcasts w @ new \<and> length new \<le> 1
     \<and> list_all (replaces i p) new \<and> (new \<noteq> [] \<longrightarrow> pending w' \<noteq> [])
     \<and> (\<forall>j. order_phase (wstore w') j = Done \<longrightarrow> order_phase (wstore w) j = Done
          \<or> j = i \<and> executed_evidence e i p w))"

lemma reconcile_sendsI:
  assumes "broadcasts w' = broadcasts w"
    and "\<And>j. order_phase (wstore w') j = Done \<Longrightarrow> order_phase (wstore w) j = Done
      \<or> j = i \<and> executed_evidence e i p w"
  shows "reconcile_sends e i p w w'"
  using assms unfolding reconcile_sends_def by (intro exI [of _ "[]"]) simp

lemma replace_send_history:
  assumes "replace_send e i p t tx (w, x) = (r, (w', x'))" and "in_flight i p w"
    and "tx_nonce tx = nonce p" and "EffectiveTrigger i (wstore w) = Some t"
  shows "wstore w' = wstore w \<and> (\<exists>new. broadcasts w' = broadcasts w @ new \<and> length new \<le> 1
    \<and> list_all (replaces i p) new \<and> (new \<noteq> [] \<longrightarrow> pending w' \<noteq> []))"
  using assms
  by (auto simp: replace_send_def broadcast_tx_eq in_flight_def replaces_def
      split: sum.splits option.splits prod.splits)

lemma replacePending_history:
  assumes run: "replacePending e i p t (w, x) = (r, (w', x'))" and fl: "in_flight i p w"
    and t: "EffectiveTrigger i (wstore w) = Some t"
  shows "wstore w' = wstore w \<and> (\<exists>new. broadcasts w' = broadcasts w @ new \<and> length new \<le> 1
    \<and> list_all (replaces i p) new \<and> (new \<noteq> [] \<longrightarrow> pending w' \<noteq> []))"
proof (cases "packSettleCalldata e i (Some t) settleMaxAgeSec")
  case (Inl m)
  then show ?thesis using run by (auto simp: replacePending_owned [OF fl] replace_owned_def)
next
  case data: (Inr data)
  consider (stop) "quiet w w'"
    | (send) w1 gas gp x3 where "quiet w w1" "replace_send e i p t \<lparr>tx_nonce = nonce p,
        tx_to = vault w1, tx_value = 0, tx_gas = gas, tx_gasPrice = gp, tx_data = data\<rparr> (w1, x3)
          = (r, (w', x'))"
    using replace_owned_path [OF run [unfolded replacePending_owned [OF fl]] data]
    by (elim disjE exE conjE) auto
  then show ?thesis
  proof cases
    case stop
    then show ?thesis by (auto simp: quiet_def)
  next
    case send
    then show ?thesis
      using replace_send_history [OF send(2) quiet_in_flight [OF send(1) fl]] t by (simp add: quiet_def)
  qed
qed

lemma evidence_vault: "executed_evidence e i (p\<lparr>missingChecks := k\<rparr>) (w\<lparr>pending := m\<rparr>) = executed_evidence e i p w"
  by (simp add: executed_evidence_def)

lemma replaces_missing: "replaces i (p\<lparr>missingChecks := k\<rparr>) = replaces i p"
  by (simp add: fun_eq_iff replaces_def)

lemma reconcileAgainstVault_history:
  assumes fl: "in_flight i p w"
  shows "reconcile_sends e i p w (fst (reconcileAgainstVault e i p s txs (w, x)))"
proof -
  obtain r w1 x1 where "onChainOrderStatus e i (w, x) = (r, (w1, x1))" by (metis surj_pair)
  with onChainOrderStatus_quiet have 1: "onChainOrderStatus e i (w, x) = (r, (w, x1))" by metis
  obtain trigger w2 x2 where 2: "w_effective e i (w, x1) = (trigger, (w2, x2))" by (metis surj_pair)
  have book: "book_only w w2" using w_effective_book [of "(w, x1)" e i] 2 by simp
  then have fl2: "in_flight i p w2" using fl by (simp add: book_only_in_flight)
  have trig: "EffectiveTrigger i (wstore w2) = trigger"
    using 2 by (auto simp: w_effective_def split: prod.splits)
  have w2: "broadcasts w2 = broadcasts w" "\<And>j. order_phase (wstore w2) j = Done \<Longrightarrow> order_phase (wstore w) j = Done"
    using w_access_broadcasts(2) [of e i "(w, x1)"] w_effective_done [of e i "(w, x1)"] 2 by auto
  have keep: "reconcile_sends e i p w w" "reconcile_sends e i p w w2"
      "reconcile_sends e i p w (drop_pending i (nonce p) c (found_mined k (nonce p) w))"
      "reconcile_sends e i p w (drop_pending i (nonce p) c w2)" for c k
    using w2 by (auto intro!: reconcile_sendsI)
  have del: "reconcile_sends e i p w (fst (w_delete e i (drop_pending i (nonce p) c (found_mined k (nonce p) w), x1)))" for c k
    using w_delete_done [of e i "(drop_pending i (nonce p) c (found_mined k (nonce p) w), x1)"]
    by (intro reconcile_sendsI) (auto simp: w_access_broadcasts)
  have mark: "reconcile_sends e i p w (fst (w_mark e i (drop_pending i (nonce p) c (found_mined k (nonce p) w), x1)))"
    if "r = Inr 2" for c k
    using w_mark_done [of e i "(drop_pending i (nonce p) c (found_mined k (nonce p) w), x1)"] 1 that
    by (intro reconcile_sendsI) (auto simp: w_access_broadcasts executed_evidence_def)
  have repl: "reconcile_sends e i p w (fst (snd (replacePending e i p t (w2, x2))))"
    if "trigger = Some t" for t
  proof -
    obtain r3 w3 x3 where 3: "replacePending e i p t (w2, x2) = (r3, (w3, x3))" by (metis surj_pair)
    show ?thesis
      using replacePending_history [OF 3 fl2] trig that w2 unfolding reconcile_sends_def 3 by auto
  qed
  show ?thesis
    using keep del mark repl
    by (auto simp: reconcileAgainstVault_def 1 2 split: sum.split option.split)
qed

lemma reconcileUnconfirmed_history:
  assumes fl: "in_flight i p w"
  shows "reconcile_sends e i p w (fst (reconcileUnconfirmed e i p s (w, x)))"
proof -
  obtain r x1 where 1: "TransactionByHash e (txHash p) x = (r, x1)" by fastforce
  obtain now x2 where 2: "env_now e x1 = (now, x2)" by fastforce
  let ?p = "\<lambda>k. p\<lparr>missingChecks := k\<rparr>"
  let ?w = "\<lambda>k. w\<lparr>pending := gm_put i (?p k) (pending w)\<rparr>"
  have keep: "reconcile_sends e i p w w" "reconcile_sends e i p w (?w k)" for k
    by (auto intro: reconcile_sendsI)
  have go: "reconcile_sends e i p w (fst (reconcileAgainstVault e i (?p k) s t (?w k, y)))" for k t y
  proof -
    have "in_flight i (?p k) (?w k)" by (rule in_flight_update [OF fl]) simp
    from reconcileAgainstVault_history [OF this, of e s t y] show ?thesis
      by (simp add: reconcile_sends_def evidence_vault replaces_missing)
  qed
  show ?thesis
    using keep go reconcileAgainstVault_history [OF fl]
    by (auto simp: reconcileUnconfirmed_def 1 2 Let_def split: sum.split rpc_error.split)
qed

lemma reconcile_one_history:
  assumes fl: "in_flight i p w"
  shows "reconcile_sends e i p w (fst (reconcile_one e s (i, p) (w, x)))"
proof -
  obtain r x1 where 1: "TransactionReceipt e (txHash p) x = (r, x1)" by fastforce
  let ?v = "drop_pending i (nonce p) True (saw_mined (nonce p) w)"
  have keep: "reconcile_sends e i p w w" "reconcile_sends e i p w ?v"
    by (auto intro: reconcile_sendsI)
  have mark: "reconcile_sends e i p w (fst (w_mark e i (?v, x1)))" if "r = Inr ReceiptStatusSuccessful"
    using w_mark_done [of e i "(?v, x1)"] 1 that
    by (intro reconcile_sendsI) (auto simp: w_access_broadcasts executed_evidence_def)
  show ?thesis
    using keep mark reconcileUnconfirmed_history [OF fl]
    by (auto simp: reconcile_one_def 1 Let_def split: sum.split rpc_error.split)
qed

lemma reconcilePending_history:
  assumes "nonce_inv w"
  shows "\<exists>new. broadcasts (fst (reconcilePending e s (w, x))) = broadcasts w @ new \<and> length new \<le> 1
    \<and> (\<forall>b \<in> set new. \<exists>i p. pending w = [(i, p)] \<and> replaces i p b)
    \<and> (new \<noteq> [] \<longrightarrow> pending (fst (reconcilePending e s (w, x))) \<noteq> [])
    \<and> (\<forall>j. order_phase (wstore (fst (reconcilePending e s (w, x)))) j = Done \<longrightarrow> order_phase (wstore w) j = Done
         \<or> (\<exists>p. pending w = [(j, p)] \<and> executed_evidence e j p w))"
proof (cases "idle w")
  case True
  then show ?thesis by (intro exI [of _ "[]"]) (simp add: reconcilePending_def idle_def)
next
  case False
  with assms obtain i p where fl: "in_flight i p w" by (auto simp: nonce_inv_def)
  then have "pending w = [(i, p)]" by (simp add: in_flight_def)
  then show ?thesis
    using reconcile_one_history [OF fl, of e s x]
    by (auto simp: reconcilePending_def reconcile_sends_def list_all_iff)
qed

section \<open>One tick\<close>

text \<open>The book right after the scan of a tick, with the sample in its watermarks.\<close>

definition scanned_book :: "'w chain_env \<Rightarrow> 'w wst \<Rightarrow> Store" where
  "scanned_book e st = (case currentPrice e st of
     (Inl _, st1) \<Rightarrow> wstore (fst st1)
   | (Inr (price, ts), (w1, x1)) \<Rightarrow>
       wstore (fst (snd (sample_price e price ts (w1, snd (env_now e x1))))))"

lemma sample_price_quiet:
  "broadcasts (fst (snd (sample_price e p ts st))) = broadcasts (fst st)"
  "pending (fst (snd (sample_price e p ts st))) = pending (fst st)"
  "vault (fst (snd (sample_price e p ts st))) = vault (fst st)"
  "order_phase (wstore (fst (snd (sample_price e p ts st)))) i = Done \<Longrightarrow> order_phase (wstore (fst st)) i = Done"
  by (auto simp: sample_price_def case_prod_beta interfere_def Trigger_phase
      order_phase_def [of "ObservePrice _ _ _"] order_phase_def [symmetric] dest!: handlers_done)

lemma hits_scanned:
  assumes sp: "sample_price e p ts st = (hits, st')" and inv: "store_inv (wstore (fst st))"
  shows "distinct (map ID hits)"
    and "h \<in> set hits \<Longrightarrow> EffectiveTrigger (ID h) (wstore (fst st')) = TriggerPrice h \<and> TriggerPrice h \<noteq> None"
proof -
  obtain w1 x1 where 1: "interfere e st = (w1, x1)" by fastforce
  let ?w = "w1\<lparr>wstore := ObservePrice (Some p) (unix_time (sint ts)) (wstore w1)\<rparr>"
  obtain w2 x2 where 2: "interfere e (?w, x1) = (w2, x2)" by fastforce
  have "book_only (fst st) w1" using interfere_book [of st e] 1 by simp
  then have "store_inv (wstore ?w)" using inv by (auto simp: book_only_def intro: ObservePrice_inv)
  moreover have "book_only ?w w2" using interfere_book [of "(?w, x1)" e] 2 by simp
  ultimately have s: "store_inv (wstore w2)" by (auto simp: book_only_def)
  have hits: "hits = fst (TriggeredOrders (Some p) (wstore w2))"
    and book: "wstore (fst st') = snd (TriggeredOrders (Some p) (wstore w2))"
    using sp by (auto simp: sample_price_def 1 2 case_prod_beta)
  show "distinct (map ID hits)"
    using store_inv_distinct_raw_hits [OF s, of p] TriggeredOrders_hits [of p "wstore w2"]
    by (cases "0 < p") (simp_all add: hits TriggeredOrders_def sgn_if)
  assume h: "h \<in> set hits"
  then have "0 < p" by (auto simp: hits TriggeredOrders_def sgn_if split: if_splits)
  with h show "EffectiveTrigger (ID h) (wstore (fst st')) = TriggerPrice h \<and> TriggerPrice h \<noteq> None"
    by (auto simp: hits book triggered_set [OF s])
qed

text \<open>What a tick sends and executes.\<close>

definition tick_sends :: "'w chain_env \<Rightarrow> Store \<Rightarrow> Watcher \<Rightarrow> broadcast list \<Rightarrow> Watcher \<Rightarrow> bool" where
  "tick_sends e s w new w' \<longleftrightarrow> broadcasts w' = broadcasts w @ new
     \<and> (\<forall>b \<in> set new. order_phase (b_book b) (b_order b) = Live
          \<and> EffectiveTrigger (b_order b) s = Some (b_trigger b)
        \<or> (\<exists>p. pending w = [(b_order b, p)] \<and> replaces (b_order b) p b))
     \<and> (\<forall>i. length (filter (\<lambda>b. b_order b = i) new) \<le> 3)
     \<and> (\<forall>i. order_phase (wstore w') i = Done \<longrightarrow> order_phase (wstore w) i = Done
          \<or> (\<exists>b \<in> set new. b_order b = i \<and> (\<exists>z. confirmed e b z))
          \<or> (\<exists>p. pending w = [(i, p)] \<and> executed_evidence e i p w))"

lemma tick_sends_reconcile:
  assumes "nonce_inv w"
  shows "\<exists>new. tick_sends e s w new (fst (reconcilePending e sampled (w, x)))"
proof -
  obtain new where new: "broadcasts (fst (reconcilePending e sampled (w, x))) = broadcasts w @ new"
      "length new \<le> 1" "\<forall>b \<in> set new. \<exists>i p. pending w = [(i, p)] \<and> replaces i p b"
      "\<forall>j. order_phase (wstore (fst (reconcilePending e sampled (w, x)))) j = Done \<longrightarrow> order_phase (wstore w) j = Done
         \<or> (\<exists>p. pending w = [(j, p)] \<and> executed_evidence e j p w)"
    using reconcilePending_history [OF assms, of e sampled x] by blast
  have "length (filter P new) \<le> 3" for P
    using order.trans [OF length_filter_le new(2), of P] by simp
  moreover have "\<exists>p. pending w = [(b_order b, p)] \<and> replaces (b_order b) p b" if "b \<in> set new" for b
    using new(3) that by (auto simp: replaces_def)
  ultimately show ?thesis using new(1,4) unfolding tick_sends_def by blast
qed

lemma tick_sends_loop:
  assumes inv: "nonce_inv w" and hits: "distinct (map ID hits)"
    and eff: "\<And>h. h \<in> set hits \<Longrightarrow> EffectiveTrigger (ID h) s = TriggerPrice h"
    and rp: "reconcilePending e sampled (w, x) = (w1, x1)"
  shows "\<exists>new. tick_sends e s w new (fst (settle_triggered e hits (w1, x1)))"
proof (cases "broadcasts w1 = broadcasts w")
  case False
  have "pending w1 \<noteq> []"
    using reconcilePending_history [OF inv, of e sampled x] False by (auto simp: rp)
  then show ?thesis using tick_sends_reconcile [OF inv, of e s sampled x] by (simp add: settle_triggered_pending rp)
next
  case True
  obtain new where new: "loop_sends e hits w1 new (fst (settle_triggered e hits (w1, x1)))"
    using settle_triggered_history [of e hits w1 x1] by blast
  have done1: "order_phase (wstore w1) j = Done \<Longrightarrow> order_phase (wstore w) j = Done
      \<or> (\<exists>p. pending w = [(j, p)] \<and> executed_evidence e j p w)" for j
    using reconcilePending_history [OF inv, of e sampled x] by (auto simp: rp)
  have "order_phase (b_book b) (b_order b) = Live \<and> EffectiveTrigger (b_order b) s = Some (b_trigger b)"
    if "b \<in> set new" for b
    using new that eff by (force simp: loop_sends_def sent_for_def)
  then have "tick_sends e s w new (fst (settle_triggered e hits (w1, x1)))"
    using new hits done1 unfolding tick_sends_def loop_sends_def True by blast
  then show ?thesis ..
qed

lemma tick_history:
  assumes inv: "nonce_inv w" "store_inv (wstore w)"
  shows "\<exists>new. tick_sends e (scanned_book e (w, x)) w new (fst (snd (tick e (w, x))))"
proof -
  obtain r w1 x1 where cp: "currentPrice e (w, x) = (r, (w1, x1))" by (metis surj_pair)
  obtain now x2 where now: "env_now e x1 = (now, x2)" by fastforce
  obtain a where w1: "w1 = w\<lparr>ftso := a\<rparr>" using currentPrice_quiet [OF cp] by blast
  have inv1: "nonce_inv w1" using inv by (simp add: w1 ftso_upd)
  have same: "tick_sends e s w1 = tick_sends e s w" for s
    by (simp add: fun_eq_iff tick_sends_def executed_evidence_def w1)
  show ?thesis
  proof (cases "fst (tick e (w, x)) = None")
    case False
    then obtain y where y: "snd (tick e (w, x)) = reconcilePending e None (w1, y)"
      by (auto simp: tick_def cp now Let_def split: sum.splits prod.splits if_splits)
    show ?thesis
      using tick_sends_reconcile [OF inv1, of e "scanned_book e (w, x)" None y] unfolding same y .
  next
    case True
    then obtain price ts where r: "r = Inr (price, ts)"
      by (cases r) (auto simp: tick_def cp)
    obtain hits w3 x3 where sp: "sample_price e price ts (w1, x2) = (hits, (w3, x3))" by (metis surj_pair)
    obtain w4 x4 where rp: "reconcilePending e (Some price) (w3, x3) = (w4, x4)" by fastforce
    have tick: "snd (tick e (w, x)) = settle_triggered e hits (w4, x4)"
      using True by (auto simp: tick_def cp now r sp rp Let_def split: if_splits)
    have book: "scanned_book e (w, x) = wstore w3" by (simp add: scanned_book_def cp r now sp)
    have inv3: "nonce_inv w3"
      using sample_price_book [of "(w1, x2)" e price ts] inv1 sp by (simp add: book_only_nonce_inv)
    have "store_inv (wstore (fst (w1, x2)))" using inv(2) by (simp add: w1)
    note hits = hits_scanned [OF sp this]
    obtain new where new: "tick_sends e (wstore w3) w3 new (fst (settle_triggered e hits (w4, x4)))"
      using tick_sends_loop [OF inv3 hits(1) _ rp, of "wstore w3"] hits(2) by auto
    have "broadcasts w3 = broadcasts w" "pending w3 = pending w" "vault w3 = vault w"
        "\<And>i. order_phase (wstore w3) i = Done \<Longrightarrow> order_phase (wstore w) i = Done"
      using sample_price_quiet [of e price ts "(w1, x2)"] sp by (auto simp: w1)
    then have "tick_sends e (wstore w3) w new (fst (settle_triggered e hits (w4, x4)))"
      using new unfolding tick_sends_def executed_evidence_def by auto
    then show ?thesis unfolding tick book ..
  qed
qed

end
