(* ===== verification/Watcher_Safety.thy ===== *)
theory Watcher_Safety
  imports Watcher_History
begin

text \<open>
  The safety properties of the watcher over all reachable states: one settlement in flight, what a
  tick broadcasts, and the nonces whose transactions were found mined.
\<close>

section \<open>The watcher as a step relation\<close>

text \<open>Ticks, request handlers between ticks, and time passing, in any order.\<close>

inductive watch_step :: "'w chain_env \<Rightarrow> 'w wst \<Rightarrow> 'w wst \<Rightarrow> bool" for e where
  watch_tick: "watch_step e st (snd (tick e st))"
| watch_handler: "watch_step e (w, x) (w\<lparr>wstore := apply_store_op (handler_store_op h) (wstore w)\<rparr>, x)"
| watch_world: "watch_step e (w, x) (w, x')"

inductive_cases watch_stepE: "watch_step e st st'"

definition fresh_watcher :: "'w wst \<Rightarrow> bool" where
  "fresh_watcher st \<longleftrightarrow> (\<exists>key_address s v k. store_inv s \<and> NewWatcher key_address s v k = Inr (fst st))"

definition watch_inv :: "'w wst \<Rightarrow> bool" where
  "watch_inv st \<longleftrightarrow> nonce_inv (fst st) \<and> store_inv (wstore (fst st)) \<and> mined_below (fst st)
     \<and> list_all above_mined (broadcasts (fst st))"

lemma fresh_watch_inv: "fresh_watcher st \<Longrightarrow> watch_inv st"
proof -
  assume "fresh_watcher st"
  then obtain ka s v k where s: "store_inv s" and n: "NewWatcher ka s v k = Inr (fst st)"
    by (auto simp: fresh_watcher_def)
  from n have "wstore (fst st) = s \<and> idle (fst st) \<and> minedNonces (fst st) = [] \<and> broadcasts (fst st) = []"
    by (cases "ka (TrimPrefix k ''0x'')") (auto simp: NewWatcher_def idle_def dest!: sym [of _ "fst st"])
  with s show "watch_inv st" by (auto simp: watch_inv_def mined_below_def mined_lt_def)
qed

lemma reconciled_store: "reconciled e F s w w' \<Longrightarrow> store_inv (wstore w) \<Longrightarrow> store_inv (wstore w')"
  by (simp add: reconciled_def w_frame_def)

text \<open>Progress from a fixed watcher \<open>w0\<close>: only broadcasts with nonces from \<open>F\<close> on are added.\<close>

definition grows :: "Watcher \<Rightarrow> uint64 \<Rightarrow> 'w wst \<Rightarrow> bool" where
  "grows w0 F st \<longleftrightarrow> watch_inv st \<and> F \<le> nonce_floor (fst st)
     \<and> w_frame (\<lambda>b. F \<le> tx_nonce (b_tx b)) w0 (fst st)"

lemma allowed_nonce: "allowed e v F s b \<Longrightarrow> F \<le> tx_nonce (b_tx b)"
  by (simp add: allowed_def settles_def split: option.splits)

lemma allowed_mined: "allowed e v F s b \<Longrightarrow> above_mined b"
  by (simp add: allowed_def settles_def split: option.splits)

lemma w_frame_all: "w_frame P w w' \<Longrightarrow> (\<And>b. P b \<Longrightarrow> Q b) \<Longrightarrow> list_all Q (broadcasts w) \<Longrightarrow>
    list_all Q (broadcasts w')"
  by (auto simp: w_frame_def list_all_iff)

lemma w_frame_mono: "w_frame P w w' \<Longrightarrow> (\<And>b. P b \<Longrightarrow> Q b) \<Longrightarrow> w_frame Q w w'"
  by (auto simp: w_frame_def list_all_iff)

lemma grows_step: "grows w0 F st \<Longrightarrow> watch_step e st st' \<Longrightarrow> grows w0 F st'"
proof -
  assume g: "grows w0 F st" and st: "watch_step e st st'"
  obtain w x where "st = (w, x)" by fastforce
  with g have inv: "nonce_inv w" "store_inv (wstore w)" and floor: "F \<le> nonce_floor w"
    and mined: "mined_below w" and above: "list_all above_mined (broadcasts w)"
    and frame: "w_frame (\<lambda>b. F \<le> tx_nonce (b_tx b)) w0 w" by (auto simp: grows_def watch_inv_def)
  have up: "grows w0 F (w', y)" if r: "reconciled e F s w w'" for w' y s
  proof -
    have fr: "w_frame (allowed e (vault w) F s) w w'" using r by (simp add: reconciled_def)
    have "list_all above_mined (broadcasts w')" using w_frame_all [OF fr allowed_mined above] .
    moreover have "w_frame (\<lambda>b. F \<le> tx_nonce (b_tx b)) w0 w'"
      by (rule w_frame_trans [OF frame w_frame_mono [OF fr allowed_nonce]])
    ultimately show ?thesis
      using r reconciled_store [OF r inv(2)] by (simp add: grows_def watch_inv_def reconciled_def)
  qed
  from st show ?thesis
  proof (cases rule: watch_step.cases)
    case watch_tick
    then show ?thesis
      using tick_step [OF inv(1) floor mined, of e x] up \<open>st = (w, x)\<close> by (metis prod.collapse)
  next
    case (watch_handler w1 x1 h)
    have "book_only w (w\<lparr>wstore := apply_store_op (handler_store_op h) (wstore w)\<rparr>)"
      by (auto simp: book_only_def apply_store_op_inv)
    from up [OF reconciled_from_book [OF inv(1) floor mined this]] show ?thesis
      using watch_handler \<open>st = (w, x)\<close> by simp
  next
    case (watch_world w1 x1 x2)
    then show ?thesis using g \<open>st = (w, x)\<close> by (simp add: grows_def watch_inv_def)
  qed
qed


lemma watch_inv_step: "watch_inv st \<Longrightarrow> watch_step e st st' \<Longrightarrow> watch_inv st'"
  using grows_step [of "fst st" 0 st e st'] by (simp add: grows_def)

interpretation watch_machine: inv_machine fresh_watcher "watch_step e" watch_inv
  by unfold_locales (auto intro: fresh_watch_inv watch_inv_step)

lemma demo_store_inv: "store_inv demo_store"
  by (simp add: store_inv_def demo_store_def demo_order_def valid_order_def gm_ok_def fixed_order_eq
      isFixed_def big_BitLen_le zero_time_def second_ns_def)

lemma demo_fresh: "fresh_watcher (demo_watcher, x)"
  unfolding fresh_watcher_def
  by (rule exI [of _ "\<lambda>_. Inr 7"], rule exI [of _ demo_store], rule exI [of _ 1], rule exI [of _ "''''"])
    (simp add: demo_store_inv NewWatcher_def demo_watcher_def)

section \<open>One settlement in flight\<close>

text \<open>C8. In every state a watcher reaches, whatever the RPC node answers, at most one settlement
  is in flight, and the nonce table holds exactly its nonce, just below the local floor; without
  one both tables are empty. The order book stays well formed.\<close>

theorem single_settlement_in_flight:
  assumes "reach fresh_watcher (watch_step e) (w, x)"
  shows "store_inv (wstore w) \<and> ((pending w = [] \<and> nonceOwners w = []) \<or>
    (\<exists>i p. pending w = [(i, p)] \<and> nonceOwners w = [(nonce p, i)] \<and> nextNonce w = nonce p + 1
       \<and> nonce p \<noteq> - 1))"
  using watch_machine.inv_reach [OF assms]
  by (auto simp: watch_inv_def nonce_inv_def idle_def in_flight_def)

lemma tick_allowed:
  assumes "reach fresh_watcher (watch_step e) (w, x)" and "broadcasts (fst (snd (tick e (w, x)))) = broadcasts w @ new"
  shows "list_all (allowed e (vault w) (nonce_floor w) (fresh_sample e (w, x))) new"
proof -
  have inv: "nonce_inv w" "mined_below w"
    using watch_machine.inv_reach [OF assms(1)] by (simp_all add: watch_inv_def)
  from tick_step [OF inv(1) order.refl inv(2), of e x] assms(2) show ?thesis
    by (auto simp: reconciled_def w_frame_def)
qed

lemma tick_vault: "reach fresh_watcher (watch_step e) (w, x) \<Longrightarrow> broadcasts (fst (snd (tick e (w, x)))) = broadcasts w @ new
    \<Longrightarrow> b \<in> set new \<Longrightarrow> tx_to (b_tx b) = vault w"
  using tick_allowed [of e w x new] by (auto simp: list_all_iff allowed_def settles_def split: option.splits)



text \<open>What \<open>minedNonces\<close> holds: the two places where the node can answer a receipt record its nonce,
  and so does the reconciliation when the node calls a transaction mined that has no receipt and
  the vault's answer makes the watcher forget it.\<close>

lemma mined_recorded:
  "env_now e x = (now, x1) \<Longrightarrow> broadcast_tx e (ID o1) trigger t s (w, x1) = (None, (w2, x2)) \<Longrightarrow>
    TransactionReceipt e (signed_hash s) x2 = (Inr status, x3) \<Longrightarrow>
    tx_nonce t \<in> set (minedNonces (fst (snd (settle_send e o1 trigger t s (w, x)))))"
  "TransactionReceipt e (txHash p) x = (Inr status, x1) \<Longrightarrow>
    nonce p \<in> set (minedNonces (fst (reconcile_one e sampled (i, p) (w, x))))"
  "onChainOrderStatus e i (w, x) = (Inr answer, (w, x1)) \<Longrightarrow> answer \<in> {0, 1, 2, 3} \<Longrightarrow>
    nonce p \<in> set (minedNonces (fst (reconcileAgainstVault e i p sampled txMinedNoReceipt (w, x))))"
proof -
  have del: "minedNonces (fst (w_delete e i (v, y))) = minedNonces v" for v y
    using w_delete_book [of "(v, y)" e i] by (auto simp: book_only_def)
  have mark: "minedNonces (fst (w_mark e i (v, y))) = minedNonces v" for v y
    using w_mark_book [of "(v, y)" e i] by (auto simp: book_only_def)
  show "nonce p \<in> set (minedNonces (fst (reconcileAgainstVault e i p sampled txMinedNoReceipt (w, x))))"
    if "onChainOrderStatus e i (w, x) = (Inr answer, (w, x1))" "answer \<in> {0, 1, 2, 3}"
    using that by (auto simp: reconcileAgainstVault_def found_mined_def mark del)
  show "nonce p \<in> set (minedNonces (fst (reconcile_one e sampled (i, p) (w, x))))"
    if "TransactionReceipt e (txHash p) x = (Inr status, x1)"
    using that by (simp add: reconcile_one_def Let_def mark)
qed (simp add: settle_send_def Let_def)


lemma demo_reach: "reach fresh_watcher (watch_step e) (demo_watcher, x)"
  by (rule reach_init) (rule demo_fresh)

lemma demo_reach_tick: "reach fresh_watcher (watch_step e) (fst (snd (tick e (demo_watcher, x))), x')"
proof -
  have "reach fresh_watcher (watch_step e) (snd (tick e (demo_watcher, x)))"
    using demo_reach watch_tick by (rule reach_step)
  then show ?thesis using watch_world [of e "fst (snd (tick e (demo_watcher, x)))"]
    by (metis prod.collapse reach_step)
qed

theorem single_settlement_in_flight_witness:
  "\<exists>w :: Watcher. pending w \<noteq> [] \<and> store_inv (wstore w) \<and> nonceOwners w = [(4, 1)]"
proof -
  let ?e = "demo_chain (\<lambda>x. Inl NotFound) (Inr True)"
  let ?w = "fst (snd (tick ?e (demo_watcher, ())))"
  have inv: "store_inv (wstore ?w)"
    using single_settlement_in_flight [OF demo_reach_tick [of ?e "()" "()"]] by (rule conjunct1)
  have "pending ?w \<noteq> []" and "nonceOwners ?w = [(4, 1)]" by code_simp+
  with inv show ?thesis by (intro exI [of _ ?w]) simp
qed



end
