(* ===== verification/Watcher_Methods.thy ===== *)
theory Watcher_Methods
  imports Watcher_Safety
begin

text \<open>
  The functional properties of single methods of the watcher: price and age arithmetic, nonces,
  fee bumps, retries, and the evidence on which a broadcast is forgotten.
\<close>

section \<open>Price and age\<close>

lemma le_floor_div: "0 < (b :: int) \<Longrightarrow> v div b \<le> t \<longleftrightarrow> v < (t + 1) * b"
proof -
  assume b: "0 < b"
  have "(t + 1) * b \<le> v \<longleftrightarrow> t + 1 \<le> v div b"
  proof
    assume "(t + 1) * b \<le> v"
    then have "(t + 1) * b div b \<le> v div b" using b by (rule zdiv_mono1)
    then show "t + 1 \<le> v div b" using b by simp
  next
    assume "t + 1 \<le> v div b"
    then have "(t + 1) * b \<le> v div b * b" using b by (intro mult_right_mono) simp_all
    also have "\<dots> \<le> v" using div_mult_mod_eq [of v b] pos_mod_sign [OF b, of v] by linarith
    finally show "(t + 1) * b \<le> v" .
  qed
  then show "v div b \<le> t \<longleftrightarrow> v < (t + 1) * b" by linarith
qed

lemma pow10_split: "0 \<le> a \<Longrightarrow> 0 \<le> b \<Longrightarrow> (10 :: int) ^ nat (a + b) = 10 ^ nat a * 10 ^ nat b"
  by (simp add: nat_add_distrib power_add)

lemma normalizePrice_le:
  assumes "0 \<le> sint d"
  shows "normalizePrice v d \<le> t \<longleftrightarrow> v * 10 ^ 6 < (t + 1) * 10 ^ nat (sint d)"
proof (cases "sint d \<le> 6")
  case True
  have "(10 :: int) ^ 6 = 10 ^ nat (6 - sint d) * 10 ^ nat (sint d)"
    using pow10_split [of "6 - sint d" "sint d"] True assms by simp
  then have "v * 10 ^ 6 < (t + 1) * 10 ^ nat (sint d)
      \<longleftrightarrow> (v * 10 ^ nat (6 - sint d)) * 10 ^ nat (sint d) < (t + 1) * 10 ^ nat (sint d)"
    by (simp only: mult.assoc)
  also have "\<dots> \<longleftrightarrow> v * 10 ^ nat (6 - sint d) < t + 1"
    by (rule mult_less_cancel_right_pos) simp
  finally show ?thesis
    using True by (auto simp: normalizePrice_def payoutDecimals_def)
next
  case False
  have split: "(10 :: int) ^ nat (sint d) = 10 ^ nat (sint d - 6) * 10 ^ 6"
    using pow10_split [of "sint d - 6" 6] False by simp
  have "normalizePrice v d \<le> t \<longleftrightarrow> v < (t + 1) * 10 ^ nat (sint d - 6)"
    using False by (simp add: normalizePrice_def payoutDecimals_def le_floor_div)
  also have "\<dots> \<longleftrightarrow> v * 10 ^ 6 < ((t + 1) * 10 ^ nat (sint d - 6)) * 10 ^ 6"
    by (rule mult_less_cancel_right_pos [symmetric]) simp
  finally show ?thesis by (simp only: split mult.assoc)
qed

text \<open>C24. The normalized price is the feed value rounded down to six decimals: never above the
  exact price and less than one unit (a millionth) below it, and exact for a feed of at most six
  decimals. So a trigger fires exactly when the feed value, at its own number of decimals, is below
  the trigger plus one unit: it fires whenever the exact price has reached it, and with a finer
  feed it may fire while the exact price is still less than one unit above it.\<close>

theorem normalizePrice_exact:
  assumes "0 \<le> sint d"
  shows "normalizePrice v d * 10 ^ nat (sint d) \<le> v * 10 ^ 6
    \<and> v * 10 ^ 6 < (normalizePrice v d + 1) * 10 ^ nat (sint d)
    \<and> (sint d \<le> 6 \<longrightarrow> normalizePrice v d * 10 ^ nat (sint d) = v * 10 ^ 6)
    \<and> (normalizePrice v d \<le> t \<longleftrightarrow> v * 10 ^ 6 < (t + 1) * 10 ^ nat (sint d))
    \<and> (v * 10 ^ 6 \<le> t * 10 ^ nat (sint d) \<longrightarrow> normalizePrice v d \<le> t)"
proof -
  note le = normalizePrice_le [OF assms, of v]
  have low: "normalizePrice v d * 10 ^ nat (sint d) \<le> v * 10 ^ 6"
    using le [of "normalizePrice v d - 1"] by simp
  have "v * 10 ^ nat (6 - sint d) * 10 ^ nat (sint d) = v * 10 ^ 6" if "sint d \<le> 6"
    using pow10_split [of "6 - sint d" "sint d"] that assms by simp
  then have eq: "normalizePrice v d * 10 ^ nat (sint d) = v * 10 ^ 6" if "sint d \<le> 6"
    using that by (simp add: normalizePrice_def payoutDecimals_def)
  have "t * 10 ^ nat (sint d) < (t + 1) * 10 ^ nat (sint d)" by simp
  then have "normalizePrice v d \<le> t" if "v * 10 ^ 6 \<le> t * 10 ^ nat (sint d)"
    using le [of t] that by linarith
  then show ?thesis using low eq le by blast
qed

text \<open>A feed of eight decimals at 0.01900099 fires a trigger of 0.019, though it is above it; one at
  0.01900100 does not.\<close>

theorem normalizePrice_exact_witness:
  "normalizePrice 1900099 8 \<le> 19000 \<and> \<not> normalizePrice 1900100 8 \<le> 19000 \<and> normalizePrice 19 3 = 19000"
proof -
  have d: "sint (8 :: int8) = 8" "sint (3 :: int8) = 3" by code_simp+
  then have "normalizePrice 1900099 8 \<le> 19000" "\<not> normalizePrice 1900100 8 \<le> 19000"
    using normalizePrice_exact [of 8 1900099 19000] normalizePrice_exact [of 8 1900100 19000] by simp_all
  then show ?thesis by (simp add: normalizePrice_def payoutDecimals_def)
qed

lemma feed_age_signed: "feed_age now ts = (time_Unix now - uint ts + 2 ^ 63) mod 2 ^ 64 - 2 ^ 63"
proof -
  have "word_of_int (time_Unix now) - ts = (word_of_int (time_Unix now - uint ts) :: int64)"
    by simp
  then show ?thesis
    unfolding feed_age_def
    by (simp only: sint_sbintrunc' signed_take_bit_eq_take_bit_shift take_bit_eq_mod) simp
qed

text \<open>C25. The wrap-around of the signed 64-bit age hides nothing: for a clock between second 300 and
  2^63, the age passes the two checks of the tick exactly if the feed's unsigned timestamp lies in
  the last 300 seconds.\<close>

theorem feed_age_exact:
  assumes "300 \<le> time_Unix now" and "time_Unix now < 2 ^ 63"
  shows "(0 \<le> feed_age now ts \<and> feed_age now ts \<le> settleMaxAgeSec)
    \<longleftrightarrow> (uint ts \<le> time_Unix now \<and> time_Unix now \<le> uint ts + 300)"
proof -
  define D where "D = time_Unix now - uint ts"
  have ts: "0 \<le> uint ts" "uint ts < 2 ^ 64" using unsigned_less [of ts] by simp_all
  with assms have D: "- (2 ^ 64) + 300 < D" "D < 2 ^ 63" unfolding D_def by linarith+
  have "feed_age now ts = (if - (2 ^ 63) \<le> D then D else D + 2 ^ 64)"
  proof (cases "- (2 ^ 63) \<le> D")
    case True
    with D have "(D + 2 ^ 63) mod 2 ^ 64 = D + 2 ^ 63" by (intro mod_pos_pos_trivial) simp_all
    with True show ?thesis by (simp add: feed_age_signed D_def [symmetric])
  next
    case False
    have "(D + 2 ^ 63) mod 2 ^ 64 = (D + 2 ^ 63 + 2 ^ 64) mod 2 ^ 64" by (rule mod_add_self2 [symmetric])
    also have "\<dots> = D + 2 ^ 63 + 2 ^ 64" using False D by (intro mod_pos_pos_trivial) simp_all
    finally show ?thesis using False by (simp add: feed_age_signed D_def [symmetric])
  qed
  then show ?thesis using D by (auto simp: settleMaxAgeSec_def D_def split: if_splits)
qed

theorem feed_age_exact_witness:
  "(0 \<le> feed_age (unix_time 1005) 1000 \<and> feed_age (unix_time 1005) 1000 \<le> settleMaxAgeSec)
    \<longleftrightarrow> (uint (1000 :: uint64) \<le> time_Unix (unix_time 1005) \<and> time_Unix (unix_time 1005) \<le> uint (1000 :: uint64) + 300)"
  by (rule feed_age_exact) (simp_all add: time_Unix_def unix_time_def second_ns_def)

section \<open>Nonces and fees\<close>

lemma next_free_Some:
  "next_free m c = Some n \<Longrightarrow> gm_get m n = None \<and> c \<le> n
    \<and> (\<forall>k. c \<le> k \<and> k < n \<longrightarrow> gm_get m k \<noteq> None)"
proof (induction m c rule: next_free.induct)
  case (1 m c)
  show ?case
  proof (cases "gm_get m c = None")
    case True
    then show ?thesis using 1(2) by (auto simp: next_free.simps [of m c] dest: leD)
  next
    case False
    with 1(2) have c: "c \<noteq> - 1" and nxt: "next_free m (c + 1) = Some n"
      by (simp_all add: next_free.simps [of m c] split: if_splits)
    note IH = 1(1) [OF False c nxt]
    have "k = c \<or> c + 1 \<le> k" if "c \<le> k" for k
      using that inc_le [of c k] by (cases "k = c") simp_all
    moreover have "c \<le> n" using IH word_le_step [OF c order.refl] by (blast intro: order.trans)
    ultimately show ?thesis using IH False by blast
  qed
qed

text \<open>C26. A nonce handed out belongs to no other order: a new reservation takes the least free nonce
  from the node's and the local floor on, records it and moves the floor past it; asking again for
  the same order returns its nonce and changes nothing.\<close>

theorem reserveNonce_exclusive:
  assumes "reserveNonce e i (w, x) = (Inr n, (w', x'))" and "gm_ok (nonceOwners w)"
  shows "gm_get (nonceOwners w') n = Some i
    \<and> (\<forall>k. k \<noteq> n \<longrightarrow> gm_get (nonceOwners w') k = gm_get (nonceOwners w) k)
    \<and> (w' = w \<or> (\<exists>remote. PendingNonceAt e (from_addr w) x = (Inr remote, x')
        \<and> gm_get (nonceOwners w) n = None \<and> remote \<le> n \<and> n \<noteq> - 1
        \<and> (nonceReady w \<longrightarrow> nextNonce w \<le> n) \<and> nextNonce w' = n + 1
        \<and> (\<forall>k. remote \<le> k \<and> k < n \<and> (nonceReady w \<longrightarrow> nextNonce w \<le> k) \<longrightarrow> gm_get (nonceOwners w) k \<noteq> None)))"
proof (cases "owned_nonce (nonceOwners w) i")
  case (Some m)
  then have "(m, i) \<in> set (nonceOwners w)"
    by (auto simp: owned_nonce_def find_Some_iff) (metis nth_mem)
  then have "gm_get (nonceOwners w) m = Some i" using assms(2) by (simp add: gm_get_iff)
  with Some assms(1) show ?thesis by (auto simp: reserveNonce_def)
next
  case None
  with assms(1) obtain remote x1 where r: "PendingNonceAt e (from_addr w) x = (Inr remote, x1)"
    by (auto simp: reserveNonce_def split: prod.splits sum.splits)
  define c where "c = (if nonceReady w \<and> nextNonce w > remote then nextNonce w else remote)"
  from assms(1) None r have n: "next_free (nonceOwners w) c = Some n" "n \<noteq> - 1" "x' = x1"
    "w' = w\<lparr>nonceOwners := gm_put n i (nonceOwners w), nextNonce := n + 1, nonceReady := True\<rparr>"
    by (auto simp: reserveNonce_def c_def [symmetric] Let_def split: option.splits if_splits)
  have "c \<le> k \<longleftrightarrow> remote \<le> k \<and> (nonceReady w \<longrightarrow> nextNonce w \<le> k)" for k
    by (auto simp: c_def)
  then show ?thesis using next_free_Some [OF n(1)] n r by auto
qed

theorem reserveNonce_exclusive_witness:
  "\<exists>(w' :: Watcher) x'. reserveNonce (demo_chain (\<lambda>x. Inr 1) (Inr True)) 9
      (demo_watcher\<lparr>nonceOwners := [(4, 1), (5, 2)]\<rparr>, ()) = (Inr 6, (w', x'))
    \<and> gm_get (nonceOwners w') 6 = Some 9 \<and> nextNonce w' = 7"
proof -
  let ?w = "demo_watcher\<lparr>nonceOwners := [(4, 1), (5, 2)]\<rparr>"
  obtain r w' x' where run: "reserveNonce (demo_chain (\<lambda>x. Inr 1) (Inr True)) 9 (?w, ()) = (r, (w', x'))"
    by (metis surj_pair)
  have "fst (reserveNonce (demo_chain (\<lambda>x. Inr 1) (Inr True)) 9 (?w, ())) = Inr 6"
    and "nextNonce (fst (snd (reserveNonce (demo_chain (\<lambda>x. Inr 1) (Inr True)) 9 (?w, ())))) = 7"
    by code_simp+
  with run have res: "reserveNonce (demo_chain (\<lambda>x. Inr 1) (Inr True)) 9 (?w, ()) = (Inr 6, (w', x'))"
    and "nextNonce w' = 7" by simp_all
  moreover have "gm_ok (nonceOwners ?w)" by (simp add: gm_ok_def)
  ultimately show ?thesis
    using reserveNonce_exclusive [OF res] by blast
qed

lemma bumped_price_bound: "9 * old < 8 * bumped_price old s"
proof -
  have "old * 9 < 8 * (old * 9 div 8 + 1)"
    using div_mult_mod_eq [of "old * 9" 8] pos_mod_bound [of 8 "old * 9"] by simp
  then show ?thesis by (auto simp: bumped_price_def Let_def)
qed

lemma replace_send_cases:
  "replace_send e i p t tx (w, x) = (r, (w', x')) \<Longrightarrow>
    broadcasts w' = broadcasts w @ [\<lparr>b_order = i, b_trigger = t, b_tx = tx,
        b_book = wstore w, b_mined = minedNonces w\<rparr>]
    \<or> broadcasts w' = broadcasts w \<and> r \<noteq> None"
  by (auto simp: replace_send_def broadcast_tx_eq split: sum.splits option.splits prod.splits)

text \<open>\<open>b\<close> replaces the broadcast \<open>p\<close> of order \<open>i\<close>: same order and nonce, the trigger \<open>t\<close>, more than
  nine eighths of the old gas price and at least a price the node suggested.\<close>

definition outbids :: "'w chain_env \<Rightarrow> uint64 \<Rightarrow> pendingSettlement \<Rightarrow> int \<Rightarrow> broadcast \<Rightarrow> bool" where
  "outbids e i p t b \<longleftrightarrow> b_order b = i \<and> b_trigger b = t \<and> tx_nonce (b_tx b) = nonce p
     \<and> 9 * gasPrice p < 8 * tx_gasPrice (b_tx b)
     \<and> (\<exists>suggested y z. SuggestGasPrice e y = (Inr suggested, z) \<and> suggested \<le> tx_gasPrice (b_tx b))"

lemma replace_owned_outbids:
  assumes "replace_owned e i p t (w, x) = (r, (w', x'))"
  shows "broadcasts w' = broadcasts w \<and> r \<noteq> None
    \<or> (\<exists>b. broadcasts w' = broadcasts w @ [b] \<and> outbids e i p t b)"
proof -
  have le: "s \<le> bumped_price old s" for old s by (simp add: bumped_price_def Let_def)
  show ?thesis
    using assms le bumped_price_bound
    by (fastforce simp: replace_owned_def outbids_def split: sum.splits prod.splits option.splits
        dest: replace_send_cases ensureChainID_history)
qed

text \<open>C27. A replacement keeps the nonce of the transaction it replaces and pays more than nine
  eighths of its gas price (the bump nodes demand is one tenth), at least the suggested one; it
  settles the same order at the current trigger. Otherwise nothing is sent and the error is
  returned.\<close>

theorem replacement_outbids:
  assumes "replacePending e i p t (w, x) = (r, (w', x'))"
  shows "broadcasts w' = broadcasts w \<and> r \<noteq> None
    \<or> (\<exists>b. broadcasts w' = broadcasts w @ [b] \<and> outbids e i p t b)"
proof -
  have "broadcasts (w\<lparr>nonceOwners := m\<rparr>) = broadcasts w" for m by simp
  then show ?thesis
    using assms replace_owned_outbids [of e i p t "w\<lparr>nonceOwners := gm_put (nonce p) i (nonceOwners w)\<rparr>" x r w' x']
    by (auto simp: replacePending_def split: option.splits if_splits)
qed

theorem replacement_outbids_witness:
  "\<exists>(w' :: Watcher) b. broadcasts w' = [b] \<and> tx_nonce (b_tx b) = 4 \<and> tx_gasPrice (b_tx b) = 113
    \<and> outbids (demo_chain (\<lambda>x. Inr 1) (Inr True)) 1 \<lparr>txHash = 4, nonce = 4, gasPrice = 100,
        triggerPrice = 20000, firstSeen = 0, missingChecks = 0\<rparr> 20000 b"
proof -
  let ?e = "demo_chain (\<lambda>x. Inr 1) (Inr True) :: unit chain_env"
  let ?p = "\<lparr>txHash = 4, nonce = 4, gasPrice = 100, triggerPrice = 20000, firstSeen = 0,
    missingChecks = 0\<rparr>"
  obtain r w' x' where run: "replacePending ?e 1 ?p 20000 (demo_watcher, ()) = (r, (w', x'))"
    by (metis surj_pair)
  have "fst (replacePending ?e 1 ?p 20000 (demo_watcher, ())) = None"
    and "map (\<lambda>b. tx_gasPrice (b_tx b)) (broadcasts (fst (snd (replacePending ?e 1 ?p 20000
        (demo_watcher, ()))))) = [113]"
    by code_simp+
  with run have "r = None" and "map (\<lambda>b. tx_gasPrice (b_tx b)) (broadcasts w') = [113]" by simp_all
  then obtain b where "broadcasts w' = [b]" "tx_gasPrice (b_tx b) = 113" "outbids ?e 1 ?p 20000 b"
    using replacement_outbids [OF run] by (auto simp: demo_watcher_def)
  moreover from this(3) have "tx_nonce (b_tx b) = 4" by (simp add: outbids_def)
  ultimately show ?thesis
    by (intro exI [of _ w'] exI [of _ b]) (auto simp: outbids_def demo_chain_def)
qed

section \<open>Retries and receipts\<close>

text \<open>\<open>settleWithRetry\<close> broadcasts at most three transactions, all of its order and at the trigger
  the scan decided on, and reports the order as settled only if the node returned a successful
  receipt for the last of them, in its last answer.\<close>

theorem settled_means_receipt:
  assumes "settleWithRetry e o1 (w, x) = ((ok, wait), (w', x'))"
  shows "\<exists>new. broadcasts w' = broadcasts w @ new \<and> length new \<le> 3
    \<and> list_all (\<lambda>b. b_order b = ID o1 \<and> TriggerPrice o1 = Some (b_trigger b)) new
    \<and> (ok \<longrightarrow> new \<noteq> [] \<and> confirmed e (last new) x')"
  using settleWithRetry_history [OF assms] by (force simp: list_all_iff sent_for_def)

text \<open>C22. One tick sends at most three transactions for any one order, all attempts and a
  replacement counted, and marks an order executed only on evidence from the chain: a transaction
  this tick sent for that order and the node confirmed with a successful receipt, or, for the
  order whose settlement was in flight before, a successful receipt of that transaction or the
  vault's own status 2 (executed).\<close>

theorem tick_executes_on_evidence:
  assumes "reach fresh_watcher (watch_step e) (w, x)"
  shows "\<exists>new. broadcasts (fst (snd (tick e (w, x)))) = broadcasts w @ new
    \<and> (\<forall>i. length (filter (\<lambda>b. b_order b = i) new) \<le> 3)
    \<and> (\<forall>i. order_phase (wstore (fst (snd (tick e (w, x))))) i = Done
         \<and> order_phase (wstore w) i \<noteq> Done
       \<longrightarrow> (\<exists>b z. b \<in> set new \<and> b_order b = i \<and> confirmed e b z)
         \<or> (\<exists>p. pending w = [(i, p)] \<and> executed_evidence e i p w))"
proof -
  have "nonce_inv w" "store_inv (wstore w)"
    using watch_machine.inv_reach [OF assms] by (simp_all add: watch_inv_def)
  from tick_history [OF this, of e x] show ?thesis unfolding tick_sends_def by blast
qed

text \<open>A world whose node confirms at once: the open order is executed by the one transaction sent.\<close>

theorem tick_executes_on_evidence_witness:
  "order_phase demo_store 1 = Live \<and> (\<exists>(w :: Watcher) b z. order_phase (wstore w) 1 = Done
     \<and> broadcasts w = [b] \<and> b_order b = 1 \<and> confirmed (demo_chain (\<lambda>x. Inr 1) (Inr True)) b (z :: unit))"
proof -
  let ?e = "demo_chain (\<lambda>x. Inr 1) (Inr True) :: unit chain_env"
  let ?w = "fst (snd (tick ?e (demo_watcher, ())))"
  have live: "order_phase demo_store 1 = Live" and now: "order_phase (wstore ?w) 1 = Done"
    and len: "length (broadcasts ?w) = 1"
    by code_simp+
  have idle: "pending demo_watcher = []" "wstore demo_watcher = demo_store" "broadcasts demo_watcher = []"
    by (simp_all add: demo_watcher_def)
  obtain new where new: "broadcasts ?w = broadcasts demo_watcher @ new"
    and ev: "\<exists>b z. b \<in> set new \<and> b_order b = 1 \<and> confirmed ?e b z"
    using tick_executes_on_evidence [OF demo_reach, of ?e "()"] live now idle by fastforce
  obtain b where "new = [b]" using len new idle by (auto simp: length_Suc_conv)
  with new ev idle have "broadcasts ?w = [b] \<and> b_order b = 1 \<and> (\<exists>z. confirmed ?e b z)" by auto
  with live now show ?thesis by blast
qed

section \<open>Forgetting a broadcast\<close>

text \<open>The answers of the node on which a pending settlement may be dropped.\<close>

inductive drop_evidence ::
    "'w chain_env \<Rightarrow> uint64 \<Rightarrow> pendingSettlement \<Rightarrow> int option \<Rightarrow> Watcher \<Rightarrow> 'w \<Rightarrow> bool"
  for e i p sampled w x where
  receipt: "TransactionReceipt e (txHash p) x = (Inr status, y) \<Longrightarrow> drop_evidence e i p sampled w x"
| waiting: "TransactionReceipt e (txHash p) x = (Inl NotFound, x1) \<Longrightarrow>
    TransactionByHash e (txHash p) x1 = (Inr True, x2) \<Longrightarrow> env_now e x2 = (now, x3) \<Longrightarrow>
    vault w' = vault w \<Longrightarrow> onChainOrderStatus e i (w', x3) = (Inr status, st) \<Longrightarrow> status \<in> {0, 2, 3} \<Longrightarrow>
    drop_evidence e i p sampled w x"
| mined: "TransactionReceipt e (txHash p) x = (Inl NotFound, x1) \<Longrightarrow>
    TransactionByHash e (txHash p) x1 = (Inr False, x2) \<Longrightarrow>
    vault w' = vault w \<Longrightarrow> onChainOrderStatus e i (w', x2) = (Inr status, st) \<Longrightarrow>
    status \<in> {0, 1, 2, 3} \<Longrightarrow> drop_evidence e i p sampled w x"
| missing: "TransactionReceipt e (txHash p) x = (Inl NotFound, x1) \<Longrightarrow>
    TransactionByHash e (txHash p) x1 = (Inl NotFound, x2) \<Longrightarrow>
    pendingDropChecks \<le> missingChecks p + 1 \<Longrightarrow>
    vault w' = vault w \<Longrightarrow> onChainOrderStatus e i (w', x2) = (Inr status, st) \<Longrightarrow>
    status \<in> {0, 2, 3} \<or> status = 1 \<and> sampled \<noteq> None \<Longrightarrow> drop_evidence e i p sampled w x"

lemma reconcileAgainstVault_keeps:
  assumes fl: "in_flight i p w" and mined: "mined_lt (nonce p) w"
    and gone: "pending (fst (reconcileAgainstVault e i p s txs (w, x))) = []"
  shows "\<exists>status st. onChainOrderStatus e i (w, x) = (Inr status, st) \<and>
    (status \<in> {0, 2, 3} \<or> status = 1 \<and> (txs = txMinedNoReceipt \<or> txs = txDropped \<and> s \<noteq> None))"
proof -
  obtain r w1 x1 where "onChainOrderStatus e i (w, x) = (r, (w1, x1))" by (metis surj_pair)
  with onChainOrderStatus_quiet have 1: "onChainOrderStatus e i (w, x) = (r, (w, x1))" by metis
  obtain trigger w2 x2 where 2: "w_effective e i (w, x1) = (trigger, (w2, x2))" by (metis surj_pair)
  have book: "book_only w w2" using w_effective_book [of "(w, x1)" e i] 2 by simp
  then have fl2: "in_flight i p w2" using fl by (simp add: book_only_in_flight)
  have mined2: "mined_lt (nonce p) w2" using mined book by (auto simp: book_only_def mined_lt_def)
  have repl: "pending (fst (snd (replacePending e i p t (w2, x2)))) \<noteq> []" for t
  proof -
    obtain r3 w3 x3 where 3: "replacePending e i p t (w2, x2) = (r3, (w3, x3))" by (metis surj_pair)
    show ?thesis using replacePending_step [OF 3 fl2 order.refl order.refl mined2] 3 by (auto simp: in_flight_def)
  qed
  have "pending w \<noteq> []" "pending w2 \<noteq> []" using fl fl2 by (simp_all add: in_flight_def)
  then show ?thesis
    using gone repl
    by (auto simp: reconcileAgainstVault_def 1 2 split: sum.splits option.splits if_splits)
qed

lemma known_drop_evidence:
  assumes fl: "in_flight i p w" and mined: "mined_lt (nonce p) w"
    and r1: "TransactionReceipt e (txHash p) x = (Inl NotFound, x1)"
    and q: "TransactionByHash e (txHash p) x1 = (Inr waiting, x2)"
    and un: "pending (fst (reconcileUnconfirmed e i p sampled (w, x1))) = []"
  shows "drop_evidence e i p sampled w x"
proof -
  obtain now x3 where now: "env_now e x2 = (now, x3)" by fastforce
  let ?p = "p\<lparr>missingChecks := 0\<rparr>"
  let ?w = "w\<lparr>pending := gm_put i ?p (pending w)\<rparr>"
  have fl': "in_flight i ?p ?w" by (rule in_flight_update [OF fl]) simp
  have mined': "mined_lt (nonce ?p) ?w" using mined by (simp add: mined_lt_def)
  note un_simps = reconcileUnconfirmed_def q now Let_def
  show ?thesis
  proof (cases waiting)
    case True
    have "pending ?w \<noteq> []" using fl' by (simp add: in_flight_def)
    then have "pending (fst (reconcileAgainstVault e i ?p sampled txStuck (?w, x3))) = []"
      using un True by (simp add: un_simps split: if_splits)
    from reconcileAgainstVault_keeps [OF fl' mined' this] show ?thesis
      using drop_evidence.waiting [OF r1 _ now, of ?w w] q True by auto
  next
    case False
    have "pending (fst (reconcileAgainstVault e i p sampled txMinedNoReceipt (w, x2))) = []"
      using un False by (simp add: un_simps)
    from reconcileAgainstVault_keeps [OF fl mined this] show ?thesis
      using drop_evidence.mined [OF r1, of x2 w w] q False by auto
  qed
qed

lemma missing_drop_evidence:
  assumes fl: "in_flight i p w" and mined: "mined_lt (nonce p) w"
    and r1: "TransactionReceipt e (txHash p) x = (Inl NotFound, x1)"
    and q: "TransactionByHash e (txHash p) x1 = (Inl er, x2)"
    and un: "pending (fst (reconcileUnconfirmed e i p sampled (w, x1))) = []"
  shows "drop_evidence e i p sampled w x"
proof -
  obtain now x3 where now: "env_now e x2 = (now, x3)" by fastforce
  let ?p = "p\<lparr>missingChecks := missingChecks p + 1\<rparr>"
  let ?w = "w\<lparr>pending := gm_put i ?p (pending w)\<rparr>"
  have fl': "in_flight i ?p ?w" by (rule in_flight_update [OF fl]) simp
  have mined': "mined_lt (nonce ?p) ?w" using mined by (simp add: mined_lt_def)
  have "pending w \<noteq> []" "pending ?w \<noteq> []" using fl fl' by (simp_all add: in_flight_def)
  then have gone: "pending (fst (reconcileAgainstVault e i ?p sampled txDropped (?w, x2))) = []"
      and er: "er = NotFound" "pendingDropChecks \<le> missingChecks p + 1"
    using un by (auto simp: reconcileUnconfirmed_def q now Let_def split: rpc_error.splits if_splits)
  from reconcileAgainstVault_keeps [OF fl' mined' gone] show ?thesis
    using drop_evidence.missing [OF r1 q [unfolded er(1)] er(2), of ?w w] by auto
qed

text \<open>C21. A broadcast is forgotten only on evidence: a receipt; a vault that says the order is
  executed, cancelled or unknown; or, with the order still open in the vault, a transaction mined
  without executing it, or missing at three consecutive checks while a fresh sample was at hand.\<close>

theorem dropped_with_evidence:
  assumes "reach fresh_watcher (watch_step e) (w, x)" and "pending w = [(i, p)]"
    and "pending (fst (reconcile_one e sampled (i, p) (w, x))) = []"
  shows "drop_evidence e i p sampled w x"
proof -
  have inv: "watch_inv (w, x)" by (rule watch_machine.inv_reach [OF assms(1)])
  then have fl: "in_flight i p w"
    using assms(2) by (auto simp: watch_inv_def nonce_inv_def idle_def in_flight_def)
  have mined: "mined_lt (nonce p) w"
    using inv fl by (simp add: watch_inv_def mined_below_def in_flight_floor)
  obtain r x1 where 1: "TransactionReceipt e (txHash p) x = (r, x1)" by fastforce
  obtain q x2 where 2: "TransactionByHash e (txHash p) x1 = (q, x2)" by fastforce
  show ?thesis
  proof (cases "\<exists>status. r = Inr status")
    case True
    with 1 show ?thesis by (auto intro: drop_evidence.receipt)
  next
    case False
    with assms(3) fl have un: "r = Inl NotFound"
        "pending (fst (reconcileUnconfirmed e i p sampled (w, x1))) = []"
      by (auto simp: reconcile_one_def 1 in_flight_def split: sum.splits rpc_error.splits)
    then show ?thesis
      using known_drop_evidence [OF fl mined] missing_drop_evidence [OF fl mined] 1 2 by (cases q) auto
  qed
qed

theorem dropped_with_evidence_witness:
  "\<exists>w. drop_evidence (demo_chain (\<lambda>x. if x then Inr 0 else Inl NotFound) (Inr True)) 1
     \<lparr>txHash = 4, nonce = 4, gasPrice = 25, triggerPrice = 20000, firstSeen = unix_time 1005,
      missingChecks = 0\<rparr> None w True"
proof -
  let ?e = "demo_chain (\<lambda>x. if x then Inr 0 else Inl NotFound) (Inr True)"
  let ?w = "fst (snd (tick ?e (demo_watcher, False)))"
  let ?p = "\<lparr>txHash = 4, nonce = 4, gasPrice = 25, triggerPrice = 20000, firstSeen = unix_time 1005,
      missingChecks = 0\<rparr>"
  have "pending ?w = [(1, ?p)]" by code_simp
  moreover have "pending (fst (reconcile_one ?e None (1, ?p) (?w, True))) = []" by code_simp
  ultimately have "drop_evidence ?e 1 ?p None ?w True"
    by (rule dropped_with_evidence [OF demo_reach_tick])
  then show ?thesis by (rule exI)
qed

end
