(* ===== verification/Watcher_Liveness.thy ===== *)
theory Watcher_Liveness
  imports Watcher_Methods
begin

text \<open>
  What a tick achieves when the node cooperates: every triggered order is settled and marked
  executed within that tick, and no other order is touched.
\<close>

section \<open>A cooperative node\<close>

text \<open>Every call succeeds, receipts are immediate and successful, the node's nonces stay at or below
  \<open>B\<close>, and no request handler runs during the tick.\<close>

definition cooperative :: "'w chain_env \<Rightarrow> nat \<Rightarrow> bool" where
  "cooperative e B \<longleftrightarrow>
     (\<forall>x. \<exists>x'. env_handlers e x = ([], x')) \<and> (\<forall>x. \<exists>g x'. SuggestGasPrice e x = (Inr g, x'))
   \<and> (\<forall>a x. \<exists>n x'. PendingNonceAt e a x = (Inr n, x') \<and> unat n \<le> B)
   \<and> (\<forall>a v d x. \<exists>g x'. EstimateGas e a v d x = (Inr g, x'))
   \<and> (\<forall>s x. \<exists>x'. SendTransaction e s x = (None, x'))
   \<and> (\<forall>h x. \<exists>x'. TransactionReceipt e h x = (Inr ReceiptStatusSuccessful, x'))
   \<and> (\<forall>x. \<exists>c x'. ChainID e x = (Inr c, x')) \<and> (\<forall>i t m. \<exists>d. abi_pack_settle e i (Some t) m = Inr d)
   \<and> (\<forall>c t. \<exists>s. sign_transaction e c t = Inr s)"

lemma cooperativeD:
  assumes "cooperative e B"
  shows "\<exists>x'. env_handlers e x = ([], x')" "\<exists>g x'. SuggestGasPrice e x = (Inr g, x')"
    "\<exists>n x'. PendingNonceAt e a x = (Inr n, x') \<and> unat n \<le> B"
    "\<exists>g x'. EstimateGas e a v d x = (Inr g, x')" "\<exists>x'. SendTransaction e s x = (None, x')"
    "\<exists>x'. TransactionReceipt e h x = (Inr ReceiptStatusSuccessful, x')"
    "\<exists>c x'. ChainID e x = (Inr c, x')" "\<exists>d. abi_pack_settle e i (Some t) m = Inr d"
    "\<exists>s. sign_transaction e c tx = Inr s"
  using assms unfolding cooperative_def by blast+

lemma interfere_coop: "cooperative e B \<Longrightarrow> \<exists>x'. interfere e (w, x) = (w, x')"
  using cooperativeD(1) [of e B x] by (auto simp: interfere_def)

text \<open>The nonce bookkeeping has room: the local floor is at most \<open>K\<close>, below the last nonce.\<close>

definition has_room :: "nat \<Rightarrow> Watcher \<Rightarrow> bool" where
  "has_room K w \<longleftrightarrow> idle w \<and> unat (nonce_floor w) \<le> K"

lemma reserveNonce_coop:
  assumes co: "cooperative e B" and room: "has_room K w" and "B \<le> K" "K < 2 ^ 64 - 1"
  shows "\<exists>n x'. reserveNonce e i (w, x) = (Inr n, (w\<lparr>nonceOwners := [(n, i)], nextNonce := n + 1,
    nonceReady := True\<rparr>, x')) \<and> unat n \<le> K \<and> n \<noteq> - 1"
proof -
  obtain r x' where r: "PendingNonceAt e (from_addr w) x = (Inr r, x')" "unat r \<le> B"
    using cooperativeD(3) [OF co] by blast
  define c where "c = (if nonceReady w \<and> nextNonce w > r then nextNonce w else r)"
  have le: "unat c \<le> K"
    using r(2) room assms(3) by (auto simp: c_def has_room_def idle_def nonce_floor_def)
  have "c \<noteq> - 1"
  proof
    assume "c = - 1"
    then have "unat c = 2 ^ 64 - 1" by (simp add: unsigned_minus_1_eq_mask mask_eq_exp_minus_1)
    with le assms(4) show False by simp
  qed
  then show ?thesis
    using room le r(1) by (auto simp: reserveNonce_def has_room_def idle_def c_def [symmetric] Let_def)
qed

lemma settleOnce_coop:
  assumes co: "cooperative e B" and room: "has_room K w" and "B \<le> K" "K < 2 ^ 64 - 1"
    and t: "TriggerPrice o1 = Some t"
  shows "\<exists>w' x' b. settleOnce e o1 (w, x) = (None, (w', x')) \<and> wstore w' = wstore w \<and> has_room (Suc K) w'
    \<and> broadcasts w' = broadcasts w @ [b] \<and> b_order b = ID o1 \<and> b_trigger b = t"
proof -
  obtain d where d: "packSettleCalldata e (ID o1) (Some t) settleMaxAgeSec = Inr d"
    using cooperativeD(8) [OF co, of "uint (ID o1)" t settleMaxAgeSec] t by (auto simp: packSettleCalldata_def)
  obtain w1 x1 where w1: "ensureChainID e (w, x) = (None, (w1, x1))"
    using cooperativeD(7) [OF co, of x] by (cases "chainID w") (auto simp: ensureChainID_def)
  note q = ensureChainID_quiet [OF w1]
  have room1: "has_room K w1"
    using room q nonce_floor_cong [of w1 w] by (simp add: has_room_def idle_def)
  obtain gp x2 where gp: "SuggestGasPrice e x1 = (Inr gp, x2)" using cooperativeD(2) [OF co] by blast
  obtain gas x3 where gas: "EstimateGas e (from_addr w1) (vault w1) d x2 = (Inr gas, x3)"
    using cooperativeD(4) [OF co] by blast
  obtain n x4 where n: "reserveNonce e (ID o1) (w1, x3) = (Inr n, (w1\<lparr>nonceOwners := [(n, ID o1)],
      nextNonce := n + 1, nonceReady := True\<rparr>, x4))" "unat n \<le> K" "n \<noteq> - 1"
    using reserveNonce_coop [OF co room1 assms(3,4)] by blast
  let ?w = "w1\<lparr>nonceOwners := [(n, ID o1)], nextNonce := n + 1, nonceReady := True\<rparr>"
  let ?t = "\<lparr>tx_nonce = n, tx_to = vault w1, tx_value = 0, tx_gas = gas, tx_gasPrice = gp, tx_data = d\<rparr>"
  obtain s where s: "sign_transaction e (the (chainID w1)) ?t = Inr s"
    using cooperativeD(9) [OF co] by blast
  obtain now x5 where now: "env_now e x4 = (now, x5)" by fastforce
  obtain x6 where x6: "SendTransaction e s x5 = (None, x6)" using cooperativeD(5) [OF co] by blast
  obtain x7 where x7: "TransactionReceipt e (signed_hash s) x6 = (Inr ReceiptStatusSuccessful, x7)"
    using cooperativeD(6) [OF co] by blast
  define b where "b = \<lparr>b_order = ID o1, b_trigger = t, b_tx = ?t, b_book = wstore w1, b_mined = minedNonces w1\<rparr>"
  define w' where "w' = releaseNonce (ID o1) n True (saw_mined n (?w\<lparr>broadcasts := broadcasts w1 @ [b]\<rparr>))"
  have "settleOnce e o1 (w, x) = (None, (w', x7))"
    by (simp add: settleOnce_def d w1 gp gas n(1) settle_build_def s t settle_send_def now
        broadcast_tx_def x6 x7 w'_def b_def Let_def)
  moreover have "has_room (Suc K) w'"
    using room1 n(2) max_uint64_step [OF n(3)]
    by (simp add: has_room_def w'_def idle_def releaseNonce_def nonce_floor_def Let_def)
  moreover have "wstore w' = wstore w"
      "broadcasts w' = broadcasts w @ [b]" "b_order b = ID o1" "b_trigger b = t"
    using q by (simp_all add: w'_def b_def)
  ultimately show ?thesis by blast
qed

lemma settleWithRetry_coop:
  assumes "cooperative e B" and "has_room K w" and "B \<le> K" "K < 2 ^ 64 - 1"
    and "TriggerPrice o1 = Some t"
  shows "\<exists>w' x' b. settleWithRetry e o1 (w, x) = ((True, False), (w', x')) \<and> wstore w' = wstore w
    \<and> has_room (Suc K) w' \<and> broadcasts w' = broadcasts w @ [b] \<and> b_order b = ID o1 \<and> b_trigger b = t"
  using settleOnce_coop [OF assms, of x]
  by (fastforce simp: settleWithRetry_def settleAttempts_def numeral_3_eq_3)

text \<open>One order of the loop: it is skipped unless open, else settled, marked and appended to the history.\<close>

lemma settle_one_coop:
  assumes co: "cooperative e B" and room: "has_room K w" and "B \<le> K" "K < 2 ^ 64 - 1" and "wants p o1"
  shows "\<exists>w' x'. settle_triggered e (o1 # os) (w, x) = settle_triggered e os (w', x') \<and> has_room (Suc K) w'
    \<and> (if order_phase (wstore w) (ID o1) = Live
       then wstore w' = snd (MarkExecuted (ID o1) (wstore w))
         \<and> (\<exists>b. TriggerPrice o1 = Some (b_trigger b) \<and> broadcasts w' = broadcasts w @ [b] \<and> b_order b = ID o1)
       else wstore w' = wstore w \<and> broadcasts w' = broadcasts w)"
proof -
  obtain x1 where x1: "interfere e (w, x) = (w, x1)" using interfere_coop [OF co] by blast
  have nopend: "pending w = []" using room by (simp add: has_room_def idle_def)
  show ?thesis
  proof (cases "order_phase (wstore w) (ID o1) = Live")
    case False
    then have "settle_triggered e (o1 # os) (w, x) = settle_triggered e os (w, x1)"
      using nopend by (auto simp: w_get_def x1 Get_def order_phase_def split: option.splits if_splits)
    moreover have "has_room (Suc K) w" using room by (simp add: has_room_def)
    ultimately show ?thesis using False by auto
  next
    case True
    obtain t where t: "TriggerPrice o1 = Some t" using assms(5) by (auto simp: wants_def)
    obtain w2 x2 b where run: "settleWithRetry e o1 (w, x1) = ((True, False), (w2, x2))"
      and st: "wstore w2 = wstore w" and room2: "has_room (Suc K) w2"
      and sent: "broadcasts w2 = broadcasts w @ [b]" "b_order b = ID o1" "b_trigger b = t"
      using settleWithRetry_coop [OF co room assms(3,4) t, of x1] by blast
    obtain x3 where x3: "interfere e (w2, x2) = (w2, x3)" using interfere_coop [OF co] by blast
    let ?w3 = "w2\<lparr>wstore := snd (MarkExecuted (ID o1) (wstore w2))\<rparr>"
    have "settle_triggered e (o1 # os) (w, x) = settle_triggered e os (?w3, x3)"
      using nopend True run x3
      by (auto simp: w_get_def x1 Get_def w_mark_def order_phase_def split: option.splits if_splits)
    moreover have "has_room (Suc K) ?w3"
      using room2 nonce_floor_cong [of ?w3 w2] by (simp add: has_room_def idle_def)
    ultimately show ?thesis
      using True t st sent by (intro exI [of _ ?w3] exI [of _ x3]) simp
  qed
qed

lemma settle_triggered_coop:
  assumes "cooperative e B"
  shows "has_room K w \<Longrightarrow> B \<le> K \<Longrightarrow> K + length os < 2 ^ 64 - 1 \<Longrightarrow> \<forall>o1 \<in> set os. wants p o1 \<Longrightarrow>
    order_phase (wstore (fst (settle_triggered e os (w, x)))) i =
      (if i \<in> ID ` set os \<and> order_phase (wstore w) i = Live then Done else order_phase (wstore w) i)"
proof (induction os arbitrary: K w x)
  case Nil
  then show ?case by simp
next
  case (Cons o1 os)
  have K: "K < 2 ^ 64 - 1" and o1: "wants p o1" using Cons.prems(3,4) by simp_all
  obtain w3 x3 where step: "settle_triggered e (o1 # os) (w, x) = settle_triggered e os (w3, x3)"
    and room: "has_room (Suc K) w3" and book: "wstore w3 = (if order_phase (wstore w) (ID o1) = Live
        then snd (MarkExecuted (ID o1) (wstore w)) else wstore w)"
    using settle_one_coop [OF assms Cons.prems(1,2) K o1, of os x] by (auto split: if_splits)
  have "order_phase (wstore (fst (settle_triggered e os (w3, x3)))) i =
      (if i \<in> ID ` set os \<and> order_phase (wstore w3) i = Live then Done else order_phase (wstore w3) i)"
    using Cons.prems(2-4) by (intro Cons.IH [OF room]) simp_all
  then show ?case unfolding step book by (auto simp: book.mark_phase)
qed

text \<open>Every open order of the loop is broadcast, with the trigger it has there.\<close>

lemma settle_triggered_sends:
  assumes "cooperative e B"
  shows "has_room K w \<Longrightarrow> B \<le> K \<Longrightarrow> K + length os < 2 ^ 64 - 1 \<Longrightarrow> \<forall>o1 \<in> set os. wants p o1 \<Longrightarrow>
    \<exists>new. broadcasts (fst (settle_triggered e os (w, x))) = broadcasts w @ new
      \<and> (i \<in> ID ` set os \<and> order_phase (wstore w) i = Live \<longrightarrow>
          (\<exists>b \<in> set new. \<exists>o1 \<in> set os. b_order b = i \<and> ID o1 = i \<and> TriggerPrice o1 = Some (b_trigger b)))"
proof (induction os arbitrary: K w x)
  case Nil
  then show ?case by simp
next
  case (Cons o1 os)
  have K: "K < 2 ^ 64 - 1" and o1: "wants p o1" using Cons.prems(3,4) by simp_all
  obtain w3 x3 where step: "settle_triggered e (o1 # os) (w, x) = settle_triggered e os (w3, x3)"
    and room: "has_room (Suc K) w3" and eff: "if order_phase (wstore w) (ID o1) = Live
       then wstore w3 = snd (MarkExecuted (ID o1) (wstore w))
         \<and> (\<exists>b. TriggerPrice o1 = Some (b_trigger b) \<and> broadcasts w3 = broadcasts w @ [b] \<and> b_order b = ID o1)
       else wstore w3 = wstore w \<and> broadcasts w3 = broadcasts w"
    using settle_one_coop [OF assms Cons.prems(1,2) K o1, of os x] by blast
  obtain new where new: "broadcasts (fst (settle_triggered e os (w3, x3))) = broadcasts w3 @ new"
      "i \<in> ID ` set os \<and> order_phase (wstore w3) i = Live \<longrightarrow>
        (\<exists>b \<in> set new. \<exists>o1 \<in> set os. b_order b = i \<and> ID o1 = i \<and> TriggerPrice o1 = Some (b_trigger b))"
    using Cons.IH [OF room, of x3] Cons.prems(2-4) by auto
  show ?case
  proof (cases "order_phase (wstore w) (ID o1) = Live")
    case True
    then obtain b where st: "wstore w3 = snd (MarkExecuted (ID o1) (wstore w))"
        "TriggerPrice o1 = Some (b_trigger b)" "broadcasts w3 = broadcasts w @ [b]" "b_order b = ID o1"
      using eff by auto
    show ?thesis
    proof (cases "i = ID o1")
      case True
      with st new show ?thesis unfolding step by auto
    next
      case False
      with st new show ?thesis unfolding step by (auto simp: book.mark_phase)
    qed
  next
    case False
    then show ?thesis using eff new unfolding step by auto
  qed
qed

section \<open>A tick settles what it finds\<close>

lemma sample_price_coop:
  assumes "cooperative e B"
  shows "\<exists>s x'. sample_price e p ts (w, x) =
    (fst (TriggeredOrders (Some p) (wstore w)), (w\<lparr>wstore := s\<rparr>, x'))
    \<and> (\<forall>i. order_phase s i = order_phase (wstore w) i)"
proof -
  obtain x1 where x1: "interfere e (w, x) = (w, x1)" using interfere_coop [OF assms] by blast
  let ?s = "ObservePrice (Some p) (unix_time (sint ts)) (wstore w)"
  obtain x2 where x2: "interfere e (w\<lparr>wstore := ?s\<rparr>, x1) = (w\<lparr>wstore := ?s\<rparr>, x2)"
    using interfere_coop [OF assms] by blast
  have "fst (TriggeredOrders (Some p) ?s) = fst (TriggeredOrders (Some p) (wstore w))"
    by (simp add: TriggeredOrders_def case_prod_beta Let_def)
  then show ?thesis
    by (auto simp: sample_price_def x1 x2 case_prod_beta Trigger_phase order_phase_def [of ?s]
        order_phase_def [of "wstore w"])
qed

lemma triggered_ids:
  assumes "store_inv s" and "0 < p"
  shows "i \<in> ID ` set (fst (TriggeredOrders (Some p) s)) \<longleftrightarrow>
    (\<exists>t. EffectiveTrigger i (snd (TriggeredOrders (Some p) s)) = Some t \<and> p \<le> t)" (is "_ \<longleftrightarrow> ?r")
proof
  assume "i \<in> ID ` set (fst (TriggeredOrders (Some p) s))"
  then show ?r using triggered_set [OF assms] by force
next
  assume ?r
  then obtain t where t: "EffectiveTrigger i (snd (TriggeredOrders (Some p) s)) = Some t" "p \<le> t"
    by blast
  from t(1) obtain o1 where o1: "gm_get (orders (snd (TriggeredOrders (Some p) s))) i = Some o1"
    by (auto simp: EffectiveTrigger_def split: option.splits)
  have "ID o1 = i"
    using store_inv_get [OF TriggeredOrders_inv [OF assms(1)] o1] by simp
  then have "o1\<lparr>TriggerPrice := Some t\<rparr> \<in> set (fst (TriggeredOrders (Some p) s))"
    using t o1 by (simp add: triggered_set [OF assms])
  with \<open>ID o1 = i\<close> show "i \<in> ID ` set (fst (TriggeredOrders (Some p) s))"
    by (intro image_eqI [of _ _ "o1\<lparr>TriggerPrice := Some t\<rparr>"]) simp_all
qed

text \<open>Such a tick is the settling loop over the triggered orders, from a watcher with room and the same
  phases and history.\<close>

lemma tick_coop:
  assumes "cooperative e B" and "idle w" and "store_inv (wstore w)"
    and "fresh_sample e (w, x) = Some price" and "0 < price"
    and "max B (unat (nonce_floor w)) + length (orders (wstore w)) < 2 ^ 64 - 1"
  shows "\<exists>w' x'. snd (tick e (w, x)) = settle_triggered e (fst (TriggeredOrders (Some price) (wstore w))) (w', x')
    \<and> has_room (max B (unat (nonce_floor w))) w' \<and> (\<forall>i. order_phase (wstore w') i = order_phase (wstore w) i)
    \<and> broadcasts w' = broadcasts w
    \<and> max B (unat (nonce_floor w)) + length (fst (TriggeredOrders (Some price) (wstore w))) < 2 ^ 64 - 1"
proof -
  obtain r w1 x1 where cp: "currentPrice e (w, x) = (r, (w1, x1))" by (metis surj_pair)
  obtain now x2 where now: "env_now e x1 = (now, x2)" by fastforce
  obtain a where w1: "w1 = w\<lparr>ftso := a\<rparr>" using currentPrice_quiet [OF cp] by blast
  from assms(4) obtain ts where r: "r = Inr (price, ts)" and age: "0 \<le> feed_age now ts"
      "feed_age now ts \<le> settleMaxAgeSec"
    by (auto simp: fresh_sample_def cp now Let_def split: sum.splits prod.splits if_splits)
  let ?hits = "fst (TriggeredOrders (Some price) (wstore w))"
  obtain s x3 where sp: "sample_price e price ts (w1, x2) = (?hits, (w1\<lparr>wstore := s\<rparr>, x3))"
    and phase: "\<And>i. order_phase s i = order_phase (wstore w) i"
    using sample_price_coop [OF assms(1), of price ts w1 x2] by (auto simp: w1)
  have idle1: "reconcilePending e (Some price) (w1\<lparr>wstore := s\<rparr>, x3) = (w1\<lparr>wstore := s\<rparr>, x3)"
    using assms(2) by (simp add: reconcilePending_def idle_def w1)
  have "snd (tick e (w, x)) = settle_triggered e ?hits (w1\<lparr>wstore := s\<rparr>, x3)"
    using age by (simp add: tick_def cp r now sp idle1 Let_def)
  moreover have "length ?hits \<le> length (orders (wstore w))"
    using assms(5) by (simp add: TriggeredOrders_hits raw_hits_def List.map_filter_def)
  moreover have "has_room (max B (unat (nonce_floor w))) (w1\<lparr>wstore := s\<rparr>)"
    using assms(2) nonce_floor_cong [of "w1\<lparr>wstore := s\<rparr>" w]
    by (simp add: has_room_def idle_def w1)
  ultimately show ?thesis
    using phase assms(6) by (intro exI [of _ "w1\<lparr>wstore := s\<rparr>"] exI [of _ x3]) (simp add: w1)
qed

lemma triggered_live:
  assumes "EffectiveTrigger i (snd (TriggeredOrders p s)) = Some t"
  shows "order_phase s i = Live"
proof -
  have "order_phase (snd (TriggeredOrders p s)) i = Live"
    using assms by (auto simp: EffectiveTrigger_eq order_phase_def split: option.splits if_splits)
  then show ?thesis by (simp add: Trigger_phase)
qed

lemma tick_phases:
  assumes "cooperative e B" and "idle w" and "store_inv (wstore w)"
    and "fresh_sample e (w, x) = Some price" and "0 < price"
    and "max B (unat (nonce_floor w)) + length (orders (wstore w)) < 2 ^ 64 - 1"
  shows "order_phase (wstore (fst (snd (tick e (w, x))))) i =
    (if i \<in> ID ` set (fst (TriggeredOrders (Some price) (wstore w))) \<and> order_phase (wstore w) i = Live then Done
     else order_phase (wstore w) i)"
proof -
  let ?hits = "fst (TriggeredOrders (Some price) (wstore w))"
  obtain w' x' where tick: "snd (tick e (w, x)) = settle_triggered e ?hits (w', x')"
    and room: "has_room (max B (unat (nonce_floor w))) w'"
    and phase: "\<forall>i. order_phase (wstore w') i = order_phase (wstore w) i"
    and small: "max B (unat (nonce_floor w)) + length ?hits < 2 ^ 64 - 1"
    using tick_coop [OF assms] by blast
  show ?thesis
    unfolding tick using settle_triggered_coop [OF assms(1) room _ small, of price] triggered_wants phase by simp
qed

lemma tick_done:
  assumes "cooperative e B" and "idle w" and "store_inv (wstore w)"
    and "fresh_sample e (w, x) = Some price" and "0 < price"
    and "max B (unat (nonce_floor w)) + length (orders (wstore w)) < 2 ^ 64 - 1"
    and "EffectiveTrigger i (snd (TriggeredOrders (Some price) (wstore w))) = Some t" and "price \<le> t"
  shows "order_phase (wstore (fst (snd (tick e (w, x))))) i = Done"
  using tick_phases [OF assms(1-6), of i] triggered_ids [OF assms(3,5), of i] triggered_live [OF assms(7)] assms(7,8) by auto

text \<open>C9. With a cooperative node and an idle watcher, a tick with a fresh positive sample executes
  exactly the open orders whose effective trigger is at or above the price, and leaves every other
  order in its phase.\<close>

theorem tick_executes_triggered:
  assumes "cooperative e B" and "idle w" and "store_inv (wstore w)"
    and "fresh_sample e (w, x) = Some price" and "0 < price"
    and "max B (unat (nonce_floor w)) + length (orders (wstore w)) < 2 ^ 64 - 1"
  shows "order_phase (wstore (fst (snd (tick e (w, x))))) i =
    (if \<exists>t. EffectiveTrigger i (snd (TriggeredOrders (Some price) (wstore w))) = Some t \<and> price \<le> t
     then Done else order_phase (wstore w) i)"
  using tick_phases [OF assms, of i] triggered_ids [OF assms(3,5), of i] triggered_live by auto

text \<open>The transaction of an order that the tick executes is in the history, with its trigger.\<close>

lemma tick_sends_triggered:
  assumes "cooperative e B" and "idle w" and "store_inv (wstore w)"
    and "fresh_sample e (w, x) = Some price" and "0 < price"
    and "max B (unat (nonce_floor w)) + length (orders (wstore w)) < 2 ^ 64 - 1"
    and "EffectiveTrigger i (snd (TriggeredOrders (Some price) (wstore w))) = Some t" and "price \<le> t"
  shows "\<exists>new b. broadcasts (fst (snd (tick e (w, x)))) = broadcasts w @ new \<and> b \<in> set new
    \<and> b_order b = i \<and> b_trigger b = t"
proof -
  let ?hits = "fst (TriggeredOrders (Some price) (wstore w))"
  obtain w' x' where tick: "snd (tick e (w, x)) = settle_triggered e ?hits (w', x')"
    and room: "has_room (max B (unat (nonce_floor w))) w'"
    and phase: "\<forall>i. order_phase (wstore w') i = order_phase (wstore w) i"
    and hist: "broadcasts w' = broadcasts w"
    and small: "max B (unat (nonce_floor w)) + length ?hits < 2 ^ 64 - 1"
    using tick_coop [OF assms(1-6)] by blast
  have "i \<in> ID ` set ?hits" using triggered_ids [OF assms(3,5)] assms(7,8) by blast
  then obtain new b o1 where new: "broadcasts (fst (snd (tick e (w, x)))) = broadcasts w @ new" "b \<in> set new"
      "o1 \<in> set ?hits" "b_order b = i" "ID o1 = i" "TriggerPrice o1 = Some (b_trigger b)"
    using settle_triggered_sends [OF assms(1) room _ small, of price x' i] triggered_wants phase hist
      triggered_live [OF assms(7)] unfolding tick by auto
  have "b_trigger b = t"
    using new(3,5,6) assms(7) by (auto simp: triggered_set [OF assms(3,5)])
  with new show ?thesis by blast
qed

theorem tick_executes_triggered_witness:
  "order_phase (wstore (fst (snd (tick (demo_chain (\<lambda>x. Inr 1) (Inr True)) (demo_watcher, ()))))) 1 = Done"
proof -
  let ?e = "demo_chain (\<lambda>x. Inr 1) (Inr True) :: unit chain_env"
  have co: "cooperative ?e 4" by (simp add: cooperative_def demo_chain_def ReceiptStatusSuccessful_def)
  have idle: "idle demo_watcher" by (simp add: idle_def demo_watcher_def)
  have inv: "store_inv (wstore demo_watcher)" by (simp add: demo_watcher_def demo_store_inv)
  have sample: "fresh_sample ?e (demo_watcher, ()) = Some 19000" by code_simp
  have room: "max 4 (unat (nonce_floor demo_watcher)) + length (orders (wstore demo_watcher)) < 2 ^ 64 - 1"
    by (simp add: nonce_floor_def demo_watcher_def demo_store_def)
  have "EffectiveTrigger 1 (snd (TriggeredOrders (Some 19000) (wstore demo_watcher))) = Some 20000"
    by code_simp
  then show ?thesis
    using tick_executes_triggered [OF co idle inv sample _ room, of 1] by simp
qed

end
