(* ===== verification/Order_Policy.thy ===== *)
theory Order_Policy
  imports Go_Json Order_Lifecycle
begin

text \<open>
  \<open>internal/extension/crypto.go\<close>: the enclave's ECIES identity and the parser of decrypted order
  policies. The cryptography itself is go-ethereum's and a parameter; the parser is modelled on
  the bytes of the plaintext.
\<close>

section \<open>The enclave identity\<close>

text \<open>The functions of go-ethereum's \<open>crypto\<close> and \<open>crypto/ecies\<close> packages the code calls, over an
  abstract type of keys; encryption and key generation also consume a source of randomness.\<close>

record 'k crypto_lib =
  ecies_GenerateKey :: "bytes \<Rightarrow> string + 'k"
  HexToECDSA :: "string \<Rightarrow> string + 'k"
  FromECDSAPub :: "'k \<Rightarrow> bytes"
  FromECDSA :: "'k \<Rightarrow> bytes"
  ecies_Encrypt :: "bytes \<Rightarrow> 'k \<Rightarrow> bytes \<Rightarrow> string + bytes"
  ecies_Decrypt :: "'k \<Rightarrow> bytes \<Rightarrow> string + bytes"

record 'k Crypto =
  key :: 'k

definition NewCrypto :: "'k crypto_lib \<Rightarrow> bytes \<Rightarrow> string + 'k Crypto" where
  "NewCrypto L rand = (case ecies_GenerateKey L rand of
     Inl m \<Rightarrow> Inl (''generating ecies keypair: '' @ m) | Inr k \<Rightarrow> Inr \<lparr>key = k\<rparr>)"

definition NewCryptoFromHex :: "'k crypto_lib \<Rightarrow> string \<Rightarrow> string + 'k Crypto" where
  "NewCryptoFromHex L privHex =
     (let h = (if 2 \<le> length privHex \<and> take 2 privHex = ''0x'' then drop 2 privHex else privHex)
      in case HexToECDSA L h of
           Inl m \<Rightarrow> Inl (''importing private key: '' @ m) | Inr k \<Rightarrow> Inr \<lparr>key = k\<rparr>)"

definition PublicKeyHex :: "'k crypto_lib \<Rightarrow> 'k Crypto \<Rightarrow> string" where
  "PublicKeyHex L c = ''0x'' @ hex_encode (FromECDSAPub L (key c))"

definition PrivateKeyHex :: "'k crypto_lib \<Rightarrow> 'k Crypto \<Rightarrow> string" where
  "PrivateKeyHex L c = ''0x'' @ hex_encode (FromECDSA L (key c))"

definition Encrypt :: "'k crypto_lib \<Rightarrow> bytes \<Rightarrow> 'k Crypto \<Rightarrow> bytes \<Rightarrow> string + bytes" where
  "Encrypt L rand c plaintext = ecies_Encrypt L rand (key c) plaintext"

definition Decrypt :: "'k crypto_lib \<Rightarrow> 'k Crypto \<Rightarrow> bytes \<Rightarrow> string + bytes" where
  "Decrypt L c ciphertext = (case ecies_Decrypt L (key c) ciphertext of
     Inl m \<Rightarrow> Inl (''ecies decrypt: '' @ m) | Inr p \<Rightarrow> Inr p)"

section \<open>Validating the keys\<close>

datatype policy_error = PlaintextSize | PlaintextDecode dec_error | NotAnObject
  | KeyDecode dec_error | KeyNotString | UnknownField bytes | DuplicateField bytes
  | FieldDecode bytes dec_error | ObjectEnd dec_error | TrailingJson | TrailingDecode dec_error
  | StructDecode | TrailingNeedsTrailBps | TrailBpsRange | FixedNeedsTrigger | TriggerRange
  | UnknownStrategy | IsTrailingPolicy

text \<open>Anything but the end of input after the first value is an error.\<close>

definition ensureJSONEOF :: "decoder \<Rightarrow> policy_error option" where
  "ensureJSONEOF d = (case dec_Decode d of
     Inr _ \<Rightarrow> Some TrailingJson
   | Inl DecEOF \<Rightarrow> None
   | Inl er \<Rightarrow> Some (TrailingDecode er))"

definition allowed_fields :: "bytes list" where
  "allowed_fields = [''strategy'', ''triggerPrice'', ''trailBps'']"

text \<open>The loop of \<open>validateOrderJSONKeys\<close>; every turn consumes input, so the length of the input is
  enough fuel.\<close>

fun validate_keys :: "nat \<Rightarrow> bytes set \<Rightarrow> decoder \<Rightarrow> policy_error + decoder" where
  "validate_keys 0 seen d = Inr d"
| "validate_keys (Suc n) seen d =
     (if \<not> dec_More d then Inr d
      else (case dec_Token d of
        Inl er \<Rightarrow> Inl (KeyDecode er)
      | Inr (Value (JStr k), d1) \<Rightarrow>
          if k \<notin> set allowed_fields then Inl (UnknownField k)
          else if k \<in> seen then Inl (DuplicateField k)
          else (case dec_Decode d1 of
              Inl er \<Rightarrow> Inl (FieldDecode k er)
            | Inr (_, d2) \<Rightarrow> validate_keys n (insert k seen) d2)
      | Inr _ \<Rightarrow> Inl KeyNotString))"

definition validateOrderJSONKeys :: "bytes \<Rightarrow> policy_error option" where
  "validateOrderJSONKeys plaintext = (case dec_Token (NewDecoder plaintext) of
     Inl er \<Rightarrow> Some (PlaintextDecode er)
   | Inr (t, d) \<Rightarrow>
       if t \<noteq> Delim (CHR ''{'') then Some NotAnObject
       else (case validate_keys (Suc (length plaintext)) {} d of
           Inl er \<Rightarrow> Some er
         | Inr d' \<Rightarrow> (case dec_Token d' of
             Inl er \<Rightarrow> Some (ObjectEnd er)
           | Inr (_, d'') \<Rightarrow> ensureJSONEOF d'')))"

section \<open>Decoding the policy\<close>

record triggerPlaintext =
  Strategy :: bytes
  TriggerPriceText :: "bytes option"
  TrailBpsField :: "uint16 option"

text \<open>A JSON number literal as a \<open>uint16\<close>: digits only and in range.\<close>

definition json_uint16 :: "bytes \<Rightarrow> uint16 option" where
  "json_uint16 lit = (case ParseUint64 lit of
     Some n \<Rightarrow> if n < 2 ^ 16 then Some (ucast n) else None | None \<Rightarrow> None)"

text \<open>One member into the struct: a null clears a pointer and leaves a string alone; a value of
  another type, or an unknown field, is an error. Keys are compared exactly: \<open>encoding/json\<close> also
  accepts case variants, but those were refused by \<open>validateOrderJSONKeys\<close> before.\<close>

definition decode_field :: "bytes \<times> json \<Rightarrow> triggerPlaintext \<Rightarrow> triggerPlaintext option" where
  "decode_field kv p = (case kv of (k, v) \<Rightarrow>
     if k = ''strategy'' then
       (case v of JStr s \<Rightarrow> Some (p\<lparr>Strategy := s\<rparr>) | JNull \<Rightarrow> Some p | _ \<Rightarrow> None)
     else if k = ''triggerPrice'' then
       (case v of JStr s \<Rightarrow> Some (p\<lparr>TriggerPriceText := Some s\<rparr>)
        | JNull \<Rightarrow> Some (p\<lparr>TriggerPriceText := None\<rparr>) | _ \<Rightarrow> None)
     else if k = ''trailBps'' then
       (case v of JNum lit \<Rightarrow> (case json_uint16 lit of
            Some w \<Rightarrow> Some (p\<lparr>TrailBpsField := Some w\<rparr>) | None \<Rightarrow> None)
        | JNull \<Rightarrow> Some (p\<lparr>TrailBpsField := None\<rparr>) | _ \<Rightarrow> None)
     else None)"

fun decode_fields :: "(bytes \<times> json) list \<Rightarrow> triggerPlaintext \<Rightarrow> triggerPlaintext option" where
  "decode_fields [] p = Some p"
| "decode_fields (kv # kvs) p = (case decode_field kv p of
     None \<Rightarrow> None | Some p' \<Rightarrow> decode_fields kvs p')"

definition decode_plaintext :: "json \<Rightarrow> triggerPlaintext option" where
  "decode_plaintext v = (case v of
     JObj kvs \<Rightarrow> decode_fields kvs \<lparr>Strategy = [], TriggerPriceText = None, TrailBpsField = None\<rparr>
   | JNull \<Rightarrow> Some \<lparr>Strategy = [], TriggerPriceText = None, TrailBpsField = None\<rparr>
   | _ \<Rightarrow> None)"

record OrderPolicy =
  PolicyTrigger :: "int option"
  PolicyTrailBps :: uint16

text \<open>The switch on the strategy, with legacy fixed payloads that omit it.\<close>

definition policy_of :: "triggerPlaintext \<Rightarrow> policy_error + OrderPolicy" where
  "policy_of p =
     (let strategy = (if Strategy p = [] \<and> TriggerPriceText p \<noteq> None \<and> TrailBpsField p = None
                      then ''fixed'' else Strategy p)
      in if strategy = ''trailing'' then
           (case (TriggerPriceText p, TrailBpsField p) of
              (None, Some bps) \<Rightarrow>
                if bps < 25 \<or> bps > 5000 then Inl TrailBpsRange
                else Inr \<lparr>PolicyTrigger = None, PolicyTrailBps = bps\<rparr>
            | _ \<Rightarrow> Inl TrailingNeedsTrailBps)
         else if strategy = ''fixed'' then
           (case (TriggerPriceText p, TrailBpsField p) of
              (Some txt, None) \<Rightarrow>
                if txt = [] then Inl FixedNeedsTrigger
                else (case big_SetString txt of
                    None \<Rightarrow> Inl TriggerRange
                  | Some t \<Rightarrow> if sgn t \<le> 0 \<or> big_BitLen t > 256 then Inl TriggerRange
                      else Inr \<lparr>PolicyTrigger = Some t, PolicyTrailBps = 0\<rparr>)
            | _ \<Rightarrow> Inl FixedNeedsTrigger)
         else Inl UnknownStrategy)"

definition ParseOrderPlaintext :: "bytes \<Rightarrow> policy_error + OrderPolicy" where
  "ParseOrderPlaintext plaintext =
     (if length plaintext = 0 \<or> length plaintext > 1024 then Inl PlaintextSize
      else (case validateOrderJSONKeys plaintext of
          Some er \<Rightarrow> Inl er
        | None \<Rightarrow> (case dec_Decode (NewDecoder plaintext) of
            Inl er \<Rightarrow> Inl (PlaintextDecode er)
          | Inr (v, d) \<Rightarrow> (case decode_plaintext v of
              None \<Rightarrow> Inl StructDecode
            | Some p \<Rightarrow> (case ensureJSONEOF d of
                Some er \<Rightarrow> Inl er
              | None \<Rightarrow> policy_of p)))))"

definition ParseTriggerPlaintext :: "bytes \<Rightarrow> policy_error + int" where
  "ParseTriggerPlaintext plaintext = (case ParseOrderPlaintext plaintext of
     Inl er \<Rightarrow> Inl er
   | Inr policy \<Rightarrow> (case PolicyTrigger policy of
       None \<Rightarrow> Inl IsTrailingPolicy | Some t \<Rightarrow> Inr t))"

end
