(* ===== verification/Policy_Parser.thy ===== *)
theory Policy_Parser
  imports Order_Policy
begin

text \<open>
  The theorems about the policy parser: the token-wise check of the keys and the struct decoder
  agree with one grammar, so a plaintext has at most one reading; what it accepts is what the order
  book can hold; and the documented forms parse to what they say.
\<close>

section \<open>Tokens of an object\<close>

lemma parse_string_value:
  "skip_ws s = CHR 0x22 # cs \<Longrightarrow>
    parse_value (Suc n) s = map_option (apfst (\<lambda>b. JStr (unquote b))) (scan_string cs)"
  by (simp add: parse_value.simps)

lemma dec_value_string:
  assumes "skip_ws (dec_in d) = CHR 0x22 # cs" and "tokenValueAllowed (dec_state d)"
  shows "dec_value d = (case scan_string cs of None \<Rightarrow> Inl DecSyntax
    | Some (b, r) \<Rightarrow> Inr (JStr (unquote b), d\<lparr>dec_in := r, dec_state := tokenValueEnd (dec_state d)\<rparr>))"
  using assms parse_string_value [OF assms(1), of "2 * length (dec_in d) + 1"]
  by (simp add: dec_value_def json_fuel_def split: option.split)

text \<open>The state in which a member is read, with the input in front of its key.\<close>

definition member_at :: "decoder \<Rightarrow> bytes \<Rightarrow> bool" where
  "member_at d s \<longleftrightarrow> (dec_state d = TokenObjectStart \<and> dec_in d = s)
     \<or> (dec_state d = TokenObjectComma \<and> skip_ws (dec_in d) = CHR '','' # s)"

lemma Token_key_state:
  assumes "dec_state d \<in> {TokenObjectStart, TokenObjectKey}"
    and "skip_ws (dec_in d) = c # cs" and "c \<noteq> CHR ''}'' \<or> dec_state d = TokenObjectKey"
  shows "dec_Token d = (if c = CHR 0x22 then (case scan_string cs of None \<Rightarrow> Inl DecSyntax
    | Some (b, r) \<Rightarrow> Inr (Value (JStr (unquote b)), d\<lparr>dec_in := r, dec_state := TokenObjectColon\<rparr>))
    else Inl DecSyntax)"
proof (cases "c = CHR 0x22")
  case True
  have "dec_Token d = dec_key d"
    using assms True by (auto simp: dec_Token.simps [of d])
  also have "\<dots> = (case scan_string cs of None \<Rightarrow> Inl DecSyntax
    | Some (b, r) \<Rightarrow> Inr (Value (JStr (unquote b)), d\<lparr>dec_in := r, dec_state := TokenObjectColon\<rparr>))"
    using dec_value_string [of "d\<lparr>dec_state := TokenTopValue\<rparr>" cs] assms(2) True
    by (simp add: dec_key_def tokenValueAllowed_def split: option.split)
  finally show ?thesis using True by simp
next
  case False
  show ?thesis
  proof (cases "dec_state d = TokenObjectKey")
    case True
    then show ?thesis
      using assms(2) False
      by (simp add: dec_Token.simps [of d] dec_open_def dec_close_def dec_value_def tokenValueAllowed_def)
  next
    case start: False
    then have "dec_state d = TokenObjectStart" "c \<noteq> CHR ''}''" using assms(1,3) by auto
    then show ?thesis
      using assms(2) False
      by (simp add: dec_Token.simps [of d] dec_open_def dec_close_def dec_value_def tokenValueAllowed_def)
  qed
qed

lemma Token_member:
  assumes "member_at d s" and "dec_More d"
  shows "dec_Token d = (case skip_ws s of [] \<Rightarrow> Inl DecEOF
    | c # cs \<Rightarrow> if c = CHR 0x22 then (case scan_string cs of None \<Rightarrow> Inl DecSyntax
        | Some (b, r) \<Rightarrow> Inr (Value (JStr (unquote b)), d\<lparr>dec_in := r, dec_state := TokenObjectColon\<rparr>))
      else Inl DecSyntax)"
proof (cases "dec_state d = TokenObjectStart")
  case True
  with assms show ?thesis
    using Token_key_state [of d] by (auto simp: member_at_def dec_More_def split: list.splits)
next
  case False
  with assms have c: "dec_state d = TokenObjectComma" "skip_ws (dec_in d) = CHR '','' # s"
    by (auto simp: member_at_def)
  let ?d = "d\<lparr>dec_in := s, dec_state := TokenObjectKey\<rparr>"
  have "dec_Token d = dec_Token ?d"
    using c by (simp add: dec_Token.simps [of d])
  also have "\<dots> = (case skip_ws s of [] \<Rightarrow> Inl DecEOF
    | c # cs \<Rightarrow> if c = CHR 0x22 then (case scan_string cs of None \<Rightarrow> Inl DecSyntax
        | Some (b, r) \<Rightarrow> Inr (Value (JStr (unquote b)), d\<lparr>dec_in := r, dec_state := TokenObjectColon\<rparr>))
      else Inl DecSyntax)"
    using Token_key_state [of ?d] by (simp add: dec_Token.simps [of ?d] split: list.split option.split)
  finally show ?thesis .
qed

text \<open>Outside a member the loop ends or the comma is missing.\<close>

lemma Token_no_member:
  assumes "dec_state d = TokenObjectComma" and "dec_More d" and "\<nexists>s. member_at d s"
  shows "\<exists>er. dec_Token d = Inl er"
  using assms
  by (auto simp: dec_Token.simps [of d] member_at_def dec_More_def dec_open_def dec_close_def
      dec_value_def tokenValueAllowed_def split: list.splits)

lemma Decode_colon:
  assumes "dec_state d = TokenObjectColon"
  shows "(\<exists>w. dec_Decode d = Inr (w, d')) \<longleftrightarrow> (\<exists>v r. next_is (CHR '':'') (dec_in d)
    \<and> parse_value (json_fuel (tl (skip_ws (dec_in d)))) (tl (skip_ws (dec_in d))) = Some (v, r)
    \<and> d' = d\<lparr>dec_in := r, dec_state := TokenObjectComma\<rparr>)"
  using assms
  by (auto simp: dec_Decode_def dec_value_def tokenValueAllowed_def tokenValueEnd_def next_is_def
      split: list.splits option.splits)

section \<open>The loop over the keys reads what the grammar reads\<close>

lemma validate_turn:
  assumes "member_at d s" and "dec_More d"
  shows "validate_keys (Suc n) seen d = Inr d1 \<longleftrightarrow> (\<exists>k q v r. parse_key s = Some (k, q)
    \<and> k \<in> set allowed_fields \<and> k \<notin> seen \<and> parse_value (json_fuel q) q = Some (v, r)
    \<and> validate_keys n (insert k seen) (d\<lparr>dec_in := r, dec_state := TokenObjectComma\<rparr>) = Inr d1)"
    (is "?l \<longleftrightarrow> ?r")
proof (cases "\<exists>cs b t. skip_ws s = CHR 0x22 # cs \<and> scan_string cs = Some (b, t)")
  case False
  then have "parse_key s = None" and "\<exists>er. dec_Token d = Inl er"
    using Token_member [OF assms] by (auto simp: parse_key_def split: list.split option.split)
  with assms(2) show ?thesis by auto
next
  case True
  then obtain cs b t where s: "skip_ws s = CHR 0x22 # cs" "scan_string cs = Some (b, t)" by blast
  let ?d = "d\<lparr>dec_in := t, dec_state := TokenObjectColon\<rparr>"
  have tok: "dec_Token d = Inr (Value (JStr (unquote b)), ?d)"
    using Token_member [OF assms] s by simp
  have key: "parse_key s = (if next_is (CHR '':'') t then Some (unquote b, tl (skip_ws t)) else None)"
    using s by (simp add: parse_key_def)
  have "?l \<longleftrightarrow> unquote b \<in> set allowed_fields \<and> unquote b \<notin> seen
      \<and> (\<exists>w d2. dec_Decode ?d = Inr (w, d2) \<and> validate_keys n (insert (unquote b) seen) d2 = Inr d1)"
    using assms(2) tok by (auto split: sum.splits)
  also have "(\<exists>w d2. dec_Decode ?d = Inr (w, d2) \<and> validate_keys n (insert (unquote b) seen) d2 = Inr d1)
      \<longleftrightarrow> (\<exists>d2. (\<exists>w. dec_Decode ?d = Inr (w, d2)) \<and> validate_keys n (insert (unquote b) seen) d2 = Inr d1)"
    by blast
  also have "\<dots> \<longleftrightarrow> (\<exists>v r. next_is (CHR '':'') t
      \<and> parse_value (json_fuel (tl (skip_ws t))) (tl (skip_ws t)) = Some (v, r)
      \<and> validate_keys n (insert (unquote b) seen) (d\<lparr>dec_in := r, dec_state := TokenObjectComma\<rparr>) = Inr d1)"
    by (auto simp: Decode_colon)
  also have "unquote b \<in> set allowed_fields \<and> unquote b \<notin> seen \<and> \<dots> \<longleftrightarrow> ?r"
    using key by auto
  finally show ?thesis .
qed

definition close_object :: "decoder \<Rightarrow> bytes \<Rightarrow> decoder" where
  "close_object d r = d\<lparr>dec_in := r, dec_state := tokenValueEnd (hd (dec_stack d)),
     dec_stack := tl (dec_stack d)\<rparr>"

definition members_from :: "nat \<Rightarrow> decoder \<Rightarrow> ((bytes \<times> json) list \<times> bytes) option" where
  "members_from N d = (if dec_state d = TokenObjectStart then parse_members N True (dec_in d)
     else member_tail N (dec_in d))"

definition fields_ok :: "bytes set \<Rightarrow> (bytes \<times> json) list \<Rightarrow> bool" where
  "fields_ok seen kvs \<longleftrightarrow> distinct (map fst kvs) \<and> set (map fst kvs) \<subseteq> set allowed_fields - seen"

lemma members_from_end:
  assumes "dec_state d \<in> {TokenObjectStart, TokenObjectComma}" and "\<not> dec_More d"
  shows "(\<exists>t. dec_Token d = Inr (t, d2)) \<longleftrightarrow>
    (\<exists>kvs r. members_from (Suc N) d = Some (kvs, r) \<and> fields_ok seen kvs \<and> d2 = close_object d r)"
proof (cases "skip_ws (dec_in d)")
  case Nil
  then show ?thesis
    by (simp add: dec_Token.simps [of d] members_from_def member_tail_def parse_members_step
        next_is_def parse_key_def)
next
  case (Cons c cs)
  with assms(2) consider "c = CHR '']''" | "c = CHR ''}''" by (auto simp: dec_More_def)
  then show ?thesis
  proof cases
    case 1
    with Cons assms(1) show ?thesis
      by (auto simp: dec_Token.simps [of d] dec_close_def members_from_def member_tail_def
          parse_members_step next_is_def parse_key_def)
  next
    case 2
    with Cons have "next_is (CHR ''}'') (dec_in d)" by (simp add: next_is_def)
    with Cons 2 assms(1) show ?thesis
      by (auto simp: dec_Token.simps [of d] dec_close_def members_from_def member_tail_def
          parse_members.simps fields_ok_def close_object_def)
  qed
qed

lemma fields_ok_Cons: "fields_ok seen ((k, v) # kvs) \<longleftrightarrow>
    k \<in> set allowed_fields \<and> k \<notin> seen \<and> fields_ok (insert k seen) kvs"
  by (auto simp: fields_ok_def)

text \<open>One turn of the loop at a member \<open>s\<close>, given that the rest of the object is read right.\<close>

lemma members_from_turn:
  assumes s: "member_at d s" and more: "dec_More d" and fuel: "2 * length (dec_in d) + 2 \<le> Suc M"
  shows "members_from (Suc M) d = (case parse_key s of None \<Rightarrow> None
    | Some (k, q) \<Rightarrow> (case parse_value (json_fuel q) q of None \<Rightarrow> None
      | Some (v, r) \<Rightarrow> map_option (apfst (Cons (k, v))) (member_tail M r)))"
proof -
  have len: "length s \<le> length (dec_in d)"
    using s skip_ws_Cons [of "dec_in d"] by (auto simp: member_at_def dest: less_imp_le)
  have no_close: "\<not> (dec_state d = TokenObjectStart \<and> next_is (CHR ''}'') s)"
    using s more by (auto simp: member_at_def next_is_def dec_More_def split: list.splits)
  have frm: "members_from (Suc M) d = parse_members (Suc M) (dec_state d = TokenObjectStart) s"
    using s by (auto simp: member_at_def members_from_def member_tail_def)
  have val: "parse_value M q = parse_value (json_fuel q) q" if "parse_key s = Some (k, q)" for k q
    using parse_key_rest [OF that] len fuel by (intro parse_value_fuel) (simp add: json_fuel_def)
  show ?thesis
    unfolding frm parse_members_step [OF no_close] by (auto simp: val split: option.split)
qed

lemma validate_keys_turn:
  assumes s: "member_at d s" and more: "dec_More d" and fuel: "2 * length (dec_in d) + 2 \<le> Suc M"
    and IH: "\<And>k q v r. parse_key s = Some (k, q) \<Longrightarrow> parse_value (json_fuel q) q = Some (v, r) \<Longrightarrow>
      (\<exists>d1 t. validate_keys n (insert k seen) (d\<lparr>dec_in := r, dec_state := TokenObjectComma\<rparr>) = Inr d1
          \<and> dec_Token d1 = Inr (t, d2)) \<longleftrightarrow>
        (\<exists>kvs r'. member_tail M r = Some (kvs, r') \<and> fields_ok (insert k seen) kvs
          \<and> d2 = close_object d r')"
  shows "(\<exists>d1 t. validate_keys (Suc n) seen d = Inr d1 \<and> dec_Token d1 = Inr (t, d2)) \<longleftrightarrow>
    (\<exists>kvs r. members_from (Suc M) d = Some (kvs, r) \<and> fields_ok seen kvs \<and> d2 = close_object d r)"
proof (cases "\<exists>k q v r. parse_key s = Some (k, q) \<and> parse_value (json_fuel q) q = Some (v, r)")
  case False
  then show ?thesis
    by (auto simp: validate_turn [OF s more] members_from_turn [OF s more fuel]
        simp del: validate_keys.simps split: option.split)
next
  case True
  then obtain k q v r where kq: "parse_key s = Some (k, q)" "parse_value (json_fuel q) q = Some (v, r)"
    by blast
  have "(\<exists>d1 t. validate_keys (Suc n) seen d = Inr d1 \<and> dec_Token d1 = Inr (t, d2)) \<longleftrightarrow>
    k \<in> set allowed_fields \<and> k \<notin> seen \<and> (\<exists>kvs r'. member_tail M r = Some (kvs, r')
      \<and> fields_ok (insert k seen) kvs \<and> d2 = close_object d r')"
    unfolding validate_turn [OF s more] using kq IH [OF kq] by auto
  also have "\<dots> \<longleftrightarrow> (\<exists>kvs r. members_from (Suc M) d = Some (kvs, r) \<and> fields_ok seen kvs
      \<and> d2 = close_object d r)"
    using kq by (auto simp: members_from_turn [OF s more fuel] fields_ok_Cons)
  finally show ?thesis .
qed

lemma validate_keys_grammar:
  "dec_state d \<in> {TokenObjectStart, TokenObjectComma} \<Longrightarrow> length (dec_in d) < n \<Longrightarrow>
    2 * length (dec_in d) + 2 \<le> N \<Longrightarrow>
    (\<exists>d1 t. validate_keys n seen d = Inr d1 \<and> dec_Token d1 = Inr (t, d2)) \<longleftrightarrow>
    (\<exists>kvs r. members_from N d = Some (kvs, r) \<and> fields_ok seen kvs \<and> d2 = close_object d r)"
proof (induction n arbitrary: seen d N)
  case (Suc n)
  obtain M where N: "N = Suc M" using Suc.prems(3) by (cases N) auto
  consider (at_end) "\<not> dec_More d" | (no_member) "dec_More d" "\<nexists>s. member_at d s"
    | (member_at) s where "dec_More d" "member_at d s"
    by blast
  then show ?case
  proof cases
    case at_end
    then show ?thesis using members_from_end [OF Suc.prems(1) at_end, of d2 M seen] by (simp add: N)
  next
    case no_member
    with Suc.prems(1) have st: "dec_state d = TokenObjectComma"
      by (auto simp: member_at_def)
    have "members_from N d = None"
      using no_member st by (auto simp: members_from_def member_tail_def member_at_def dec_More_def
          split: list.split)
    with Token_no_member [OF st no_member] no_member(1) show ?thesis by auto
  next
    case (member_at s)
    have len: "length s \<le> length (dec_in d)"
      using member_at(2) skip_ws_Cons [of "dec_in d"] by (auto simp: member_at_def dest: less_imp_le)
    show ?thesis
      unfolding N
    proof (rule validate_keys_turn [OF member_at(2,1) Suc.prems(3) [unfolded N]])
      fix k q v r
      assume kq: "parse_key s = Some (k, q)" "parse_value (json_fuel q) q = Some (v, r)"
      have "Suc (Suc (length r)) \<le> length (dec_in d)"
        using parse_key_rest [OF kq(1)] parse_rest(1) [OF kq(2)] len by simp
      then show "(\<exists>d1 t. validate_keys n (insert k seen) (d\<lparr>dec_in := r,
            dec_state := TokenObjectComma\<rparr>) = Inr d1 \<and> dec_Token d1 = Inr (t, d2)) \<longleftrightarrow>
          (\<exists>kvs r'. member_tail M r = Some (kvs, r') \<and> fields_ok (insert k seen) kvs
            \<and> d2 = close_object d r')"
        using Suc.IH [of "d\<lparr>dec_in := r, dec_state := TokenObjectComma\<rparr>" M "insert k seen"]
          Suc.prems(2,3) N by (simp add: members_from_def close_object_def)
    qed
  qed
qed simp

section \<open>The whole plaintext\<close>

lemma ensureJSONEOF_iff:
  "dec_state d = TokenTopValue \<Longrightarrow> ensureJSONEOF d = None \<longleftrightarrow> skip_ws (dec_in d) = []"
  by (auto simp: ensureJSONEOF_def dec_value_top parse_value_blank split: option.split)

lemma parse_object:
  assumes "skip_ws s = CHR ''{'' # cs"
  shows "parse_value (json_fuel s) s = map_option (apfst JObj) (parse_members (2 * length s + 1) True cs)"
  using assms by (simp add: json_fuel_def parse_value.simps)

lemma parse_value_object: "parse_value n s = Some (JObj kvs, r) \<Longrightarrow> \<exists>cs. skip_ws s = CHR ''{'' # cs"
  by (cases n) (auto simp: parse_value.simps scan_literal_def split: list.splits if_splits)

lemma validate_grammar:
  "validateOrderJSONKeys s = None \<longleftrightarrow>
    (\<exists>kvs r. parse_value (json_fuel s) s = Some (JObj kvs, r) \<and> skip_ws r = [] \<and> fields_ok {} kvs)"
proof (cases "\<exists>cs. skip_ws s = CHR ''{'' # cs")
  case False
  then have "validateOrderJSONKeys s \<noteq> None"
    by (auto simp: validateOrderJSONKeys_def NewDecoder_def dec_open_def dec_close_def dec_value_def
        dec_Token.simps [of "\<lparr>dec_in = s, dec_state = TokenTopValue, dec_stack = []\<rparr>"]
        split: list.splits sum.splits option.splits)
  moreover have "parse_value (json_fuel s) s \<noteq> Some (JObj kvs, r)" for kvs r
    using False parse_value_object by blast
  ultimately show ?thesis by auto
next
  case True
  then obtain cs where cs: "skip_ws s = CHR ''{'' # cs" by blast
  let ?d = "\<lparr>dec_in = cs, dec_state = TokenObjectStart, dec_stack = [TokenTopValue]\<rparr>"
  have tok: "dec_Token (NewDecoder s) = Inr (Delim (CHR ''{''), ?d)"
    using cs by (simp add: NewDecoder_def dec_Token.simps [of "\<lparr>dec_in = s, dec_state = TokenTopValue,
        dec_stack = []\<rparr>"] dec_open_def tokenValueAllowed_def)
  have len: "length cs < length s" using cs by (rule skip_ws_Cons)
  have "validateOrderJSONKeys s = None \<longleftrightarrow>
      (\<exists>d2. (\<exists>d1 t. validate_keys (Suc (length s)) {} ?d = Inr d1 \<and> dec_Token d1 = Inr (t, d2))
        \<and> ensureJSONEOF d2 = None)"
    by (auto simp: validateOrderJSONKeys_def tok simp del: validate_keys.simps split: sum.split)
  also have "\<dots> \<longleftrightarrow> (\<exists>kvs r. parse_members (2 * length s + 1) True cs = Some (kvs, r)
      \<and> fields_ok {} kvs \<and> ensureJSONEOF (close_object ?d r) = None)"
    using len by (subst validate_keys_grammar [where N = "2 * length s + 1"]) (auto simp: members_from_def)
  also have "\<dots> \<longleftrightarrow> (\<exists>kvs r. parse_value (json_fuel s) s = Some (JObj kvs, r) \<and> skip_ws r = []
      \<and> fields_ok {} kvs)"
    by (auto simp: parse_object [OF cs] ensureJSONEOF_iff close_object_def tokenValueEnd_def)
  finally show ?thesis .
qed

lemma policy_grammar_iff:
  "ParseOrderPlaintext s = Inr pol \<longleftrightarrow> 1 \<le> length s \<and> length s \<le> 1024 \<and>
    (\<exists>kvs r p. parse_value (json_fuel s) s = Some (JObj kvs, r) \<and> skip_ws r = []
      \<and> distinct (map fst kvs) \<and> set (map fst kvs) \<subseteq> {''strategy'', ''triggerPrice'', ''trailBps''}
      \<and> decode_plaintext (JObj kvs) = Some p \<and> policy_of p = Inr pol)"
proof -
  have "ParseOrderPlaintext s = Inr pol \<longleftrightarrow> 1 \<le> length s \<and> length s \<le> 1024 \<and>
      validateOrderJSONKeys s = None \<and> (\<exists>v r p. parse_value (json_fuel s) s = Some (v, r)
        \<and> skip_ws r = [] \<and> decode_plaintext v = Some p \<and> policy_of p = Inr pol)"
    by (auto simp: ParseOrderPlaintext_def NewDecoder_def dec_value_top ensureJSONEOF_iff not_less
        ensureJSONEOF_iff [THEN iffD2] Suc_le_eq split: option.splits)
  then show ?thesis
    unfolding validate_grammar by (auto simp: fields_ok_def allowed_fields_def)
qed

text \<open>C18. The parser accepts a plaintext iff it is one JSON object, of 1 to 1024 bytes, with nothing
  but white space behind it, whose keys are distinct and among the three of a policy, and whose
  members decode to a valid policy. So the token-wise check and the struct decoder agree on the
  object they read, and an accepted plaintext has no second reading.\<close>

theorem policy_grammar:
  "ParseOrderPlaintext s = Inr pol \<longleftrightarrow> 1 \<le> length s \<and> length s \<le> 1024 \<and>
    (\<exists>kvs r p. parse_value (json_fuel s) s = Some (JObj kvs, r) \<and> skip_ws r = []
      \<and> distinct (map fst kvs) \<and> set (map fst kvs) \<subseteq> {''strategy'', ''triggerPrice'', ''trailBps''}
      \<and> decode_plaintext (JObj kvs) = Some p \<and> policy_of p = Inr pol)"
  by (rule policy_grammar_iff)

lemma policy_range:
  assumes "ParseOrderPlaintext s = Inr pol"
  shows "(\<exists>t. PolicyTrigger pol = Some t \<and> 0 < t \<and> t < 2 ^ 256) \<and> PolicyTrailBps pol = 0
      \<or> PolicyTrigger pol = None \<and> 25 \<le> PolicyTrailBps pol \<and> PolicyTrailBps pol \<le> 5000"
proof -
  obtain p where p: "policy_of p = Inr pol" using assms by (auto simp: policy_grammar_iff)
  then show ?thesis
    by (auto simp: policy_of_def Let_def not_le sgn_1_pos big_BitLen_le not_less sgn_if
        split: if_splits option.splits)
qed

text \<open>C19. An accepted policy is one the order book can hold: either a fixed trigger in (0, 2^256) or a
  trail of 25 to 5000 basis points, never both. Placed under a fresh id, a fixed policy is always
  accepted by \<open>Put\<close>, a trailing one exactly while trailing is advertised.\<close>

theorem accepted_policy_fits_book:
  assumes "ParseOrderPlaintext s = Inr pol"
  shows "((\<exists>t. PolicyTrigger pol = Some t \<and> 0 < t \<and> t < 2 ^ 256) \<and> PolicyTrailBps pol = 0
      \<or> PolicyTrigger pol = None \<and> 25 \<le> PolicyTrailBps pol \<and> PolicyTrailBps pol \<le> 5000)
    \<and> (i \<noteq> 0 \<and> order_phase b i = Absent \<longrightarrow>
        ((\<exists>b'. Put now \<lparr>ID = i, TriggerPrice = PolicyTrigger pol, TrailBps = PolicyTrailBps pol,
            HighWatermark = None, Status = StatusOpen\<rparr> b = Inr b')
         \<longleftrightarrow> PolicyTrigger pol \<noteq> None \<or> ''trailing'' \<in> set (SupportedPolicies now b)))"
proof -
  note range = policy_range [OF assms]
  have "gm_get (orders b) i = None" if "order_phase b i = Absent"
    using that by (simp add: order_phase_def split: option.splits if_splits)
  with range show ?thesis
    by (auto simp: Put_def isFixed_def isTrailing_def SupportedPolicies_def big_BitLen_le Let_def)
qed

section \<open>The documented forms\<close>

text \<open>The plaintexts a client encrypts.\<close>

definition fixed_plaintext :: "nat \<Rightarrow> bytes" where
  "fixed_plaintext t = CHR ''{'' # json_field ''strategy'' (quoted ''fixed'') @ CHR '','' #
     json_field ''triggerPrice'' (quoted (format_nat t)) @ ''}''"

definition legacy_plaintext :: "nat \<Rightarrow> bytes" where
  "legacy_plaintext t = CHR ''{'' # json_field ''triggerPrice'' (quoted (format_nat t)) @ ''}''"

definition trailing_plaintext :: "uint16 \<Rightarrow> bytes" where
  "trailing_plaintext bps = CHR ''{'' # json_field ''strategy'' (quoted ''trailing'') @ CHR '','' #
     json_field ''trailBps'' (FormatUint bps) @ ''}''"

lemma plain_names: "list_all plain ''strategy''" "list_all plain ''triggerPrice''"
  "list_all plain ''trailBps''" "list_all plain ''fixed''" "list_all plain ''trailing''"
  by (simp_all add: plain_def code_def)

lemmas policy_text_simps = plain_names [THEN parse_member_field] plain_names [THEN parse_quoted]
  digits_plain [THEN parse_quoted] parse_number_close

lemma parse_fixed: "parse_value (json_fuel (fixed_plaintext t)) (fixed_plaintext t) =
    Some (JObj [(''strategy'', JStr ''fixed''), (''triggerPrice'', JStr (format_nat t))], [])"
  unfolding fixed_plaintext_def by (rule parse_object_fuel) (simp add: policy_text_simps)

lemma parse_legacy: "parse_value (json_fuel (legacy_plaintext t)) (legacy_plaintext t) =
    Some (JObj [(''triggerPrice'', JStr (format_nat t))], [])"
  unfolding legacy_plaintext_def by (rule parse_object_fuel) (simp add: policy_text_simps)

lemma parse_trailing: "0 < bps \<Longrightarrow> parse_value (json_fuel (trailing_plaintext bps)) (trailing_plaintext bps) =
    Some (JObj [(''strategy'', JStr ''trailing''), (''trailBps'', JNum (FormatUint bps))], [])"
  unfolding trailing_plaintext_def FormatUint_def
  by (rule parse_object_fuel) (simp add: policy_text_simps word_gt_0_no unat_gt_0 word_neq_0_conv)

lemma format_nat_length: "0 < k \<Longrightarrow> n < 10 ^ k \<Longrightarrow> length (format_nat n) \<le> k"
proof (induction n arbitrary: k rule: format_nat.induct)
  case (1 n)
  show ?case
  proof (cases "n < 10")
    case True
    with 1 show ?thesis by (subst format_nat.simps) simp
  next
    case False
    then obtain j where k: "k = Suc j" "0 < j" using 1(2,3) by (cases k; cases "k = 1") auto
    then have "n div 10 < 10 ^ j" using 1(3) by (simp add: less_mult_imp_div_less mult.commute)
    then have "length (format_nat (n div 10)) \<le> j" using 1(1) False k by blast
    with False k show ?thesis by (subst format_nat.simps) simp
  qed
qed

lemma json_uint16_format: "json_uint16 (FormatUint (w :: uint16)) = Some w"
proof -
  have n: "unat w < 2 ^ 16" using unsigned_less [of w] by simp
  have "ParseUint64 (FormatUint w) = Some (of_nat (unat w))"
    unfolding FormatUint_def using n by (intro ParseUint64_format) simp
  moreover have "unat (of_nat (unat w) :: uint64) = unat w"
    using n by (simp only: unat_of_nat) simp
  moreover have "ucast (of_nat (unat w) :: uint64) = w"
  proof (rule word_unat_eq_iff [THEN iffD2])
    show "unat (ucast (of_nat (unat w) :: uint64) :: uint16) = unat w"
      using n by (simp only: unsigned_ucast_eq unsigned_of_nat) (simp add: take_bit_nat_eq_self)
  qed
  ultimately show ?thesis
    using n by (simp add: json_uint16_def word_less_nat_alt)
qed

lemma policy_texts:
  assumes "0 < t" and "t < 2 ^ 256" and "25 \<le> bps" and "bps \<le> 5000"
  shows "ParseOrderPlaintext (fixed_plaintext t) = Inr \<lparr>PolicyTrigger = Some (int t), PolicyTrailBps = 0\<rparr>
    \<and> ParseOrderPlaintext (legacy_plaintext t) = Inr \<lparr>PolicyTrigger = Some (int t), PolicyTrailBps = 0\<rparr>
    \<and> ParseOrderPlaintext (trailing_plaintext bps) = Inr \<lparr>PolicyTrigger = None, PolicyTrailBps = bps\<rparr>"
proof (intro conjI)
  have "t < 10 ^ 78" using assms(2) by (rule less_trans) simp
  then have len: "length (format_nat t) \<le> 78" by (intro format_nat_length) simp_all
  have "unat bps \<le> 5000" using assms(4) by (simp add: word_le_nat_alt)
  then have lenb: "length (FormatUint bps) \<le> 4"
    unfolding FormatUint_def by (intro format_nat_length) simp_all
  have bits: "big_BitLen (int t) \<le> 256" using assms(2) by (simp add: big_BitLen_le)
  have fixed: "policy_of \<lparr>Strategy = st, TriggerPriceText = Some (format_nat t), TrailBpsField = None\<rparr>
      = Inr \<lparr>PolicyTrigger = Some (int t), PolicyTrailBps = 0\<rparr>" if "st \<in> {[], ''fixed''}" for st
    using that assms(1) bits by (auto simp: policy_of_def)
  show "ParseOrderPlaintext (fixed_plaintext t) = Inr \<lparr>PolicyTrigger = Some (int t), PolicyTrailBps = 0\<rparr>"
    unfolding policy_grammar_iff parse_fixed using len fixed
    by (simp add: fixed_plaintext_def json_field_def quoted_def decode_plaintext_def decode_field_def
        skip_ws_def)
  show "ParseOrderPlaintext (legacy_plaintext t) = Inr \<lparr>PolicyTrigger = Some (int t), PolicyTrailBps = 0\<rparr>"
    unfolding policy_grammar_iff parse_legacy using len fixed
    by (simp add: legacy_plaintext_def json_field_def quoted_def decode_plaintext_def decode_field_def
        skip_ws_def)
  have "0 < bps" using assms(3) by (auto simp: word_le_nat_alt word_less_nat_alt)
  then show "ParseOrderPlaintext (trailing_plaintext bps) = Inr \<lparr>PolicyTrigger = None, PolicyTrailBps = bps\<rparr>"
    unfolding policy_grammar_iff parse_trailing [OF \<open>0 < bps\<close>] using lenb assms(3,4)
    by (simp add: trailing_plaintext_def json_field_def quoted_def decode_plaintext_def decode_field_def
        skip_ws_def json_uint16_format policy_of_def not_less)
qed

lemma parse_fixed_policy:
  "0 < t \<Longrightarrow> t < 2 ^ 256 \<Longrightarrow>
    ParseOrderPlaintext (fixed_plaintext t) = Inr \<lparr>PolicyTrigger = Some (int t), PolicyTrailBps = 0\<rparr>"
  using policy_texts [of t 25] by simp

text \<open>C20. The documented plaintexts, tagged fixed, legacy fixed and trailing, parse to the policy they
  spell, for every trigger in (0, 2^256) and every trail of 25 to 5000 basis points.\<close>

theorem policy_roundtrip:
  assumes "0 < t" and "t < 2 ^ 256" and "25 \<le> bps" and "bps \<le> 5000"
  shows "ParseOrderPlaintext (fixed_plaintext t) = Inr \<lparr>PolicyTrigger = Some (int t), PolicyTrailBps = 0\<rparr>
    \<and> ParseOrderPlaintext (legacy_plaintext t) = Inr \<lparr>PolicyTrigger = Some (int t), PolicyTrailBps = 0\<rparr>
    \<and> ParseOrderPlaintext (trailing_plaintext bps) = Inr \<lparr>PolicyTrigger = None, PolicyTrailBps = bps\<rparr>"
  using policy_texts [OF assms] .

theorem policy_roundtrip_witness:
  "ParseOrderPlaintext (fixed_plaintext 20000) = Inr \<lparr>PolicyTrigger = Some 20000, PolicyTrailBps = 0\<rparr>
    \<and> ParseOrderPlaintext (trailing_plaintext 250) = Inr \<lparr>PolicyTrigger = None, PolicyTrailBps = 250\<rparr>"
  using policy_roundtrip [of 20000 250] by simp

theorem accepted_policy_fits_book_witness:
  "\<exists>b'. Put 5 \<lparr>ID = 9, TriggerPrice = Some 7, TrailBps = 0, HighWatermark = None,
      Status = StatusOpen\<rparr> NewStore = Inr b'"
proof -
  have "ParseOrderPlaintext (legacy_plaintext 7) = Inr \<lparr>PolicyTrigger = Some 7, PolicyTrailBps = 0\<rparr>"
    by code_simp
  from accepted_policy_fits_book [OF this, of 9 NewStore 5] show ?thesis
    by (simp add: order_phase_def NewStore_def)
qed

end
