(* ===== verification/Extension.thy ===== *)
theory Extension
  imports Policy_Parser Msg_Types Config
begin

text \<open>
  \<open>internal/extension/extension.go\<close> and \<open>utils.go\<close>: the handlers of the enclave extension. The
  types of the TEE node (\<open>Action\<close>, \<open>DataFixed\<close>, \<open>ActionResult\<close>) appear with the fields the code
  reads and writes; their parsers and printers, and the hashing of operation names, are
  parameters. A handler takes the extension and returns its answer with the extension after it.
\<close>

section \<open>State and parameters\<close>

record Action =
  ActionID :: bytes
  SubmissionTag :: string
  Message :: bytes

record DataFixed =
  dfOPType :: hash
  dfOPCommand :: hash
  OriginalMessage :: bytes

record ActionResult =
  ResultID :: bytes
  ResultTag :: string
  ResultVersion :: string
  ResultOPType :: hash
  ResultOPCommand :: hash
  ResultData :: "bytes option"
  ResultStatus :: uint8
  ResultLog :: string

record 'k tee_env =
  tee_crypto :: "'k crypto_lib"
  tee_abi :: abi_lib
  ToHash :: "string \<Rightarrow> hash"
  hash_Hex :: "hash \<Rightarrow> string"
  Parse_DataFixed :: "bytes \<Rightarrow> string + DataFixed"
  decode_Action :: "bytes \<Rightarrow> string + Action"
  marshal_ActionResult :: "ActionResult \<Rightarrow> bytes"

record 'k Extension =
  ext_crypto :: "'k Crypto"
  ext_store :: Store

text \<open>\<open>New\<close> panics when it has no key: the error of the sum.\<close>

definition New :: "'k tee_env \<Rightarrow> settings \<Rightarrow> bytes \<Rightarrow> string + 'k Extension" where
  "New E cfg rand =
     (case (if EnclavePrivateKey cfg \<noteq> [] then NewCryptoFromHex (tee_crypto E) (EnclavePrivateKey cfg)
            else NewCrypto (tee_crypto E) rand) of
        Inl m \<Rightarrow> Inl (''initializing enclave keypair: '' @ m)
      | Inr c \<Rightarrow> Inr \<lparr>ext_crypto = c, ext_store = NewStore\<rparr>)"

section \<open>The public state\<close>

definition order_state :: "Order \<Rightarrow> OrderState" where
  "order_state o1 = \<lparr>StateOrderID = FormatUint (ID o1), StateStatus = Status o1\<rparr>"

definition stateHandler :: "'k tee_env \<Rightarrow> gotime \<Rightarrow> 'k Extension \<Rightarrow> StateResponse" where
  "stateHandler E now x =
     (let orders = Snapshot (ext_store x);
          open_count = length (filter (\<lambda>o1. Status o1 = StatusOpen) orders)
      in \<lparr>StateVersion = ToHash E Version,
          StateField = \<lparr>EncryptionPubKey = PublicKeyHex (tee_crypto E) (ext_crypto x),
            SupportedPoliciesField = SupportedPolicies now (ext_store x),
            OpenOrdersCount = int open_count, Orders = map order_state orders\<rparr>\<rparr>)"

section \<open>Actions\<close>

definition buildResult ::
    "Action \<Rightarrow> DataFixed \<Rightarrow> bytes option \<Rightarrow> uint8 \<Rightarrow> string option \<Rightarrow> ActionResult" where
  "buildResult a df data status err =
     \<lparr>ResultID = ActionID a, ResultTag = SubmissionTag a, ResultVersion = Version,
      ResultOPType = dfOPType df, ResultOPCommand = dfOPCommand df, ResultData = data,
      ResultStatus = status,
      ResultLog = (if status = 0 then ''error: '' @ (case err of None \<Rightarrow> ''<nil>'' | Some m \<Rightarrow> m)
                   else if status = 1 then ''ok'' else [])\<rparr>"

definition orderIDToUint64 :: "int option \<Rightarrow> string + uint64" where
  "orderIDToUint64 orderID = (case orderID of
     None \<Rightarrow> Inl ''invalid order id <nil>''
   | Some i \<Rightarrow> if sgn i \<le> 0 \<or> \<not> i < 2 ^ 64 then Inl (''invalid order id '' @ format_int i)
       else Inr (word_of_int i))"

text \<open>\<open>json.Marshal\<close> of an answer; an id and a status need no escapes.\<close>

definition marshal_OrderResponse :: "OrderResponse \<Rightarrow> bytes" where
  "marshal_OrderResponse r = CHR ''{'' # json_field ''orderId'' (quoted (ResponseOrderID r)) @ CHR '','' #
     json_field ''status'' (quoted (ResponseStatus r)) @ ''}''"

text \<open>The logged texts of errors; those of \<open>encoding/json\<close> are given by their kind.\<close>

fun dec_error_text :: "dec_error \<Rightarrow> string" where
  "dec_error_text DecEOF = ''EOF''"
| "dec_error_text DecSyntax = ''invalid JSON''"

fun policy_error_text :: "policy_error \<Rightarrow> string" where
  "policy_error_text PlaintextSize = ''order plaintext must be between 1 and 1024 bytes''"
| "policy_error_text (PlaintextDecode er) = ''decoding trigger plaintext: '' @ dec_error_text er"
| "policy_error_text NotAnObject = ''order plaintext must be a JSON object''"
| "policy_error_text (KeyDecode er) = ''decoding order key: '' @ dec_error_text er"
| "policy_error_text KeyNotString = ''order plaintext contains a non-string key''"
| "policy_error_text (UnknownField k) = ''unknown order field '' @ quoted k"
| "policy_error_text (DuplicateField k) = ''duplicate order field '' @ quoted k"
| "policy_error_text (FieldDecode k er) = ''decoding order field '' @ quoted k @ '': '' @ dec_error_text er"
| "policy_error_text (ObjectEnd er) = ''decoding order object end: '' @ dec_error_text er"
| "policy_error_text TrailingJson = ''order plaintext contains trailing JSON''"
| "policy_error_text (TrailingDecode er) = ''decoding trailing plaintext: '' @ dec_error_text er"
| "policy_error_text StructDecode = ''decoding trigger plaintext: unmarshal''"
| "policy_error_text TrailingNeedsTrailBps = ''trailing policy requires only trailBps''"
| "policy_error_text TrailBpsRange = ''trailBps must be between 25 and 5000''"
| "policy_error_text FixedNeedsTrigger = ''fixed policy requires only triggerPrice''"
| "policy_error_text TriggerRange = ''triggerPrice must be a positive uint256 base-10 integer''"
| "policy_error_text UnknownStrategy = ''strategy must be fixed or trailing''"
| "policy_error_text IsTrailingPolicy = ''payload is a trailing-stop policy''"

fun store_error_text :: "store_error \<Rightarrow> string" where
  "store_error_text (OrderExists i) = ''order '' @ FormatUint i @ '' already exists''"
| "store_error_text InvalidIdentity = ''invalid order identity or status''"
| "store_error_text InvalidPolicy = ''order must contain one valid fixed or trailing policy''"

definition processPlaceOrder :: "'k tee_env \<Rightarrow> gotime \<Rightarrow> Action \<Rightarrow> DataFixed \<Rightarrow> 'k Extension
    \<Rightarrow> ActionResult \<times> 'k Extension" where
  "processPlaceOrder E now a df x =
   (let fail = (\<lambda>m. (buildResult a df None 0 (Some m), x)) in
    case DecodePlaceOrder (tee_abi E) (OriginalMessage df) of
      Inl er \<Rightarrow> fail (''decoding request: '' @ decode_error_text er)
    | Inr req \<Rightarrow> (case orderIDToUint64 (Some (PlaceOrderID req)) of
      Inl m \<Rightarrow> fail m
    | Inr i \<Rightarrow> (case Decrypt (tee_crypto E) (ext_crypto x) (Ciphertext req) of
      Inl m \<Rightarrow> fail (''decrypting ciphertext: '' @ m)
    | Inr plaintext \<Rightarrow> (case ParseOrderPlaintext plaintext of
      Inl er \<Rightarrow> fail (''validating order policy: '' @ policy_error_text er)
    | Inr policy \<Rightarrow> (case Put now \<lparr>ID = i, TriggerPrice = PolicyTrigger policy,
          TrailBps = PolicyTrailBps policy, HighWatermark = None, Status = StatusOpen\<rparr> (ext_store x) of
      Inl er \<Rightarrow> fail (''storing order: '' @ store_error_text er)
    | Inr s' \<Rightarrow> (buildResult a df (Some (marshal_OrderResponse
          \<lparr>ResponseOrderID = FormatUint i, ResponseStatus = StatusOpen\<rparr>)) 1 None,
        x\<lparr>ext_store := s'\<rparr>))))))"

definition processCancelOrder :: "'k tee_env \<Rightarrow> Action \<Rightarrow> DataFixed \<Rightarrow> 'k Extension
    \<Rightarrow> ActionResult \<times> 'k Extension" where
  "processCancelOrder E a df x =
   (let fail = (\<lambda>m. (buildResult a df None 0 (Some m), x)) in
    case DecodeCancelOrder (tee_abi E) (OriginalMessage df) of
      Inl er \<Rightarrow> fail (''decoding request: '' @ decode_error_text er)
    | Inr req \<Rightarrow> (case orderIDToUint64 (Some (CancelOrderID req)) of
      Inl m \<Rightarrow> fail m
    | Inr i \<Rightarrow> (case Delete i (ext_store x) of (found, s') \<Rightarrow>
        if \<not> found then fail (''order '' @ FormatUint i @ '' not found'')
        else (buildResult a df (Some (marshal_OrderResponse
            \<lparr>ResponseOrderID = FormatUint i, ResponseStatus = StatusCancelled\<rparr>)) 1 None,
          x\<lparr>ext_store := s'\<rparr>))))"

definition HttpOK :: nat where "HttpOK = 200"
definition HttpBadRequest :: nat where "HttpBadRequest = 400"
definition HttpNotImplemented :: nat where "HttpNotImplemented = 501"

definition processDarkstop :: "'k tee_env \<Rightarrow> gotime \<Rightarrow> Action \<Rightarrow> DataFixed \<Rightarrow> 'k Extension
    \<Rightarrow> (nat \<times> bytes) \<times> 'k Extension" where
  "processDarkstop E now a df x =
     (if dfOPCommand df = ToHash E OPCommandPlaceOrder then
        (case processPlaceOrder E now a df x of (ar, x') \<Rightarrow> ((HttpOK, marshal_ActionResult E ar), x'))
      else if dfOPCommand df = ToHash E OPCommandCancelOrder then
        (case processCancelOrder E a df x of (ar, x') \<Rightarrow> ((HttpOK, marshal_ActionResult E ar), x'))
      else ((HttpNotImplemented, ''unsupported op command: received '' @ hash_Hex E (dfOPCommand df)
        @ '', expected one of ['' @ hash_Hex E (ToHash E OPCommandPlaceOrder) @ '' ('' @ OPCommandPlaceOrder
        @ ''), '' @ hash_Hex E (ToHash E OPCommandCancelOrder) @ '' ('' @ OPCommandCancelOrder @ '')]''), x))"

definition processAction :: "'k tee_env \<Rightarrow> gotime \<Rightarrow> Action \<Rightarrow> 'k Extension
    \<Rightarrow> (nat \<times> bytes) \<times> 'k Extension" where
  "processAction E now a x = (case Parse_DataFixed E (Message a) of
     Inl m \<Rightarrow> ((HttpBadRequest, ''decoding fixed data: '' @ m), x)
   | Inr df \<Rightarrow> if dfOPType df = ToHash E OPTypeDarkstop then processDarkstop E now a df x
       else ((HttpNotImplemented, ''unsupported op type: received '' @ hash_Hex E (dfOPType df)
         @ '', expected '' @ hash_Hex E (ToHash E OPTypeDarkstop) @ '' ('' @ OPTypeDarkstop @ '')''), x))"

definition actionHandler :: "'k tee_env \<Rightarrow> gotime \<Rightarrow> bytes \<Rightarrow> 'k Extension
    \<Rightarrow> (nat \<times> bytes) \<times> 'k Extension" where
  "actionHandler E now body x = (case decode_Action E body of
     Inl m \<Rightarrow> ((HttpBadRequest, ''decoding action: '' @ m), x)
   | Inr a \<Rightarrow> processAction E now a x)"

end
