(* ===== verification/Extension_Props.thy ===== *)
theory Extension_Props
  imports Extension
begin

text \<open>
  The theorems about the handlers: they touch the order book only through the two operations the
  watcher expects of them, an encrypted policy reaches the book as the client meant it, and no
  answer depends on the value of a policy.
\<close>

section \<open>Handlers as operations of the book\<close>

lemma orderID_valid: "orderIDToUint64 (Some j) = Inr i \<longleftrightarrow> 0 < j \<and> j < 2 ^ 64 \<and> i = word_of_int j"
  by (auto simp: orderIDToUint64_def sgn_if)

lemma placed_id:
  assumes "0 < j" and "j < 2 ^ 64"
  shows "FormatUint (word_of_int j :: uint64) = format_int j" and "word_of_int j \<noteq> (0 :: uint64)"
proof -
  have "uint (word_of_int j :: uint64) = j" using assms by (simp add: uint_word_of_int)
  then show "FormatUint (word_of_int j :: uint64) = format_int j" and "word_of_int j \<noteq> (0 :: uint64)"
    using assms(1) by (auto simp: FormatUint_def format_int_def unat_eq_nat_uint)
qed

lemma place_put:
  "processPlaceOrder E now a df x = (ar, x') \<Longrightarrow>
    x' = x \<or> (\<exists>o1 s'. Put now o1 (ext_store x) = Inr s' \<and> x' = x\<lparr>ext_store := s'\<rparr>)"
  by (auto simp: processPlaceOrder_def Let_def split: sum.splits)

lemma place_store:
  "ext_store (snd (processPlaceOrder E now a df x)) = ext_store x \<or>
    (\<exists>o1. ext_store (snd (processPlaceOrder E now a df x)) = apply_store_op (OpPut now o1) (ext_store x))"
proof -
  obtain ar x' where run: "processPlaceOrder E now a df x = (ar, x')" by fastforce
  from place_put [OF run] show ?thesis
  proof (elim disjE exE conjE)
    fix o1 s'
    assume "Put now o1 (ext_store x) = Inr s'" and "x' = x\<lparr>ext_store := s'\<rparr>"
    then show ?thesis unfolding run by (intro disjI2 exI [of _ o1]) simp
  qed (simp add: run)
qed

lemma cancel_store:
  "ext_store (snd (processCancelOrder E a df x)) = ext_store x \<or>
    (\<exists>i. ext_store (snd (processCancelOrder E a df x)) = apply_store_op (OpDelete i) (ext_store x))"
proof (cases "DecodeCancelOrder (tee_abi E) (OriginalMessage df)")
  case (Inr req)
  then show ?thesis
    by (auto simp: processCancelOrder_def Let_def case_prod_beta split: sum.split)
qed (simp add: processCancelOrder_def)

lemma handlers_keep_key:
  "ext_crypto (snd (processPlaceOrder E now a df x)) = ext_crypto x"
  "ext_crypto (snd (processCancelOrder E a df x)) = ext_crypto x"
  by (auto simp: processPlaceOrder_def processCancelOrder_def Let_def case_prod_beta split: sum.split)

lemma processAction_store:
  "ext_crypto (snd (processAction E now a x)) = ext_crypto x
    \<and> (ext_store (snd (processAction E now a x)) = ext_store x
       \<or> (\<exists>h. ext_store (snd (processAction E now a x)) = apply_store_op (handler_store_op h) (ext_store x)))"
proof -
  have "\<exists>h. apply_store_op (OpPut now o1) s = apply_store_op (handler_store_op h) s" for o1 s
    by (rule exI [of _ "HandlerPut now o1"]) simp
  moreover have "\<exists>h. apply_store_op (OpDelete i) s = apply_store_op (handler_store_op h) s" for i s
    by (rule exI [of _ "HandlerDelete i"]) simp
  ultimately show ?thesis
    using place_store [of E now a _ x] cancel_store [of E a _ x]
    by (auto simp: processAction_def processDarkstop_def handlers_keep_key case_prod_beta
        split: sum.split) metis+
qed

text \<open>Whatever bytes arrive, an action changes nothing but the order book, and that only by one
  insertion or one deletion of the kind the watcher's model of concurrent handlers allows.\<close>

lemma handler_store:
  "ext_crypto (snd (actionHandler E now body x)) = ext_crypto x
    \<and> (ext_store (snd (actionHandler E now body x)) = ext_store x
       \<or> (\<exists>h. ext_store (snd (actionHandler E now body x)) = apply_store_op (handler_store_op h) (ext_store x)))"
  using processAction_store [of E now _ x] by (simp add: actionHandler_def split: sum.split)

section \<open>A policy reaches the book\<close>

text \<open>Documented inverses of the cryptographic library, at one key.\<close>

definition ecies_inverse :: "'k crypto_lib \<Rightarrow> 'k Crypto \<Rightarrow> bool" where
  "ecies_inverse L c \<longleftrightarrow> (\<forall>rand p ct. Encrypt L rand c p = Inr ct \<longrightarrow> Decrypt L c ct = Inr p)"

text \<open>The order of a policy, and when the book takes it.\<close>

definition policy_order :: "uint64 \<Rightarrow> OrderPolicy \<Rightarrow> Order" where
  "policy_order i pol = \<lparr>ID = i, TriggerPrice = PolicyTrigger pol, TrailBps = PolicyTrailBps pol,
     HighWatermark = None, Status = StatusOpen\<rparr>"

lemma Put_policy:
  assumes "ParseOrderPlaintext p = Inr pol"
  shows "Put now (policy_order i pol) s =
    (if gm_get (orders s) i \<noteq> None then Inl (OrderExists i) else if i = 0 then Inl InvalidIdentity
     else if PolicyTrigger pol = None \<and> \<not> trailingReady now s then Inl InvalidPolicy
     else Inr (s\<lparr>orders := gm_put i ((policy_order i pol)\<lparr>HighWatermark :=
         if PolicyTrigger pol = None then latestPrice s else None\<rparr>) (orders s)\<rparr>))"
  using policy_range [OF assms]
  by (auto simp: Put_def policy_order_def isFixed_def isTrailing_def big_BitLen_le Let_def
      trailingReady_def)

text \<open>A fixed order that was placed: what the book shows of it then and after a price sample.\<close>

definition placed :: "uint64 \<Rightarrow> int \<Rightarrow> Store \<Rightarrow> Store" where
  "placed i t s = s\<lparr>orders := gm_put i (policy_order i \<lparr>PolicyTrigger = Some t, PolicyTrailBps = 0\<rparr>) (orders s)\<rparr>"

lemma placed_facts:
  "EffectiveTrigger i (placed i t s) = Some t"
  "k \<noteq> i \<Longrightarrow> Get k (placed i t s) = Get k s"
  "order_phase (placed i t s) k = (if k = i then Live else order_phase s k)"
  by (auto simp: placed_def policy_order_def EffectiveTrigger_def Get_def order_phase_def)

lemma placed_sampled: "EffectiveTrigger i (snd (TriggeredOrders p (placed i t s))) = Some t"
proof (cases "\<exists>price. p = Some price \<and> 0 < price")
  case True
  then show ?thesis
    by (auto simp: TriggeredOrders_get EffectiveTrigger_def placed_def policy_order_def trigger_step_def Let_def)
next
  case False
  then have "snd (TriggeredOrders p (placed i t s)) = placed i t s"
    by (cases p) (auto simp: TriggeredOrders_def sgn_if)
  then show ?thesis by (simp add: placed_facts)
qed

lemma place_run:
  assumes "DecodePlaceOrder (tee_abi E) (OriginalMessage df) = Inr \<lparr>PlaceOrderID = j, Ciphertext = ct\<rparr>"
    and "0 < j" and "j < 2 ^ 64" and "Decrypt (tee_crypto E) (ext_crypto x) ct = Inr p"
    and "ParseOrderPlaintext p = Inr \<lparr>PolicyTrigger = Some t, PolicyTrailBps = 0\<rparr>"
    and "order_phase (ext_store x) (word_of_int j) = Absent"
  shows "processPlaceOrder E now a df x =
      (buildResult a df (Some (marshal_OrderResponse \<lparr>ResponseOrderID = format_int j,
         ResponseStatus = StatusOpen\<rparr>)) 1 None, x\<lparr>ext_store := placed (word_of_int j) t (ext_store x)\<rparr>)"
proof -
  let ?i = "word_of_int j :: uint64"
  have absent: "gm_get (orders (ext_store x)) ?i = None"
    using assms(6) by (simp add: order_phase_def split: option.splits if_splits)
  have put: "Put now (policy_order ?i \<lparr>PolicyTrigger = Some t, PolicyTrailBps = 0\<rparr>) (ext_store x) = Inr (placed ?i t (ext_store x))"
    using Put_policy [OF assms(5), of now ?i "ext_store x"] absent placed_id [OF assms(2,3)]
    by (simp add: placed_def policy_order_def)
  then show ?thesis
    using assms(1-5) placed_id [OF assms(2,3)]
    by (simp add: processPlaceOrder_def orderID_valid [THEN iffD2] policy_order_def)
qed

text \<open>A toy cipher and node for the witnesses.\<close>

definition tiny_crypto :: "unit crypto_lib" where
  "tiny_crypto = \<lparr>ecies_GenerateKey = (\<lambda>_. Inr ()), HexToECDSA = (\<lambda>_. Inr ()), FromECDSAPub = (\<lambda>_. ''P''),
     FromECDSA = (\<lambda>_. ''S''), ecies_Encrypt = (\<lambda>_ _ p. Inr (rev p)), ecies_Decrypt = (\<lambda>_ c. Inr (rev c))\<rparr>"

definition tiny_env :: "unit tee_env" where
  "tiny_env = \<lparr>tee_crypto = tiny_crypto, tee_abi = tiny_abi, ToHash = (\<lambda>s. word_of_nat (length s)),
     hash_Hex = (\<lambda>_. ''0x''), Parse_DataFixed = (\<lambda>m. Inr \<lparr>dfOPType = 8, dfOPCommand = 11, OriginalMessage = m\<rparr>),
     decode_Action = (\<lambda>b. Inr \<lparr>ActionID = [], SubmissionTag = [], Message = b\<rparr>),
     marshal_ActionResult = (\<lambda>ar. case ResultData ar of None \<Rightarrow> ResultLog ar | Some d \<Rightarrow> d)\<rparr>"

definition tiny_extension :: "unit Extension" where
  "tiny_extension = \<lparr>ext_crypto = \<lparr>key = ()\<rparr>, ext_store = NewStore\<rparr>"

definition tiny_action :: Action where
  "tiny_action = \<lparr>ActionID = ''a'', SubmissionTag = ''t'', Message = []\<rparr>"

definition tiny_df :: "bytes \<Rightarrow> DataFixed" where
  "tiny_df p = \<lparr>dfOPType = 8, dfOPCommand = 11, OriginalMessage = byte 7 # rev p\<rparr>"

lemma tiny_inverse: "ecies_inverse tiny_crypto c"
  by (auto simp: ecies_inverse_def Encrypt_def Decrypt_def tiny_crypto_def)

lemma tiny_decode: "DecodePlaceOrder tiny_abi (OriginalMessage (tiny_df p)) =
    Inr \<lparr>PlaceOrderID = 7, Ciphertext = rev p\<rparr>"
  by (simp add: DecodePlaceOrder_def unpackStrict_def tiny_abi_def tiny_df_def PlaceOrderMessageArgs_def)

lemma tiny_absent: "order_phase (ext_store tiny_extension) i = Absent"
  by (simp add: tiny_extension_def NewStore_def order_phase_def)

section \<open>Policies stay private\<close>

text \<open>Two books that differ at most in policies: same ids with the same statuses, same samples.\<close>

definition low_equal :: "Store \<Rightarrow> Store \<Rightarrow> bool" where
  "low_equal s t \<longleftrightarrow> (\<forall>i. map_option Status (gm_get (orders s) i) = map_option Status (gm_get (orders t) i))
     \<and> latestPrice s = latestPrice t \<and> latestAt s = latestAt t"

definition public_part :: "Order \<Rightarrow> uint64 \<times> string" where
  "public_part o1 = (ID o1, Status o1)"

lemma map_fst_public: "map fst (map public_part xs) = map ID xs"
  by (simp add: public_part_def comp_def)

lemma public_parts:
  assumes "store_inv s"
  shows "set (map public_part (Snapshot s)) = {(i, st). map_option Status (gm_get (orders s) i) = Some st}"
proof -
  have "(i, st) \<in> set (map public_part (Snapshot s)) \<longleftrightarrow> map_option Status (gm_get (orders s) i) = Some st" for i st
  proof -
    have "(i, st) \<in> set (map public_part (Snapshot s)) \<longleftrightarrow>
        (\<exists>k o1. (k, o1) \<in> set (orders s) \<and> i = ID o1 \<and> st = Status o1)"
      by (force simp: Snapshot_def public_part_def)
    also have "\<dots> \<longleftrightarrow> (\<exists>o1. (i, o1) \<in> set (orders s) \<and> st = Status o1)"
      using store_inv_ids [OF assms] by force
    also have "\<dots> \<longleftrightarrow> map_option Status (gm_get (orders s) i) = Some st"
      by (auto simp: gm_get_iff [OF store_inv_ok [OF assms], symmetric])
    finally show ?thesis .
  qed
  then show ?thesis by auto
qed

lemma low_snapshot:
  assumes "store_inv s" and "store_inv t" and "low_equal s t"
  shows "map public_part (Snapshot s) = map public_part (Snapshot t)"
proof (rule sorted_key_unique [of fst])
  show "sorted (map fst (map public_part (Snapshot s)))" and "sorted (map fst (map public_part (Snapshot t)))"
    unfolding map_fst_public by (simp_all add: Snapshot_def)
  show "distinct (map fst (map public_part (Snapshot s)))" and "distinct (map fst (map public_part (Snapshot t)))"
    using distinct_ids [OF assms(1)] distinct_ids [OF assms(2)]
    unfolding map_fst_public by (simp_all add: Snapshot_def del: map_map)
  show "set (map public_part (Snapshot s)) = set (map public_part (Snapshot t))"
    using assms(3) by (simp only: public_parts [OF assms(1)] public_parts [OF assms(2)]) (simp add: low_equal_def)
qed

lemma low_state:
  assumes "store_inv (ext_store x)" and "store_inv (ext_store y)"
    and "low_equal (ext_store x) (ext_store y)" and "ext_crypto x = ext_crypto y"
  shows "stateHandler E now x = stateHandler E now y"
proof -
  define show_pair where "show_pair = (\<lambda>(i :: uint64, st). \<lparr>StateOrderID = FormatUint i, StateStatus = st\<rparr>)"
  have state: "order_state = show_pair \<circ> public_part"
    by (simp add: fun_eq_iff order_state_def show_pair_def public_part_def)
  have count: "length (filter (\<lambda>o1. Status o1 = StatusOpen) os) =
      length (filter (\<lambda>(i, st). st = StatusOpen) (map public_part os))" for os
    by (simp add: filter_map comp_def public_part_def case_prod_beta)
  have "SupportedPolicies now (ext_store x) = SupportedPolicies now (ext_store y)"
    using assms(3) by (simp add: SupportedPolicies_def trailingReady_def low_equal_def)
  moreover have "length (filter (\<lambda>o1. Status o1 = StatusOpen) (Snapshot (ext_store x)))
      = length (filter (\<lambda>o1. Status o1 = StatusOpen) (Snapshot (ext_store y)))"
    by (simp only: count low_snapshot [OF assms(1-3)])
  moreover have "map order_state (Snapshot (ext_store x)) = map order_state (Snapshot (ext_store y))"
    by (simp only: state map_map [symmetric] low_snapshot [OF assms(1-3)])
  ultimately show ?thesis
    using assms(4) by (simp add: stateHandler_def Let_def)
qed

lemma low_absent: "low_equal s t \<Longrightarrow> gm_get (orders s) i = None \<longleftrightarrow> gm_get (orders t) i = None"
  by (metis low_equal_def map_option_is_None)

lemma low_delete: "low_equal s t \<Longrightarrow> fst (Delete i s) = fst (Delete i t)
    \<and> low_equal (snd (Delete i s)) (snd (Delete i t))"
  using low_absent [of s t i] by (auto simp: Delete_def low_equal_def)

lemma low_cancel:
  assumes "low_equal (ext_store x) (ext_store y)"
  shows "fst (processCancelOrder E a df x) = fst (processCancelOrder E a df y)
    \<and> low_equal (ext_store (snd (processCancelOrder E a df x))) (ext_store (snd (processCancelOrder E a df y)))"
  using assms low_delete [OF assms]
  by (simp add: processCancelOrder_def Let_def case_prod_beta split: sum.split)

text \<open>Two policies of the same kind are stored or refused alike.\<close>

lemma low_put:
  assumes "ParseOrderPlaintext p = Inr pol" and "ParseOrderPlaintext q = Inr qol"
    and "PolicyTrigger pol = None \<longleftrightarrow> PolicyTrigger qol = None" and "low_equal s t"
  shows "case (Put now (policy_order i pol) s, Put now (policy_order i qol) t) of
      (Inl er, Inl er') \<Rightarrow> er = er' | (Inr s', Inr t') \<Rightarrow> low_equal s' t' | _ \<Rightarrow> False"
proof -
  have "trailingReady now s = trailingReady now t"
    using assms(4) by (simp add: trailingReady_def low_equal_def)
  then show ?thesis
    using assms(3,4) low_absent [OF assms(4), of i]
    unfolding Put_policy [OF assms(1)] Put_policy [OF assms(2)]
    by (auto simp: low_equal_def policy_order_def)
qed

text \<open>C11. The values of policies never reach an answer. Let two enclaves with the same key hold the
  same orders up to their policies. Then \<open>GET /state\<close> answers alike, a cancellation answers alike,
  and so do two placements of the same order id whose ciphertexts hide different valid policies of
  the same kind; afterwards the enclaves again differ in policies alone.\<close>

theorem policies_stay_private:
  assumes "store_inv (ext_store x)" and "store_inv (ext_store y)" and "ext_crypto x = ext_crypto y"
    and "low_equal (ext_store x) (ext_store y)"
    and "dfOPType df = dfOPType dg" and "dfOPCommand df = dfOPCommand dg"
    and "DecodePlaceOrder (tee_abi E) (OriginalMessage df) = Inr \<lparr>PlaceOrderID = j, Ciphertext = cp\<rparr>"
    and "DecodePlaceOrder (tee_abi E) (OriginalMessage dg) = Inr \<lparr>PlaceOrderID = j, Ciphertext = cq\<rparr>"
    and "Decrypt (tee_crypto E) (ext_crypto x) cp = Inr p" and "ParseOrderPlaintext p = Inr pol"
    and "Decrypt (tee_crypto E) (ext_crypto x) cq = Inr q" and "ParseOrderPlaintext q = Inr qol"
    and "PolicyTrigger pol = None \<longleftrightarrow> PolicyTrigger qol = None"
  shows "stateHandler E now x = stateHandler E now y
    \<and> fst (processCancelOrder E a df x) = fst (processCancelOrder E a df y)
    \<and> low_equal (ext_store (snd (processCancelOrder E a df x))) (ext_store (snd (processCancelOrder E a df y)))
    \<and> fst (processPlaceOrder E now a df x) = fst (processPlaceOrder E now a dg y)
    \<and> low_equal (ext_store (snd (processPlaceOrder E now a df x))) (ext_store (snd (processPlaceOrder E now a dg y)))"
proof -
  have result: "buildResult a df d s er = buildResult a dg d s er" for d s er
    using assms(5,6) by (simp add: buildResult_def)
  have dec: "Decrypt (tee_crypto E) (ext_crypto y) cq = Inr q" using assms(3,11) by simp
  have "fst (processPlaceOrder E now a df x) = fst (processPlaceOrder E now a dg y)
    \<and> low_equal (ext_store (snd (processPlaceOrder E now a df x))) (ext_store (snd (processPlaceOrder E now a dg y)))"
  proof (cases "orderIDToUint64 (Some j)")
    case (Inl m)
    then show ?thesis using assms(4) by (simp add: processPlaceOrder_def assms(7,8) result)
  next
    case (Inr i)
    show ?thesis
      using low_put [OF assms(10,12,13,4), of now i] assms(4)
      by (auto simp: processPlaceOrder_def assms(7-10,12) dec Inr result policy_order_def Let_def
          split: sum.splits)
  qed
  then show ?thesis
    using low_state [OF assms(1,2,4,3), of E now] low_cancel [OF assms(4), of E a df] by blast
qed

theorem policies_stay_private_witness:
  "fst (processPlaceOrder tiny_env 0 tiny_action (tiny_df (fixed_plaintext 20000)) tiny_extension)
   = fst (processPlaceOrder tiny_env 0 tiny_action (tiny_df (legacy_plaintext 5)) tiny_extension)"
proof -
  have pol: "ParseOrderPlaintext (fixed_plaintext 20000) = Inr \<lparr>PolicyTrigger = Some 20000, PolicyTrailBps = 0\<rparr>"
    "ParseOrderPlaintext (legacy_plaintext 5) = Inr \<lparr>PolicyTrigger = Some 5, PolicyTrailBps = 0\<rparr>"
    using policy_texts [of 20000 25] policy_texts [of 5 25] by simp_all
  have inv: "store_inv (ext_store tiny_extension)" and low: "low_equal s s" for s
    by (simp_all add: tiny_extension_def NewStore_inv low_equal_def)
  have dec: "DecodePlaceOrder (tee_abi tiny_env) (OriginalMessage (tiny_df p)) =
      Inr \<lparr>PlaceOrderID = 7, Ciphertext = rev p\<rparr>" for p
    by (simp add: tiny_env_def tiny_decode)
  have open_: "Decrypt (tee_crypto tiny_env) c (rev p) = Inr p" for c p
    by (simp add: tiny_env_def tiny_crypto_def Decrypt_def)
  have kind: "PolicyTrigger \<lparr>PolicyTrigger = Some 20000, PolicyTrailBps = 0\<rparr> = None
      \<longleftrightarrow> PolicyTrigger \<lparr>PolicyTrigger = Some 5, PolicyTrailBps = 0\<rparr> = None" by simp
  have same: "dfOPType (tiny_df p) = dfOPType (tiny_df q)" "dfOPCommand (tiny_df p) = dfOPCommand (tiny_df q)"
    for p q by (simp_all add: tiny_df_def)
  show ?thesis
    using policies_stay_private [OF inv inv refl low same dec dec open_ pol(1) open_ pol(2) kind,
        of 0 tiny_action] by blast
qed

end
