(* ===== verification/Node.thy ===== *)
theory Node
  imports Launch Watcher_Liveness Extension_Props
begin

text \<open>
  The enclave process, \<open>cmd/docker/main.go\<close> and \<open>cmd/main.go\<close> with \<open>pkg/server/server.go\<close>: it starts
  the extension, then the watcher on the extension's own order book, and from then on requests
  and ticks interleave. The server's failure to listen is an argument, as are the functions that
  \<open>LaunchWatcherFromConfig\<close> calls; log lines and the shutdown are left out.
\<close>

section \<open>Starting\<close>

definition intEnv :: "(string \<Rightarrow> string) \<Rightarrow> string \<Rightarrow> int \<Rightarrow> int" where
  "intEnv getenv var fallback = (case Atoi (getenv var) of Some v \<Rightarrow> v | None \<Rightarrow> fallback)"

text \<open>The ports that \<open>StartServerExtension\<close> of the tee-node gets.\<close>

definition node_ports :: "(string \<Rightarrow> string) \<Rightarrow> settings \<Rightarrow> int \<times> int \<times> int" where
  "node_ports getenv cfg = (intEnv getenv ''CONFIG_PORT'' 5501, SignPort cfg, ExtensionPort cfg)"

text \<open>The extension and the watcher hold one book: \<open>with_book\<close> writes it to both.\<close>

record 'k node =
  nd_ext :: "'k Extension"
  nd_watcher :: "Watcher option"

definition with_book :: "Store \<Rightarrow> 'k node \<Rightarrow> 'k node" where
  "with_book s n = n\<lparr>nd_ext := (nd_ext n)\<lparr>ext_store := s\<rparr>, nd_watcher := map_option (\<lambda>w. w\<lparr>wstore := s\<rparr>) (nd_watcher n)\<rparr>"

definition launch_node :: "'k Extension \<Rightarrow> launch_result \<Rightarrow> string + 'k node" where
  "launch_node x launched = (case launched of
     LaunchFailed m \<Rightarrow> Inl (''starting watcher: '' @ m)
   | NotConfigured \<Rightarrow> Inr \<lparr>nd_ext = x, nd_watcher = None\<rparr>
   | Launched w interval \<Rightarrow> Inr \<lparr>nd_ext = x, nd_watcher = Some w\<rparr>)"

text \<open>The extension with its error channel: what it holds 100 ms after the start is \<open>listen_error\<close>.\<close>

definition StartExtension :: "'k tee_env \<Rightarrow> settings \<Rightarrow> bytes \<Rightarrow> string option \<Rightarrow> string + ('k Extension \<times> string option)" where
  "StartExtension X cfg rand listen_error = (case New X cfg rand of
     Inl m \<Rightarrow> Inl m | Inr x \<Rightarrow> Inr (x, listen_error))"

definition docker_main :: "'k tee_env \<Rightarrow> (Store \<Rightarrow> launch_result) \<Rightarrow> settings \<Rightarrow> bytes \<Rightarrow> string option
    \<Rightarrow> string + 'k node" where
  "docker_main X launch cfg rand listen_error = (case StartExtension X cfg rand listen_error of
     Inl m \<Rightarrow> Inl m
   | Inr (x, extErrCh) \<Rightarrow> (case extErrCh of
       Some err \<Rightarrow> Inl (''extension server failed to start: '' @ err)
     | None \<Rightarrow> launch_node x (launch (ext_store x))))"

definition extension_main :: "'k tee_env \<Rightarrow> (Store \<Rightarrow> launch_result) \<Rightarrow> settings \<Rightarrow> bytes \<Rightarrow> string + 'k node" where
  "extension_main X launch cfg rand = (case New X cfg rand of
     Inl m \<Rightarrow> Inl m | Inr x \<Rightarrow> launch_node x (launch (ext_store x)))"

section \<open>Running\<close>

definition node_action :: "'k tee_env \<Rightarrow> gotime \<Rightarrow> bytes \<Rightarrow> 'k node \<Rightarrow> (nat \<times> bytes) \<times> 'k node" where
  "node_action X now body n = (case actionHandler X now body (nd_ext n) of (answer, x') \<Rightarrow>
     (answer, with_book (ext_store x') (n\<lparr>nd_ext := x'\<rparr>)))"

definition node_tick :: "'w chain_env \<Rightarrow> 'k node \<Rightarrow> 'w \<Rightarrow> 'k node \<times> 'w" where
  "node_tick e n x = (case nd_watcher n of
     None \<Rightarrow> (n, x)
   | Some w \<Rightarrow> (case tick e (w, x) of (err, (w', x')) \<Rightarrow> (with_book (wstore w') (n\<lparr>nd_watcher := Some w'\<rparr>), x')))"

text \<open>Requests, ticks and time passing, in any order; a \<open>GET /state\<close> changes nothing.\<close>

inductive node_step :: "'k tee_env \<Rightarrow> 'w chain_env \<Rightarrow> 'k node \<times> 'w \<Rightarrow> 'k node \<times> 'w \<Rightarrow> bool" for X e where
  node_request: "node_step X e (n, x) (snd (node_action X now body n), x)"
| node_ticked: "node_step X e (n, x) (node_tick e n x)"
| node_waits: "node_step X e (n, x) (n, x')"

inductive_cases node_stepE: "node_step X e st st'"

definition watcher_launch :: "(Store \<Rightarrow> launch_result) \<Rightarrow> bool" where
  "watcher_launch launch \<longleftrightarrow> (\<exists>is_print is_hex to_addr dial key_address cfg.
     launch = LaunchWatcherFromConfig is_print is_hex to_addr dial key_address cfg)"

definition started_node :: "'k tee_env \<Rightarrow> 'k Crypto \<Rightarrow> 'k node \<times> 'w \<Rightarrow> bool" where
  "started_node X c st \<longleftrightarrow> ext_crypto (nd_ext (fst st)) = c \<and> (\<exists>launch cfg rand listen_error. watcher_launch launch
     \<and> (docker_main X launch cfg rand listen_error = Inr (fst st) \<or> extension_main X launch cfg rand = Inr (fst st)))"

section \<open>The node refines the watcher's model\<close>

definition node_inv :: "'w chain_env \<Rightarrow> 'k Crypto \<Rightarrow> 'k node \<times> 'w \<Rightarrow> bool" where
  "node_inv e c st \<longleftrightarrow> ext_crypto (nd_ext (fst st)) = c \<and> store_inv (ext_store (nd_ext (fst st)))
     \<and> (\<forall>w. nd_watcher (fst st) = Some w \<longrightarrow> wstore w = ext_store (nd_ext (fst st)) \<and> reach fresh_watcher (watch_step e) (w, snd st))"

lemma launched_watcher:
  assumes "watcher_launch launch" and "launch s = Launched w i"
  shows "wstore w = s \<and> (\<exists>key_address v k. NewWatcher key_address s v k = Inr w)"
proof -
  from assms obtain key_address v k where "NewWatcher key_address s v k = Inr w"
    by (auto simp: watcher_launch_def LaunchWatcherFromConfig_def split: if_splits option.splits sum.splits)
  moreover from this have "wstore w = s" by (auto simp: NewWatcher_def split: sum.splits)
  ultimately show ?thesis by blast
qed

lemma launch_started:
  assumes "watcher_launch launch" and "launch_node x (launch (ext_store x)) = Inr n"
  shows "nd_ext n = x \<and> (\<forall>w. nd_watcher n = Some w \<longrightarrow> wstore w = ext_store x
    \<and> (\<exists>key_address v k. NewWatcher key_address (ext_store x) v k = Inr w))"
  using assms(2) launched_watcher [OF assms(1)] by (cases "launch (ext_store x)") (auto simp: launch_node_def)

lemma New_store: "New X cfg rand = Inr x \<Longrightarrow> ext_store x = NewStore"
  by (auto simp: New_def split: sum.splits if_splits)

lemma main_started:
  "docker_main X launch cfg rand listen_error = Inr n \<Longrightarrow> \<exists>x. New X cfg rand = Inr x \<and> launch_node x (launch (ext_store x)) = Inr n"
  "extension_main X launch cfg rand = Inr n \<Longrightarrow> \<exists>x. New X cfg rand = Inr x \<and> launch_node x (launch (ext_store x)) = Inr n"
  by (cases "New X cfg rand"; cases listen_error; simp add: docker_main_def StartExtension_def extension_main_def)+

lemma started_inv:
  assumes "started_node X c st"
  shows "node_inv e c st"
proof -
  from assms obtain launch x where c: "ext_crypto (nd_ext (fst st)) = c" and l: "watcher_launch launch"
      "launch_node x (launch (ext_store x)) = Inr (fst st)" and s: "ext_store x = NewStore"
    unfolding started_node_def using main_started New_store by metis
  note launch_started [OF l]
  moreover have "reach fresh_watcher (watch_step e) (w, snd st)" if "NewWatcher ka (ext_store x) v k = Inr w" for ka v k w
    using that s NewStore_inv by (intro reach_init) (auto simp: fresh_watcher_def)
  ultimately show ?thesis using c s NewStore_inv by (auto simp: node_inv_def)
qed

lemma action_inv:
  assumes "node_inv e c (n, x)"
  shows "node_inv e c (snd (node_action X now body n), x)"
proof -
  let ?x = "snd (actionHandler X now body (nd_ext n))"
  have eq: "snd (node_action X now body n) = with_book (ext_store ?x) (n\<lparr>nd_ext := ?x\<rparr>)"
    by (simp add: node_action_def split: prod.split)
  have crypto: "ext_crypto ?x = ext_crypto (nd_ext n)"
    and ops: "ext_store ?x = ext_store (nd_ext n)
      \<or> (\<exists>h. ext_store ?x = apply_store_op (handler_store_op h) (ext_store (nd_ext n)))"
    using handler_store [of X now body "nd_ext n"] by auto
  have inv: "store_inv (ext_store ?x)"
    using ops assms apply_store_op_inv by (auto simp: node_inv_def)
  have "reach fresh_watcher (watch_step e) (w\<lparr>wstore := ext_store ?x\<rparr>, x)"
    if w: "nd_watcher n = Some w" for w
  proof -
    have r: "reach fresh_watcher (watch_step e) (w, x)" and book: "wstore w = ext_store (nd_ext n)"
      using assms w by (auto simp: node_inv_def)
    from ops show ?thesis
    proof
      assume "ext_store ?x = ext_store (nd_ext n)"
      then have "w\<lparr>wstore := ext_store ?x\<rparr> = w" using book by (cases w) simp
      then show ?thesis using r by simp
    next
      assume "\<exists>h. ext_store ?x = apply_store_op (handler_store_op h) (ext_store (nd_ext n))"
      then obtain h where h: "ext_store ?x = apply_store_op (handler_store_op h) (wstore w)" unfolding book ..
      show ?thesis unfolding h by (rule reach_step [OF r watch_handler])
    qed
  qed
  moreover have "ext_crypto (nd_ext n) = c" using assms by (simp add: node_inv_def)
  ultimately show ?thesis
    unfolding eq with_book_def node_inv_def using crypto inv by (cases "nd_watcher n") simp_all
qed

lemma tick_inv:
  assumes "node_inv e c (n, x)"
  shows "node_inv e c (node_tick e n x)"
proof (cases "nd_watcher n")
  case None
  then show ?thesis using assms by (simp add: node_tick_def)
next
  case (Some w)
  then have r: "reach fresh_watcher (watch_step e) (w, x)" using assms by (simp add: node_inv_def)
  obtain err w' x' where t: "tick e (w, x) = (err, (w', x'))" by (metis surj_pair)
  have r': "reach fresh_watcher (watch_step e) (w', x')"
    using reach_step [OF r watch_tick] t by simp
  then have "store_inv (wstore w')" using watch_machine.inv_reach [OF r'] by (simp add: watch_inv_def)
  with r' assms show ?thesis by (simp add: node_tick_def Some t node_inv_def with_book_def)
qed

interpretation node_machine: inv_machine "started_node X c" "node_step X e" "node_inv e c"
proof
  show "node_inv e c st" if "started_node X c st" for st using started_inv [OF that] .
  show "node_inv e c st'" if "node_inv e c st" and "node_step X e st st'" for st st'
    using that(2,1)
  proof (cases rule: node_step.cases)
    case (node_waits n x x')
    have "reach fresh_watcher (watch_step e) (w, x')" if "reach fresh_watcher (watch_step e) (w, x)" for w
      using reach_step [OF that watch_world] .
    then show ?thesis using that(1) node_waits by (auto simp: node_inv_def)
  qed (auto intro: action_inv tick_inv)
qed

end
