(* ===== verification/Node_Props.thy ===== *)
theory Node_Props
  imports Node
begin

text \<open>
  The life of one order through the whole process: from the encrypted instruction to the settlement
  transaction.
\<close>

text \<open>A request that is a place order instruction for \<open>j\<close> with a ciphertext of a plaintext \<open>p\<close>.\<close>

definition place_request :: "'k tee_env \<Rightarrow> 'k Crypto \<Rightarrow> bytes \<Rightarrow> int \<Rightarrow> bytes \<Rightarrow> bool" where
  "place_request X c body j p \<longleftrightarrow> (\<exists>a df rand ct. decode_Action X body = Inr a \<and> Parse_DataFixed X (Message a) = Inr df
     \<and> dfOPType df = ToHash X OPTypeDarkstop \<and> dfOPCommand df = ToHash X OPCommandPlaceOrder
     \<and> DecodePlaceOrder (tee_abi X) (OriginalMessage df) = Inr \<lparr>PlaceOrderID = j, Ciphertext = ct\<rparr>
     \<and> Encrypt (tee_crypto X) rand c p = Inr ct)"

lemma place_action:
  assumes "ecies_inverse (tee_crypto X) (ext_crypto x)" and "place_request X (ext_crypto x) body j p"
    and "ParseOrderPlaintext p = Inr \<lparr>PolicyTrigger = Some t, PolicyTrailBps = 0\<rparr>"
    and "0 < j" and "j < 2 ^ 64" and "order_phase (ext_store x) (word_of_int j) = Absent"
  shows "\<exists>answer. actionHandler X now body x = ((HttpOK, answer), x\<lparr>ext_store := placed (word_of_int j) t (ext_store x)\<rparr>)"
proof -
  from assms(2) obtain a df rand ct where b: "decode_Action X body = Inr a" "Parse_DataFixed X (Message a) = Inr df"
      "dfOPType df = ToHash X OPTypeDarkstop" "dfOPCommand df = ToHash X OPCommandPlaceOrder"
      "DecodePlaceOrder (tee_abi X) (OriginalMessage df) = Inr \<lparr>PlaceOrderID = j, Ciphertext = ct\<rparr>"
      "Encrypt (tee_crypto X) rand (ext_crypto x) p = Inr ct"
    unfolding place_request_def by blast
  have "Decrypt (tee_crypto X) (ext_crypto x) ct = Inr p" using assms(1) b(6) unfolding ecies_inverse_def by blast
  from place_run [OF b(5) assms(4,5) this assms(3,6), of now a] b(1-4) show ?thesis
    by (simp add: actionHandler_def processAction_def processDarkstop_def)
qed

lemma placed_length: "length (orders (placed i t s)) \<le> Suc (length (orders s))"
proof -
  have "length (AList.update k v m) \<le> Suc (length m)" for k and v :: Order and m :: "(uint64, Order) gomap"
    by (induction m) auto
  then show ?thesis by (simp add: placed_def gm_put_def)
qed

text \<open>The life of an order. In any reachable state of the process with a running, idle watcher, a
  request that carries a fixed trigger \<open>t\<close> encrypted to the enclave's key, under a fresh order id, is
  answered with status 200; if the next tick reads a fresh positive price at or below \<open>t\<close> from a
  cooperative node, that tick broadcasts a settlement of this order with exactly the trigger \<open>t\<close>, to
  the vault, and the order is marked executed. Placing it broadcasts nothing.\<close>

lemma order_settled:
  assumes "reach (started_node X c) (node_step X e) (n, x)" and "nd_watcher n = Some w" and "idle w"
    and "ecies_inverse (tee_crypto X) c" and "place_request X c body j (fixed_plaintext t)"
    and "0 < t" and "t < 2 ^ 256" and "0 < j" and "j < 2 ^ 64"
    and "order_phase (ext_store (nd_ext n)) (word_of_int j) = Absent"
    and "node_action X now body n = (answer, n1)" and "nd_watcher n1 = Some w1"
    and "cooperative e B" and "fresh_sample e (w1, x1) = Some price" and "0 < price" and "price \<le> int t"
    and "max B (unat (nonce_floor w)) + length (orders (wstore w)) < 2 ^ 64 - 2"
    and "node_tick e n1 x1 = (n2, x2)"
  shows "fst answer = HttpOK \<and> EffectiveTrigger (word_of_int j) (ext_store (nd_ext n1)) = Some (int t)
    \<and> broadcasts w1 = broadcasts w
    \<and> order_phase (ext_store (nd_ext n2)) (word_of_int j) = Done
    \<and> (\<exists>w2 new b. nd_watcher n2 = Some w2 \<and> broadcasts w2 = broadcasts w @ new \<and> b \<in> set new
        \<and> b_order b = word_of_int j \<and> b_trigger b = int t \<and> tx_to (b_tx b) = vault w)"
proof -
  let ?i = "word_of_int j :: uint64" and ?s = "placed (word_of_int j) (int t) (ext_store (nd_ext n))"
  have inv: "ext_crypto (nd_ext n) = c" "store_inv (ext_store (nd_ext n))" "wstore w = ext_store (nd_ext n)"
      "reach fresh_watcher (watch_step e) (w, x)"
    using node_machine.inv_reach [OF assms(1)] assms(2) by (auto simp: node_inv_def)
  have pol: "ParseOrderPlaintext (fixed_plaintext t) = Inr \<lparr>PolicyTrigger = Some (int t), PolicyTrailBps = 0\<rparr>"
    using policy_texts [of t 25] assms(6,7) by simp
  obtain r where "actionHandler X now body (nd_ext n) = ((HttpOK, r), (nd_ext n)\<lparr>ext_store := ?s\<rparr>)"
    using place_action [of X "nd_ext n" body j "fixed_plaintext t" "int t" now] assms(4,5,8-10) pol inv(1) by auto
  then have n1: "n1 = with_book ?s n" "fst answer = HttpOK" and w1: "w1 = w\<lparr>wstore := ?s\<rparr>"
    using assms(2,11,12) by (auto simp: node_action_def with_book_def)
  have inv1: "node_inv e c (n1, x)"
    using action_inv [of e c n x X now body] node_machine.inv_reach [OF assms(1)] assms(11) by simp
  have s: "store_inv ?s" and reach0: "reach fresh_watcher (watch_step e) (w1, x)"
    using inv1 assms(12) w1 unfolding node_inv_def n1(1) with_book_def by simp_all
  have reach1: "reach fresh_watcher (watch_step e) (w1, x1)" by (rule reach_step [OF reach0]) (rule watch_world)
  have room: "max B (unat (nonce_floor w1)) + length (orders (wstore w1)) < 2 ^ 64 - 1"
    using assms(17) placed_length [of ?i "int t" "ext_store (nd_ext n)"] nonce_floor_cong [of w1 w]
    by (simp add: w1 inv(3))
  have idle1: "idle w1" "store_inv (wstore w1)" using assms(3) s by (simp_all add: w1 idle_def)
  note hyps = assms(13) idle1 assms(14,15) room
  have trig: "EffectiveTrigger ?i (snd (TriggeredOrders (Some price) (wstore w1))) = Some (int t)"
    by (simp add: w1 placed_sampled)
  obtain new b where b: "broadcasts (fst (snd (tick e (w1, x1)))) = broadcasts w1 @ new" "b \<in> set new"
      "b_order b = ?i" "b_trigger b = int t"
    using tick_sends_triggered [OF hyps trig assms(16)] by blast
  have "tx_to (b_tx b) = vault w1"
    using tick_vault [OF reach1 b(1,2)] .
  moreover have "order_phase (wstore (fst (snd (tick e (w1, x1))))) ?i = Done"
    using tick_done [OF hyps trig assms(16)] .
  moreover obtain w2 y where t: "snd (tick e (w1, x1)) = (w2, y)" by fastforce
  moreover have "ext_store (nd_ext n2) = wstore w2" "nd_watcher n2 = Some w2"
    using assms(12,18) t by (auto simp: node_tick_def with_book_def split: prod.splits)
  ultimately show ?thesis
    using b n1 w1 placed_facts(1) by (auto simp: with_book_def)
qed

text \<open>A process for the witness.\<close>

definition tiny_settings :: settings where
  "tiny_settings = default_settings\<lparr>ChainURL := ''u'', VaultAddress := ''v'', ExecutorPrivateKey := ''k''\<rparr>"

definition tiny_launch :: "Store \<Rightarrow> launch_result" where
  "tiny_launch = LaunchWatcherFromConfig (\<lambda>_. True) (\<lambda>_. True) (\<lambda>_. 5) (\<lambda>_. None) (\<lambda>_. Inr 7) tiny_settings"

definition tiny_watcher :: Watcher where
  "tiny_watcher = \<lparr>wstore = NewStore, vault = 5, from_addr = 7, ftso = 0, chainID = None, pending = [],
     nonceOwners = [], nextNonce = 0, nonceReady = False, broadcasts = [], minedNonces = []\<rparr>"

definition tiny_node :: "unit node" where
  "tiny_node = \<lparr>nd_ext = tiny_extension, nd_watcher = Some tiny_watcher\<rparr>"

definition tiny_body :: bytes where
  "tiny_body = byte 7 # rev (fixed_plaintext 20000)"

lemma tiny_docker: "docker_main tiny_env tiny_launch tiny_settings [] None = Inr tiny_node"
  by (simp add: docker_main_def StartExtension_def New_def NewCrypto_def tiny_env_def tiny_crypto_def tiny_settings_def default_settings_def
      launch_node_def tiny_launch_def LaunchWatcherFromConfig_def NewWatcher_def NewStore_def tiny_node_def tiny_watcher_def tiny_extension_def)

lemma tiny_launches: "watcher_launch tiny_launch"
  unfolding watcher_launch_def tiny_launch_def by blast

lemma tiny_started: "started_node tiny_env \<lparr>key = ()\<rparr> (tiny_node, x)"
  using tiny_docker tiny_launches by (auto simp: started_node_def tiny_node_def tiny_extension_def)

lemma tiny_placed:
  assumes "ecies_inverse (tee_crypto X) \<lparr>key = ()\<rparr>" and "place_request X \<lparr>key = ()\<rparr> body j (fixed_plaintext 20000)" and "0 < j" and "j < 2 ^ 64"
  shows "\<exists>r. node_action X 0 body tiny_node = ((HttpOK, r), with_book (placed (word_of_int j) 20000 NewStore) tiny_node)"
proof -
  have "ParseOrderPlaintext (fixed_plaintext 20000) = Inr \<lparr>PolicyTrigger = Some 20000, PolicyTrailBps = 0\<rparr>"
    using policy_texts [of 20000 25] by simp
  then obtain r where "actionHandler X 0 body tiny_extension
      = ((HttpOK, r), tiny_extension\<lparr>ext_store := placed (word_of_int j) 20000 (ext_store tiny_extension)\<rparr>)"
    using place_action [of X tiny_extension body j "fixed_plaintext 20000" 20000 0] assms tiny_absent by (auto simp: tiny_extension_def)
  then show ?thesis
    by (simp add: node_action_def tiny_node_def tiny_extension_def with_book_def)
qed

lemma tiny_sample: "fresh_sample (demo_chain (\<lambda>x. Inr 1) (Inr True)) (tiny_watcher\<lparr>wstore := s\<rparr>, ()) = Some 19000"
  by (simp add: fresh_sample_def currentPrice_def ftsoAddress_def demo_chain_def tiny_watcher_def normalizePrice_def
      payoutDecimals_def feed_age_def time_Unix_def unix_time_def settleMaxAgeSec_def second_ns_def Let_def)

section \<open>The process and the watcher\<close>

text \<open>C5. The running process is the watcher's model with request handlers: in every state that requests
  and ticks reach, in any order and with any bytes, the enclave keeps the key it started with, its
  book is well formed, the watcher's book is that same book, and the watcher is in a state its own
  model reaches, so that every property of the watcher's reachable states holds of the process.\<close>

theorem node_refines_watcher:
  assumes "reach (started_node X c) (node_step X e) (n, x)"
  shows "ext_crypto (nd_ext n) = c \<and> store_inv (ext_store (nd_ext n))
    \<and> (nd_watcher n = None \<or> (\<exists>w. nd_watcher n = Some w \<and> wstore w = ext_store (nd_ext n)
        \<and> reach fresh_watcher (watch_step e) (w, x)))"
  using node_machine.inv_reach [OF assms] by (cases "nd_watcher n") (auto simp: node_inv_def)

theorem node_refines_watcher_witness:
  "\<exists>w. nd_watcher (snd (node_action tiny_env 0 tiny_body tiny_node)) = Some w
    \<and> wstore w = ext_store (nd_ext (snd (node_action tiny_env 0 tiny_body tiny_node)))
    \<and> reach fresh_watcher (watch_step (demo_chain (\<lambda>x. Inr 1) (Inr True) :: unit chain_env)) (w, ())"
proof -
  let ?e = "demo_chain (\<lambda>x. Inr 1) (Inr True) :: unit chain_env"
  have "reach (started_node tiny_env \<lparr>key = ()\<rparr>) (node_step tiny_env ?e) (tiny_node, ())"
    by (rule reach_init) (rule tiny_started)
  then have "reach (started_node tiny_env \<lparr>key = ()\<rparr>) (node_step tiny_env ?e)
      (snd (node_action tiny_env 0 tiny_body tiny_node), ())"
    by (rule reach_step) (rule node_request)
  from node_refines_watcher [OF this] show ?thesis
    by (simp add: node_action_def with_book_def tiny_node_def split: prod.splits)
qed

end
