(* ===== verification/Vault_Props.thy ===== *)
theory Vault_Props
  imports Vault_Safety Abi_Codec Node_Props
begin

text \<open>
  What single functions of the vault do, and how the vault and the enclave fit together: the two
  compute the same price, a settlement that the watcher broadcasts is accepted, when exactly an owner
  gets a deposit back, and an instruction of the vault is what the enclave decodes.
\<close>

section \<open>The price\<close>

definition representable :: "uint256 \<Rightarrow> int8 \<Rightarrow> bool" where
  "representable n d \<longleftrightarrow> (let shift = PAYOUT_DECIMALS - sint d in
     if shift \<ge> 0 then 10 ^ nat shift < (2 :: int) ^ 256 \<and> uint n * 10 ^ nat shift < 2 ^ 256
     else 10 ^ nat (- shift) < (2 :: int) ^ 256)"

lemma word_div_checked:
  assumes "10 ^ m < (2 :: int) ^ 256"
  shows "n div word_of_int (10 ^ m) = (word_of_int (uint n div 10 ^ m) :: uint256)"
proof -
  have "uint (word_of_int (10 ^ m) :: uint256) = 10 ^ m" using assms by (intro uint_checked) simp_all
  then show ?thesis by (simp only: word_div_def)
qed

text \<open>The contract's rescaling of a feed value to six decimals gives exactly the watcher's
  \<open>normalizePrice\<close> of it, and panics exactly when a power of ten or the product does not fit.\<close>

lemma price_agrees:
  "toPayoutDecimals n d k = (if representable n d then k (word_of_int (normalizePrice (uint n) d)) else Inl Panic)"
proof (cases "0 \<le> PAYOUT_DECIMALS - sint d")
  case True
  have "uint (word_of_int (10 ^ m) :: uint256) = 10 ^ m" if "10 ^ m < (2 :: int) ^ 256" for m
    using that by (intro uint_checked) simp_all
  then show ?thesis
    using True unfolding toPayoutDecimals_def representable_def normalizePrice_def payoutDecimals_def PAYOUT_DECIMALS_def Let_def
    by (auto simp del: of_int_power word_of_int_power_hom simp: checked_def)
next
  case False
  then show ?thesis
    using word_div_checked [of "nat (- (PAYOUT_DECIMALS - sint d))" n]
    unfolding toPayoutDecimals_def representable_def normalizePrice_def payoutDecimals_def PAYOUT_DECIMALS_def Let_def
    by (auto simp del: of_int_power simp: checked_def)
qed


section \<open>Settling\<close>

text \<open>What a settlement requires before the token contract runs.\<close>

definition vault_price :: "uint256 \<Rightarrow> int8 \<Rightarrow> uint256" where
  "vault_price n d = word_of_int (normalizePrice (uint n) d)"

definition settle_allowed :: "'w vault_env \<Rightarrow> uint256 \<Rightarrow> uint256 \<Rightarrow> uint256 \<Rightarrow> uint256 \<times> int8 \<times> uint64 \<Rightarrow> 'w vst \<Rightarrow> bool" where
  "settle_allowed E i trigger maxAge feed st = (case (feed, st) of ((n, d, ts), (v, x)) \<Rightarrow>
     maxAge \<le> 300 \<and> order_status (vault_orders v i) = STATUS_OPEN
     \<and> getFeedById E (FTSO_V2 v) FLR_USD x = Some feed
     \<and> uint ts \<le> uint (block_timestamp E x) \<and> uint (block_timestamp E x) - uint ts \<le> uint maxAge
     \<and> representable n d \<and> vault_price n d \<le> trigger
     \<and> uint (order_deposit (vault_orders v i)) * uint (vault_price n d) < 2 ^ 256)"

lemma checked_age:
  "checked (uint now - uint ts) (\<lambda>age. sol_require (age \<le> maxAge) m k) = Inr r \<longleftrightarrow>
    uint ts \<le> uint now \<and> uint now - uint ts \<le> uint maxAge \<and> k = Inr r" for now :: uint256 and ts :: uint64
proof -
  have "uint now - uint ts < 2 ^ 256"
    by (rule le_less_trans [of _ "uint now"]) (simp, rule uint256_less)
  moreover from this have "word_of_int (uint now - uint ts) \<le> maxAge \<longleftrightarrow> uint now - uint ts \<le> uint maxAge" if "uint ts \<le> uint now"
    using that uint_checked [of "uint now - uint ts"] by (simp only: word_le_def)
  ultimately show ?thesis unfolding checked_Inr sol_require_Inr by auto
qed

lemma settle_unfold:
  assumes "getFeedById E (FTSO_V2 v) FLR_USD x = Some (n, d, ts)"
  shows "settle_vault E out sender i trigger maxAge (v, x) = Inr st' \<longleftrightarrow> sender = teeExecutor v
    \<and> settle_allowed E i trigger maxAge (n, d, ts) (v, x)
    \<and> call_out out (TokenTransfer (order_owner (vault_orders v i)) (payout_amount (order_deposit (vault_orders v i)) (vault_price n d)))
        (executed_vault i (vault_price n d) v, x) = Inr (True, st')"
proof -
  have "settle_vault E out sender i trigger maxAge (v, x) = Inr st' \<longleftrightarrow> sender = teeExecutor v \<and> maxAge \<le> 300
      \<and> order_status (vault_orders v i) = STATUS_OPEN \<and> uint ts \<le> uint (block_timestamp E x)
      \<and> uint (block_timestamp E x) - uint ts \<le> uint maxAge \<and> representable n d
      \<and> (sol_require (vault_price n d \<le> trigger) ''price above trigger''
          (checked (uint (order_deposit (vault_orders v i)) * uint (vault_price n d)) (\<lambda>amount.
          case call_out out (TokenTransfer (order_owner (vault_orders v i)) (amount div 10 ^ 18)) (executed_vault i (vault_price n d) v, x) of
            Inl er \<Rightarrow> Inl er | Inr (ok, st') \<Rightarrow> sol_require ok ''payout transfer failed'' (Inr st')))) = Inr st'"
    by (simp add: settle_vault_def assms checked_age price_agrees MAX_PRICE_AGE_SEC_def executed_vault_def vault_price_def
        del: checked_Inr)
  then show ?thesis
    by (auto simp: settle_allowed_def assms payout_amount_def split: sum.splits)
qed

text \<open>C12. The contract does not trust the enclave: whatever order, trigger and age limit are submitted,
  \<open>settle\<close> succeeds iff the sender is the executor, the age limit is at most 300 seconds, the order is
  open, the feed's value is no older than that limit and, rescaled exactly as the watcher rescales it,
  not above the submitted trigger, nothing overflows, and the token accepts the transfer of deposit
  times price to the order's owner. The order is marked executed before the token contract runs.\<close>

theorem vault_settle_exact:
  "settle_vault E out sender i trigger maxAge (v, x) = Inr st' \<longleftrightarrow> sender = teeExecutor v
     \<and> (\<exists>n d ts. settle_allowed E i trigger maxAge (n, d, ts) (v, x)
         \<and> call_out out (TokenTransfer (order_owner (vault_orders v i)) (payout_amount (order_deposit (vault_orders v i)) (vault_price n d)))
             (executed_vault i (vault_price n d) v, x) = Inr (True, st'))"
proof (cases "getFeedById E (FTSO_V2 v) FLR_USD x")
  case (Some feed)
  then show ?thesis
    by (cases feed) (auto simp: settle_unfold settle_allowed_def)
qed (simp add: settle_vault_def settle_allowed_def)

section \<open>The watcher and the vault\<close>

text \<open>A contract that accepts a call without calling back.\<close>

definition accepts :: "'w vault_env \<Rightarrow> outcall \<Rightarrow> 'w vst \<Rightarrow> bool" where
  "accepts E c st \<longleftrightarrow> (\<exists>upd. reaction E c st = Some ([], True, upd))"

lemma open_deposits_nonneg: "0 \<le> open_deposits v"
  unfolding open_deposits_def by (rule sum_nonneg) (simp add: open_part_def)

lemma vault_inv_deployed: "reach deployed_vault (vault_step E) (v, x) \<Longrightarrow> vault_inv v \<and> 0 \<le> free_balance v \<and> 0 \<le> native_balance v"
  using vault_machine.inv_reach [of E "(v, x)"] open_deposits_nonneg [of v] by (simp add: vault_ok_def free_balance_def)

lemma deposit_covered:
  assumes "0 \<le> free_balance v" and "order_status (vault_orders v i) = STATUS_OPEN"
  shows "uint (order_deposit (vault_orders v i)) \<le> native_balance v"
proof -
  have "open_part (vault_orders v i) \<le> open_deposits v"
    unfolding open_deposits_def by (rule member_le_sum) (simp_all add: open_part_def)
  then show ?thesis using assms by (simp add: free_balance_def open_part_def)
qed

text \<open>The vault's side of a settlement whose trigger is at least \<open>sample\<close>: the feed it reads has not
  risen above the sample and is at most 300 seconds old, the arithmetic fits, the token accepts.\<close>

definition ready_to_settle :: "'w vault_env \<Rightarrow> uint256 \<Rightarrow> int \<Rightarrow> uint256 \<Rightarrow> 'w vst \<Rightarrow> bool" where
  "ready_to_settle E i sample price st \<longleftrightarrow> (case st of (v, x) \<Rightarrow> order_status (vault_orders v i) = STATUS_OPEN
     \<and> (\<exists>n d ts. getFeedById E (FTSO_V2 v) FLR_USD x = Some (n, d, ts) \<and> price = vault_price n d \<and> representable n d
         \<and> normalizePrice (uint n) d \<le> sample \<and> uint ts \<le> uint (block_timestamp E x) \<and> uint (block_timestamp E x) \<le> uint ts + 300)
     \<and> uint (order_deposit (vault_orders v i)) * uint price < 2 ^ 256
     \<and> (\<forall>v'. accepts E (TokenTransfer (order_owner (vault_orders v i)) (payout_amount (order_deposit (vault_orders v i)) price)) (v', x)))"

lemma settlement_accepted:
  assumes "reach deployed_vault (vault_step E) (v, x)" and "ready_to_settle E i sample price (v, x)" and "sample \<le> t" and "t < 2 ^ 256"
    and "vault_tx E (Msg (teeExecutor v) 0 (CallSettle i (word_of_int t) 300)) (v, x) = (v', x')"
  shows "order_status (vault_orders v' i) = STATUS_EXECUTED
    \<and> logged payout_of v' = logged payout_of v @ [(order_owner (vault_orders v i), payout_amount (order_deposit (vault_orders v i)) price)]"
proof -
  let ?c = "TokenTransfer (order_owner (vault_orders v i)) (payout_amount (order_deposit (vault_orders v i)) price)"
  let ?v = "executed_vault i price v"
  obtain n d ts where opn: "order_status (vault_orders v i) = STATUS_OPEN"
    and feed: "getFeedById E (FTSO_V2 v) FLR_USD x = Some (n, d, ts)" and p: "price = vault_price n d" "representable n d"
    and le: "normalizePrice (uint n) d \<le> sample" and age: "uint ts \<le> uint (block_timestamp E x)" "uint (block_timestamp E x) \<le> uint ts + 300"
    and fits: "uint (order_deposit (vault_orders v i)) * uint price < 2 ^ 256" and acc: "accepts E ?c (called ?c ?v, x)"
    using assms(2) unfolding ready_to_settle_def by auto
  have pos: "0 \<le> normalizePrice (uint n) d"
    by (auto simp: normalizePrice_def Let_def intro: pos_imp_zdiv_nonneg_iff [THEN iffD2])
  have "uint price = normalizePrice (uint n) d" "uint (word_of_int t :: uint256) = t"
    unfolding p(1) vault_price_def using pos le assms(3,4) by (auto intro!: uint_checked)
  then have "settle_allowed E i (word_of_int t) 300 (n, d, ts) (v, x)"
    using opn feed p age fits le assms(3) unfolding settle_allowed_def by (simp add: word_le_def)
  moreover have "0 \<le> native_balance v"
    using vault_inv_deployed [OF assms(1)] by blast
  moreover obtain upd where "reaction E ?c (called ?c ?v, x) = Some ([], True, upd)" using acc unfolding accepts_def by blast
  ultimately have "settle_vault E (outside_at E call_depth) (teeExecutor v) i (word_of_int t) 300 (v, x) = Inr (called ?c ?v, upd x)"
    using call_runs [of E ?c ?v x True upd] by (simp add: settle_unfold [OF feed] p(1)) (simp add: run_vault_defs)
  then have "v' = called ?c ?v" using settle_runs assms(5) by fastforce
  then show ?thesis
    by (simp add: logged_def map_filter_def run_vault_defs)
qed

section \<open>Instructions\<close>

text \<open>C14. An order placed in the vault is the order the enclave decodes: a call with a ciphertext and more
  than the fee creates the next id, open, with sender and value minus fee, forwards exactly the fee,
  and the message of its one instruction decodes in the enclave to that id and that ciphertext.\<close>

theorem placed_order_decodes:
  fixes v :: Vault
  assumes "abi_agrees L" and "\<And>p v'. accepts E (SendInstructions (INSTRUCTION_FEE v) ids p) (v', x)" and "0 \<le> native_balance v" and "extensionId v \<noteq> 0"
    and "getRandomTeeIds E (TEE_MACHINE_REGISTRY v) (extensionId v) 1 x = Some ids"
    and "uint (nextOrderId v) + 1 < 2 ^ 256" and "INSTRUCTION_FEE v < n" and "ct \<noteq> []" and "length ct < 2 ^ 256"
    and "vault_tx E (Msg sender n (CallPlaceOrder ct)) (v, x) = (v', x')"
  shows "\<exists>p. nextOrderId v' = nextOrderId v + 1
    \<and> vault_orders v' = (vault_orders v)(nextOrderId v + 1 := \<lparr>order_owner = sender, order_deposit = n - INSTRUCTION_FEE v, order_status = STATUS_OPEN\<rparr>)
    \<and> trace v' = trace v @ [OrderPlaced (nextOrderId v + 1) sender, Called (SendInstructions (INSTRUCTION_FEE v) ids p)]
    \<and> native_balance v' = native_balance v + uint n - uint (INSTRUCTION_FEE v)
    \<and> opType p = OP_TYPE_DARKSTOP \<and> opCommand p = OP_COMMAND_PLACE
    \<and> DecodePlaceOrder L (ins_message p) = Inr \<lparr>PlaceOrderID = uint (nextOrderId v) + 1, Ciphertext = ct\<rparr>"
proof -
  let ?i = "nextOrderId v + 1" and ?v = "placed_vault sender n v"
  let ?p = "instruction OP_COMMAND_PLACE (abi_encode_id_bytes ?i ct) sender"
  let ?c = "SendInstructions (INSTRUCTION_FEE v) ids ?p"
  have "uint ?i = uint (nextOrderId v) + 1"
    using uint_checked [of "uint (nextOrderId v) + 1"] assms(6) by simp
  moreover obtain upd where "reaction E ?c (called ?c ?v, x) = Some ([], True, upd)"
    using assms(2) unfolding accepts_def by blast
  from place_runs [OF assms(6-8,4,3,5) refl this] have "v' = called ?c ?v" using assms(10) by simp
  moreover have "DecodePlaceOrder L (ins_message ?p) = Inr \<lparr>PlaceOrderID = uint ?i, Ciphertext = ct\<rparr>"
    using decode_instruction(1) [OF assms(1,9)] by (simp add: instruction_def)
  moreover have "opType ?p = OP_TYPE_DARKSTOP" "opCommand ?p = OP_COMMAND_PLACE" by (simp_all add: instruction_def)
  ultimately show ?thesis
    by (intro exI [of _ ?p]) (simp add: run_vault_defs Let_def)
qed

lemma dev_start_reach: "reach deployed_vault (vault_step (dev_env 5)) (dev_vault, dev_world)"
  using dev_reach(1) by (simp add: dev_start_def dev_stack_eq)

lemma dev_accepts: "sendCount y \<noteq> - 1 \<Longrightarrow> accepts (dev_env 5) (SendInstructions n [0x7EE] p) (v', y)"
  using dev_instruction [of y 5] by (simp add: accepts_def dev_env_simps del: dev_reaction.simps)

theorem placed_order_decodes_witness:
  "\<exists>p. trace (fst (vault_tx (dev_env 5) (Msg 9 (DEV_INSTRUCTION_FEE + 5) (CallPlaceOrder ''c1'')) (dev_vault, dev_world)))
      = [OrderPlaced 1 9, Called (SendInstructions DEV_INSTRUCTION_FEE [0x7EE] p)]
    \<and> DecodePlaceOrder sol_abi (ins_message p) = Inr \<lparr>PlaceOrderID = 1, Ciphertext = ''c1''\<rparr>"
proof -
  obtain v' x' where tx: "vault_tx (dev_env 5) (Msg 9 (DEV_INSTRUCTION_FEE + 5) (CallPlaceOrder ''c1'')) (dev_vault, dev_world) = (v', x')"
    by (metis surj_pair)
  have config: "0 \<le> native_balance dev_vault" "extensionId dev_vault \<noteq> 0" "uint (nextOrderId dev_vault) + 1 < 2 ^ 256"
      "INSTRUCTION_FEE dev_vault < DEV_INSTRUCTION_FEE + 5" "''c1'' \<noteq> []" "length ''c1'' < 2 ^ 256"
    by (simp_all add: dev_vault_def DEV_INSTRUCTION_FEE_def)
  have acc: "accepts (dev_env 5) (SendInstructions (INSTRUCTION_FEE dev_vault) [0x7EE] p) (v', dev_world)" for p v'
    by (rule dev_accepts) (simp add: dev_world_def)
  show ?thesis
    using placed_order_decodes [OF sol_abi_agrees acc config(1,2) dev_env_simps(4) config(3-6) tx] tx
    by (auto simp: dev_vault_def)
qed

section \<open>Taking a deposit back\<close>

abbreviation cancel_order :: "'w vault_env \<Rightarrow> address \<Rightarrow> uint256 \<Rightarrow> uint256 \<Rightarrow> 'w vst \<Rightarrow> vault_error + 'w vst" where
  "cancel_order E sender n i \<equiv> run_call E (outside_at E call_depth) sender n (CallCancel i)"

abbreviation cancel_instruction :: "address \<Rightarrow> uint256 \<Rightarrow> uint256 \<Rightarrow> address list \<Rightarrow> outcall" where
  "cancel_instruction sender n i ids \<equiv> SendInstructions n ids (instruction OP_COMMAND_CANCEL (abi_encode_id i) sender)"

lemma sendInstruction_Inr:
  "sendInstruction E out sender command payload fee (v, x) = Inr st' \<longleftrightarrow> extensionId v \<noteq> 0
    \<and> (\<exists>ids r. getRandomTeeIds E (TEE_MACHINE_REGISTRY v) (extensionId v) 1 x = Some ids
         \<and> call_out out (SendInstructions fee ids (instruction command payload sender)) (v, x) = Inr (r, st'))"
  by (auto simp: sendInstruction_def getExtensionId_def instruction_def split: option.splits sum.splits)

lemma cancelled_vault_fields:
  "extensionId (cancelled_vault i n v) = extensionId v" "TEE_MACHINE_REGISTRY (cancelled_vault i n v) = TEE_MACHINE_REGISTRY v"
  "native_balance (cancelled_vault i n v) = native_balance v + uint n"
  "vault_orders (cancelled_vault i n v) i = (vault_orders v i)\<lparr>order_status := STATUS_CANCELLED\<rparr>"
  "trace (cancelled_vault i n v) = trace v @ [OrderCancelled i]"
  by (simp_all add: cancelled_vault_def credit_def emit_def with_status_def)

lemma cancel_order_Inr:
  "cancel_order E sender n i (v, x) = Inr st' \<longleftrightarrow>
     order_owner (vault_orders v i) = sender \<and> order_status (vault_orders v i) = STATUS_OPEN
     \<and> (\<exists>st1. sendInstruction E (outside_at E call_depth) sender OP_COMMAND_CANCEL (abi_encode_id i) n
              (cancelled_vault i n v, x) = Inr st1
          \<and> call_out (outside_at E call_depth) (NativeTransfer sender (order_deposit (vault_orders v i))) st1 = Inr (True, st'))"
proof -
  have credit: "vault_orders (credit n v) = vault_orders v" by (simp add: credit_def)
  show ?thesis
    by (auto simp: run_call_def cancel_vault_def credit Let_def cancelled_vault_def [symmetric] split: sum.splits)
qed

lemma call_out_covered:
  "uint (outcall_value c) \<le> native_balance v \<Longrightarrow> call_out out c (v, x) = out c (called c v, x)"
  by (simp add: call_out_def called_def)

text \<open>In the middle of a cancellation, after whatever the registry has done, the vault still has the
  deposit.\<close>

lemma cancel_still_covered:
  assumes "vault_inv v" and "0 \<le> free_balance v" and "order_status (vault_orders v i) = STATUS_OPEN"
    and "call_out (outside_at E call_depth) (cancel_instruction sender n i ids) (cancelled_vault i n v, x) = Inr (r, (v2, x2))"
  shows "uint (order_deposit (vault_orders v i)) \<le> native_balance v2 \<and> evolves (cancelled_vault i n v) v2"
proof -
  have paid: "vault_inv (credit n v)" using assms(1) by (simp add: credit_facts)
  have opn: "order_status (vault_orders (credit n v) i) = STATUS_OPEN" using assms(3) by (simp add: credit_def)
  note c = cancel_inv [OF paid opn refl]
  have c2: "vault_inv (cancelled_vault i n v)"
      "free_balance (cancelled_vault i n v) = free_balance v + uint n + uint (order_deposit (vault_orders v i))"
    using c by (simp_all add: cancelled_vault_def credit_facts) (simp add: credit_def)
  from call_out_tame [OF outside_tame c2(1) assms(4)] c2(2)
  have "free_balance v + uint (order_deposit (vault_orders v i)) \<le> free_balance v2" "evolves (cancelled_vault i n v) v2"
    by simp_all
  then show ?thesis using assms(2) open_deposits_nonneg [of v2] by (simp add: free_balance_def)
qed

lemma cancel_effect:
  assumes "vault_inv v" and "0 \<le> free_balance v" and "cancel_order E sender n i (v, x) = Inr st'"
  shows "vault_orders (fst st') i = (vault_orders v i)\<lparr>order_status := STATUS_CANCELLED\<rparr>
      \<and> (\<exists>ids t1 t2. trace (fst st') = trace v @ [OrderCancelled i, Called (cancel_instruction sender n i ids)] @ t1
             @ [Called (NativeTransfer (order_owner (vault_orders v i)) (order_deposit (vault_orders v i)))] @ t2)"
proof -
  let ?v = "cancelled_vault i n v" and ?c' = "NativeTransfer sender (order_deposit (vault_orders v i))" and ?out = "outside_at E call_depth"
  obtain ids r v2 x2 v' x' where own: "order_owner (vault_orders v i) = sender" and opn: "order_status (vault_orders v i) = STATUS_OPEN"
    and c: "call_out ?out (cancel_instruction sender n i ids) (?v, x) = Inr (r, (v2, x2))"
    and c': "call_out ?out ?c' (v2, x2) = Inr (True, (v', x'))" and st: "st' = (v', x')"
    using assms(3) unfolding cancel_order_Inr sendInstruction_Inr by (metis surj_pair)
  have inv1: "vault_inv ?v"
    using cancel_inv [of "credit n v" i] assms(1) opn by (simp add: cancelled_vault_def credit_facts) (simp add: credit_def)
  have grow: "vault_inv w' \<and> evolves (called c w) w'"
    if "vault_inv w" "call_out ?out c (w, y) = Inr (q, (w', y'))" "payout_of (Called c) = None" for c w y q w' y'
  proof -
    have "?out c (called c w, y) = Inr (q, (w', y'))" using that(2) by (simp add: call_out_def called_def split: if_splits)
    moreover have "vault_inv (called c w)"
      using vault_inv_silent [OF that(1), of "called c w" "Called c"] that(3) by simp
    ultimately show ?thesis using outside_tame [of E call_depth] unfolding tame_def progress_def by blast
  qed
  have 2: "vault_inv v2" "evolves (called (cancel_instruction sender n i ids) ?v) v2" using grow [OF inv1 c] by simp_all
  have 3: "evolves (called ?c' v2) v'" using grow [OF 2(1) c'] by simp
  have "order_le (vault_orders ?v i) (vault_orders v2 i)" "order_le (vault_orders v2 i) (vault_orders v' i)"
    using 2(2) 3 by (simp_all add: evolves_def)
  then have "vault_orders v' i = vault_orders ?v i"
    by (auto simp: order_le_def cancelled_vault_fields status_defs)
  moreover have "\<exists>t. trace v2 = trace ?v @ [Called (cancel_instruction sender n i ids)] @ t"
    and "\<exists>t. trace v' = trace v2 @ [Called ?c'] @ t"
    using 2(2) 3 by (simp_all add: evolves_def)
  ultimately show ?thesis using own by (force simp: st cancelled_vault_fields)
qed

text \<open>C13. When exactly an owner gets a deposit back: in every reachable state of the vault, a
  cancellation succeeds iff the sender owns the order, the order is open, the extension is set, the
  machine registry names a TEE, the extension registry takes the instruction with the value
  attached, and the sender takes the refund. It never fails for lack of funds, whatever these
  contracts call back in between. When it succeeds the order is cancelled, with its owner and
  deposit, and the trace shows the instruction and then the refund of the full deposit to the
  owner; when it fails nothing changes. So the way out depends on both TEE registries.\<close>

theorem owner_takes_deposit_back:
  assumes "reach deployed_vault (vault_step E) (v, x)"
  shows "(cancel_order E sender n i (v, x) = Inr st' \<longleftrightarrow>
      sender = order_owner (vault_orders v i) \<and> order_status (vault_orders v i) = STATUS_OPEN \<and> extensionId v \<noteq> 0
      \<and> (\<exists>ids r v2 x2. getRandomTeeIds E (TEE_MACHINE_REGISTRY v) (extensionId v) 1 x = Some ids
          \<and> outside_at E call_depth (cancel_instruction sender n i ids)
              (called (cancel_instruction sender n i ids) (cancelled_vault i n v), x) = Inr (r, (v2, x2))
          \<and> outside_at E call_depth (NativeTransfer sender (order_deposit (vault_orders v i)))
              (called (NativeTransfer sender (order_deposit (vault_orders v i))) v2, x2) = Inr (True, st')))
    \<and> (cancel_order E sender n i (v, x) = Inr st' \<longrightarrow>
        vault_tx E (Msg sender n (CallCancel i)) (v, x) = st'
        \<and> vault_orders (fst st') i = (vault_orders v i)\<lparr>order_status := STATUS_CANCELLED\<rparr>
        \<and> (\<exists>ids t1 t2. trace (fst st') = trace v @ [OrderCancelled i, Called (cancel_instruction sender n i ids)] @ t1
             @ [Called (NativeTransfer (order_owner (vault_orders v i)) (order_deposit (vault_orders v i)))] @ t2))
    \<and> (abi_agrees L \<longrightarrow> DecodeCancelOrder L (abi_encode_id i) = Inr \<lparr>CancelOrderID = uint i\<rparr>)
    \<and> ((\<nexists>st''. cancel_order E sender n i (v, x) = Inr st'') \<longrightarrow> vault_tx E (Msg sender n (CallCancel i)) (v, x) = (v, x))"
proof -
  let ?dep = "order_deposit (vault_orders v i)" and ?v = "cancelled_vault i n v" and ?out = "outside_at E call_depth"
  have inv: "vault_inv v" "0 \<le> free_balance v" "0 \<le> native_balance v"
    using vault_inv_deployed [OF assms] by simp_all
  have covered: "uint (outcall_value (cancel_instruction sender n i ids)) \<le> native_balance ?v" for ids using inv(3) by (simp add: cancelled_vault_fields)
  have refund: "call_out ?out (NativeTransfer sender ?dep) (v2, x2) = ?out (NativeTransfer sender ?dep) (called (NativeTransfer sender ?dep) v2, x2)"
    if "order_status (vault_orders v i) = STATUS_OPEN"
      and "call_out ?out (cancel_instruction sender n i ids) (?v, x) = Inr (r, (v2, x2))" for ids r v2 x2
    using cancel_still_covered [OF inv(1,2) that] by (intro call_out_covered) simp
  have exact: "cancel_order E sender n i (v, x) = Inr st' \<longleftrightarrow>
      sender = order_owner (vault_orders v i) \<and> order_status (vault_orders v i) = STATUS_OPEN \<and> extensionId v \<noteq> 0
      \<and> (\<exists>ids r v2 x2. getRandomTeeIds E (TEE_MACHINE_REGISTRY v) (extensionId v) 1 x = Some ids
          \<and> call_out ?out (cancel_instruction sender n i ids) (?v, x) = Inr (r, (v2, x2))
          \<and> ?out (NativeTransfer sender ?dep) (called (NativeTransfer sender ?dep) v2, x2) = Inr (True, st'))"
    unfolding cancel_order_Inr sendInstruction_Inr cancelled_vault_fields using refund by auto
  have effect: "vault_orders (fst st') i = (vault_orders v i)\<lparr>order_status := STATUS_CANCELLED\<rparr>
      \<and> (\<exists>ids t1 t2. trace (fst st') = trace v @ [OrderCancelled i, Called (cancel_instruction sender n i ids)] @ t1
             @ [Called (NativeTransfer (order_owner (vault_orders v i)) ?dep)] @ t2)"
    if ok: "cancel_order E sender n i (v, x) = Inr st'"
    by (rule cancel_effect [OF inv(1,2) ok])
  have "vault_tx E (Msg sender n (CallCancel i)) (v, x) = st'" if "cancel_order E sender n i (v, x) = Inr st'"
    using that by (simp add: vault_tx_def)
  moreover have "vault_tx E (Msg sender n (CallCancel i)) (v, x) = (v, x)" if "\<nexists>st''. cancel_order E sender n i (v, x) = Inr st''"
    using that by (cases "cancel_order E sender n i (v, x)") (auto simp: vault_tx_def)
  ultimately show ?thesis
    using exact effect decode_instruction(2) [of L i] unfolding call_out_covered [OF covered] by blast
qed


theorem owner_takes_deposit_back_witness:
  "vault_orders (fst (vault_tx (dev_env 5) (Msg 8 0 (CallCancel 2)) dev_placed)) 2
      = \<lparr>order_owner = 8, order_deposit = 2 * 10 ^ 18, order_status = STATUS_CANCELLED\<rparr>
    \<and> vault_tx (dev_env 5) (Msg 9 0 (CallCancel 2)) dev_placed = dev_placed"
proof -
  let ?v = dev_placed_vault and ?x = "snd dev_placed"
  have st: "dev_placed = (?v, ?x)" using dev_placed_eq(1) by (metis prod.collapse)
  have r: "reach deployed_vault (vault_step (dev_env 5)) (?v, ?x)" using dev_reach(2) by (simp add: st [symmetric])
  have order: "vault_orders ?v 2 = \<lparr>order_owner = 8, order_deposit = 2 * 10 ^ 18, order_status = STATUS_OPEN\<rparr>" "extensionId ?v \<noteq> 0"
    by (simp_all add: dev_placed_vault_def dev_vault_def STATUS_OPEN_def)
  note exact = owner_takes_deposit_back [OF r]
  let ?c = "cancel_instruction 8 0 2 [0x7EE]"
  have "reaction (dev_env 5) ?c (called ?c (cancelled_vault 2 0 ?v), ?x) = Some ([], True, \<lambda>_. after_instruction 0
      (instruction OP_COMMAND_CANCEL (abi_encode_id 2) 8) ?x)"
    using dev_instruction [of ?x 5] by (simp add: dev_env_simps dev_placed_eq del: dev_reaction.simps)
  note sent = outside_quiet [OF this]
  have "reaction (dev_env 5) (NativeTransfer a m) (w, y) = Some ([], True, \<lambda>y. y)" for a m w y by (simp add: dev_env_simps)
  note paid = outside_quiet [OF this]
  have "\<exists>st'. cancel_order (dev_env 5) 8 0 2 (?v, ?x) = Inr st'"
    using exact [of 8 0 2] order sent paid dev_env_simps(4) by simp blast
  then have "vault_orders (fst (vault_tx (dev_env 5) (Msg 8 0 (CallCancel 2)) (?v, ?x))) 2
      = \<lparr>order_owner = 8, order_deposit = 2 * 10 ^ 18, order_status = STATUS_CANCELLED\<rparr>"
    using exact [of 8 0 2] order by auto
  moreover have "vault_tx (dev_env 5) (Msg 9 0 (CallCancel 2)) (?v, ?x) = (?v, ?x)"
    using exact [of 9 0 2] order by auto
  ultimately show ?thesis by (simp only: st [symmetric])
qed

end
