(* ===== verification/Vault_Node.thy ===== *)
theory Vault_Node
  imports Vault_Props
begin

text \<open>
  The whole system: the vault on the chain and the enclave process, connected by the instruction that
  the registry relays to the enclave and by the transaction that the watcher sends to the vault.
\<close>

section \<open>What connects the two\<close>

text \<open>A \<open>bytes32\<close> as the hash that the TEE node hands to the handlers, and the request that carries an
  instruction.\<close>

definition hash_of_bytes :: "bytes \<Rightarrow> hash" where
  "hash_of_bytes b = of_nat (abi_unword b)"

definition hashes_agree :: "'k tee_env \<Rightarrow> bool" where
  "hashes_agree X \<longleftrightarrow> (\<forall>s. length s \<le> 32 \<longrightarrow> ToHash X s = hash_of_bytes (bytes32 s))"

definition delivers :: "'k tee_env \<Rightarrow> TeeInstructionParams \<Rightarrow> bytes \<Rightarrow> bool" where
  "delivers X p body \<longleftrightarrow> (\<exists>a df. decode_Action X body = Inr a \<and> Parse_DataFixed X (Message a) = Inr df
     \<and> dfOPType df = hash_of_bytes (opType p) \<and> dfOPCommand df = hash_of_bytes (opCommand p) \<and> OriginalMessage df = ins_message p)"

lemma delivered_place:
  assumes "hashes_agree X" and "abi_agrees (tee_abi X)" and "length ct < 2 ^ 256"
    and "delivers X (instruction OP_COMMAND_PLACE (abi_encode_id_bytes i ct) sender) body" and "Encrypt (tee_crypto X) rand c pt = Inr ct"
  shows "place_request X c body (uint i) pt"
proof -
  have "ToHash X OPTypeDarkstop = hash_of_bytes OP_TYPE_DARKSTOP" "ToHash X OPCommandPlaceOrder = hash_of_bytes OP_COMMAND_PLACE"
    using assms(1) by (simp_all add: hashes_agree_def OPTypeDarkstop_def OPCommandPlaceOrder_def OP_TYPE_DARKSTOP_def OP_COMMAND_PLACE_def)
  then show ?thesis
    using assms(4,5) decode_instruction(1) [OF assms(2,3), of i] by (force simp: place_request_def delivers_def instruction_def)
qed

text \<open>Owner and deposit of an order do not change while it is open.\<close>

lemma reach_progress:
  assumes "reach (\<lambda>st. st = (v, x)) (vault_step E) st" and "vault_inv v"
  shows "vault_inv (fst st) \<and> progress v (fst st)"
  using assms(1)
proof (induction rule: reach.induct)
  case (reach_step s t)
  then show ?case using vault_step_progress [of s E t] progress_trans by blast
qed (use assms(2) in simp)

lemma open_order_fixed:
  assumes "progress v v'" and "order_status (vault_orders v i) = STATUS_OPEN" and "order_status (vault_orders v' i) = STATUS_OPEN"
  shows "vault_orders v' i = vault_orders v i"
proof -
  have "order_le (vault_orders v i) (vault_orders v' i)" using assms(1) by (simp add: progress_def evolves_def)
  then show ?thesis using assms(2,3) by (auto simp: order_le_def status_defs)
qed

lemma reach_from: "reach init step s \<Longrightarrow> reach (\<lambda>t. t = s) step s' \<Longrightarrow> reach init step s'"
  by (rotate_tac 1, induction rule: reach.induct) (auto intro: reach_step)

lemma narrow_id:
  assumes "uint (i :: uint256) < 2 ^ 64"
  shows "word_of_int (uint i) = (ucast i :: uint64)" and "ucast (ucast i :: uint64) = i"
proof -
  show "word_of_int (uint i) = (ucast i :: uint64)" by simp
  have "uint (ucast i :: uint64) = uint i"
    using assms by (simp add: unsigned_ucast_eq take_bit_int_eq_self)
  then show "ucast (ucast i :: uint64) = i"
    by (metis word_of_int_uint ucast_eq)
qed

section \<open>From the deposit to the payout\<close>

text \<open>C2. A sealed order pays out. An owner places an order in a reachable vault with the fixed trigger
  \<open>t\<close> encrypted to the enclave's key; the registry delivers the instruction to the enclave process,
  whose watcher is idle, works for this vault and holds no order with this id. If the next tick reads a
  fresh positive sample at or below \<open>t\<close> from a cooperative node, it broadcasts the settlement of
  exactly this order with exactly the trigger \<open>t\<close> to the vault. And in every later state of the
  vault in which the order is still open and the feed has not risen above the sample, that settlement
  executes the order and pays its owner the deposit, which is the value sent less the fee, times the
  price the vault reads.\<close>

theorem sealed_order_pays_out:
  fixes v :: Vault
  assumes i_def: "i = nextOrderId v + 1"
    and vault: "reach deployed_vault (vault_step E) (v, x)" "extensionId v \<noteq> 0" "INSTRUCTION_FEE v < n" "uint (nextOrderId v) + 1 < 2 ^ 64"
      "getRandomTeeIds E (TEE_MACHINE_REGISTRY v) (extensionId v) 1 x = Some ids"
      "\<And>p v'. accepts E (SendInstructions (INSTRUCTION_FEE v) ids p) (v', x)"
    and sealed: "Encrypt (tee_crypto X) rand c (fixed_plaintext t) = Inr ct" "0 < t" "t < 2 ^ 256" "ct \<noteq> []" "length ct < 2 ^ 256"
    and placed: "vault_tx E (Msg owner n (CallPlaceOrder ct)) (v, x) = (v1, x1)"
    and relay: "last (trace v1) = Called (SendInstructions fee ids' p)" "delivers X p body"
      "hashes_agree X" "abi_agrees (tee_abi X)" "ecies_inverse (tee_crypto X) c"
    and node: "reach (started_node X c) (node_step X e) (k, z)" "nd_watcher k = Some w" "idle w" "Watcher.vault w = this_address E"
      "order_phase (ext_store (nd_ext k)) (ucast i) = Absent" "node_action X now body k = (answer, k1)" "nd_watcher k1 = Some w1"
    and tick: "cooperative e B" "fresh_sample e (w1, z1) = Some sample" "0 < sample" "sample \<le> int t" "node_tick e k1 z1 = (k2, z2)"
      "max B (unat (nonce_floor w)) + length (orders (wstore w)) < 2 ^ 64 - 2"
    and settle: "reach (\<lambda>st. st = (v1, x1)) (vault_step E) (v2, x2)" "ready_to_settle E i sample price (v2, x2)" "teeExecutor v2 = from_addr w"
      "vault_tx E (Msg (from_addr w) 0 (CallSettle i (word_of_int (int t)) (word_of_int settleMaxAgeSec))) (v2, x2) = (v3, x3)"
  shows "\<exists>w2 new b. nd_watcher k2 = Some w2 \<and> broadcasts w2 = broadcasts w @ new \<and> b \<in> set new
      \<and> ucast (b_order b) = i \<and> b_trigger b = int t \<and> tx_to (b_tx b) = this_address E
      \<and> order_status (vault_orders v3 i) = STATUS_EXECUTED
      \<and> logged payout_of v3 = logged payout_of v2 @ [(owner, payout_amount (n - INSTRUCTION_FEE v) price)]"
proof -
  let ?p = "instruction OP_COMMAND_PLACE (abi_encode_id_bytes i ct) owner" and ?v = "placed_vault owner n v"
  let ?c = "SendInstructions (INSTRUCTION_FEE v) ids ?p"
  have ok: "vault_inv v" "0 \<le> native_balance v"
    using vault_inv_deployed [OF vault(1)] by simp_all
  have next256: "uint (nextOrderId v) + 1 < 2 ^ 256" using vault(4) by simp
  then have i: "uint i = uint (nextOrderId v) + 1" unfolding i_def using uint_checked [of "uint (nextOrderId v) + 1"] by simp
  obtain upd where r: "reaction E ?c (called ?c ?v, x) = Some ([], True, upd)" using vault(6) unfolding accepts_def by blast
  have v1: "v1 = called ?c ?v"
    using place_runs [OF next256 vault(3) sealed(4) vault(2) ok(2) vault(5) _ r] placed by (simp add: i_def)
  then have "p = ?p" using relay(1) by simp
  then have req: "place_request X c body (uint i) (fixed_plaintext t)"
    using delivered_place [OF relay(3,4) sealed(5) _ sealed(1)] relay(2) by simp
  have id: "0 < uint i" "uint i < 2 ^ 64" using i vault(4) uint_ge_0 [of "nextOrderId v"] by simp_all
  note narrow = narrow_id [OF id(2)]
  have absent: "order_phase (ext_store (nd_ext k)) (word_of_int (uint i)) = Absent" using node(5) by (simp only: narrow(1))
  obtain w2 new b where b: "nd_watcher k2 = Some w2" "broadcasts w2 = broadcasts w @ new" "b \<in> set new"
      "b_order b = ucast i" "b_trigger b = int t" "tx_to (b_tx b) = Watcher.vault w"
    using order_settled [OF node(1-3) relay(5) req sealed(2,3) id absent node(6,7) tick(1-4) tick(6,5)]
    unfolding narrow(1) by blast
  have pl: "vault_orders v1 i = \<lparr>order_owner = owner, order_deposit = n - INSTRUCTION_FEE v, order_status = STATUS_OPEN\<rparr>"
    by (simp add: v1 i_def placed_vault_def Let_def emit_def)
  have step: "reach deployed_vault (vault_step E) (v1, x1)"
    using reach_step [OF vault(1) vault_msg] placed by metis
  then have "vault_inv v1" using vault_inv_deployed [of E v1 x1] by simp
  then have "progress v1 v2" using reach_progress [OF settle(1)] by simp
  moreover have "order_status (vault_orders v2 i) = STATUS_OPEN" using settle(2) by (simp add: ready_to_settle_def)
  moreover have "order_status (vault_orders v1 i) = STATUS_OPEN" by (simp add: pl)
  ultimately have same: "vault_orders v2 i = vault_orders v1 i" by (intro open_order_fixed)
  have "reach deployed_vault (vault_step E) (v2, x2)" using reach_from [OF step settle(1)] .
  moreover have "vault_tx E (Msg (teeExecutor v2) 0 (CallSettle i (word_of_int (int t)) 300)) (v2, x2) = (v3, x3)"
    using settle(4) by (simp add: settle(3) settleMaxAgeSec_def)
  moreover have "int t < 2 ^ 256" using sealed(3) by simp
  ultimately show ?thesis
    using settlement_accepted [OF _ settle(2) tick(4)] b narrow(2) node(4) same pl by auto
qed


text \<open>The vault of \<open>Vault_Dev\<close> and the process of \<open>Node_Props\<close> with the ABI codec and the hashes of the
  contract: an order of 5 tokens with a trigger of 0.02 USD is settled at 0.019 USD.\<close>

definition sealed_env :: "unit tee_env" where
  "sealed_env = tiny_env\<lparr>tee_abi := sol_abi, ToHash := (\<lambda>s. hash_of_bytes (bytes32 s)),
     Parse_DataFixed := (\<lambda>m. Inr \<lparr>dfOPType = hash_of_bytes OP_TYPE_DARKSTOP, dfOPCommand = hash_of_bytes OP_COMMAND_PLACE, OriginalMessage = m\<rparr>)\<rparr>"

definition sealed_ciphertext :: bytes where
  "sealed_ciphertext = rev (fixed_plaintext 20000)"

definition sealed_params :: TeeInstructionParams where
  "sealed_params = instruction OP_COMMAND_PLACE (abi_encode_id_bytes 1 sealed_ciphertext) 9"

definition sealed_placed :: "DevWorld vst" where
  "sealed_placed = vault_tx (dev_env 5) (Msg 9 (DEV_INSTRUCTION_FEE + 5 * 10 ^ 18) (CallPlaceOrder sealed_ciphertext)) dev_start"

lemma sealed_text: "sealed_ciphertext \<noteq> []" "length sealed_ciphertext < 2 ^ 256"
  by (simp_all add: sealed_ciphertext_def fixed_plaintext_def json_field_def quoted_def format_nat.simps)

lemma sealed_placed_eq: "sealed_placed = (called (SendInstructions DEV_INSTRUCTION_FEE [0x7EE] sealed_params) (placed_vault 9 (DEV_INSTRUCTION_FEE + 5 * 10 ^ 18) dev_vault),
    after_instruction DEV_INSTRUCTION_FEE sealed_params dev_world)"
  unfolding sealed_placed_def dev_start_def dev_stack_eq
  by (simp add: dev_place sealed_text sealed_params_def) (simp add: dev_place sealed_text dev_run_simps)


lemma sealed_hashes: "hashes_agree sealed_env"
  by (simp add: hashes_agree_def sealed_env_def)

lemma sealed_delivery: "delivers sealed_env sealed_params (abi_encode_id_bytes 1 sealed_ciphertext)"
  by (simp add: delivers_def sealed_env_def tiny_env_def sealed_params_def instruction_def)

lemma sealed_started: "started_node sealed_env \<lparr>key = ()\<rparr> (tiny_node, x)"
proof -
  have "docker_main sealed_env tiny_launch tiny_settings [] None = docker_main tiny_env tiny_launch tiny_settings [] None"
    by (simp add: docker_main_def StartExtension_def New_def sealed_env_def)
  then show ?thesis
    using tiny_docker tiny_launches by (auto simp: started_node_def tiny_node_def tiny_extension_def)
qed

lemma sealed_request: "place_request sealed_env c (abi_encode_id_bytes 1 sealed_ciphertext) (uint (1 :: uint256)) (fixed_plaintext 20000)"
proof (rule delivered_place [OF sealed_hashes _ sealed_text(2)])
  show "abi_agrees (tee_abi sealed_env)" by (simp add: sealed_env_def sol_abi_agrees)
  show "delivers sealed_env (instruction OP_COMMAND_PLACE (abi_encode_id_bytes 1 sealed_ciphertext) 9) (abi_encode_id_bytes 1 sealed_ciphertext)"
    using sealed_delivery by (simp only: sealed_params_def)
  show "Encrypt (tee_crypto sealed_env) [] c (fixed_plaintext 20000) = Inr sealed_ciphertext"
    by (simp add: sealed_env_def tiny_env_def tiny_crypto_def Encrypt_def sealed_ciphertext_def)
qed


definition sealed_fallen :: "DevWorld vst" where
  "sealed_fallen = (fst sealed_placed, (snd sealed_placed)\<lparr>dev_feed := (190000, 7, 1000)\<rparr>)"

lemma sealed_price: "vault_price 190000 7 = 19000" "representable 190000 7" "normalizePrice 190000 7 = 19000"
  by (simp_all add: vault_price_def representable_def normalizePrice_def PAYOUT_DECIMALS_def payoutDecimals_def)

lemma sealed_order: "vault_orders (fst sealed_placed) 1 = \<lparr>order_owner = 9, order_deposit = 5 * 10 ^ 18, order_status = STATUS_OPEN\<rparr>"
  "teeExecutor (fst sealed_placed) = 7" "FTSO_V2 (fst sealed_placed) = 3" "last (trace (fst sealed_placed)) = Called (SendInstructions DEV_INSTRUCTION_FEE [0x7EE] sealed_params)"
  by (simp_all add: sealed_placed_eq) (simp_all add: dev_run_simps)

lemma sealed_ready: "ready_to_settle (dev_env 5) 1 19000 19000 sealed_fallen"
proof -
  have amount: "payout_amount (5 * 10 ^ 18) 19000 = 95000" by (simp add: payout_amount_def)
  have tok: "dev_token (snd sealed_placed) = minted_token 5" "dev_time (snd sealed_placed) = 1005"
    by (simp_all add: sealed_placed_eq after_instruction_def dev_world_def)
  obtain t where "token_transfer 5 9 95000 (minted_token 5) = Inr t"
    by (simp add: token_transfer_def move_tokens_def minted_token sol_require_def checked_def)
  then have "accepts (dev_env 5) (TokenTransfer 9 95000) (v', (snd sealed_placed)\<lparr>dev_feed := (190000, 7, 1000)\<rparr>)" for v'
    by (simp add: accepts_def dev_env_simps tok)
  then show ?thesis
    using amount by (simp add: ready_to_settle_def sealed_fallen_def sealed_order dev_env_simps sealed_price tok)
qed

theorem sealed_order_pays_out_witness:
  "logged payout_of (fst (vault_tx (dev_env 5) (Msg 7 0 (CallSettle 1 20000 300)) sealed_fallen)) = [(9, 95000)]"
proof -
  let ?e = "demo_chain (\<lambda>x. Inr 1) (Inr True) :: unit chain_env" and ?body = "abi_encode_id_bytes 1 sealed_ciphertext"
  let ?k1 = "with_book (placed 1 20000 NewStore) tiny_node"
  obtain r where act: "node_action sealed_env 0 ?body tiny_node = ((HttpOK, r), ?k1)"
    using tiny_placed [of sealed_env ?body 1] sealed_request [of "\<lparr>key = ()\<rparr>"] by (auto simp: sealed_env_def tiny_env_def tiny_inverse)
  obtain k2 z2 where t: "node_tick ?e ?k1 () = (k2, z2)" by (metis surj_pair)
  obtain v3 x3 where s: "vault_tx (dev_env 5) (Msg 7 0 (CallSettle 1 20000 300)) sealed_fallen = (v3, x3)" by (metis surj_pair)
  have w: "nd_watcher tiny_node = Some tiny_watcher" "idle tiny_watcher" "Watcher.vault tiny_watcher = this_address (dev_env 5)"
    by (simp_all add: tiny_node_def tiny_watcher_def idle_def dev_env_def)
  have w1: "nd_watcher ?k1 = Some (tiny_watcher\<lparr>wstore := placed 1 20000 NewStore\<rparr>)" by (simp add: with_book_def tiny_node_def)
  have absent: "order_phase (ext_store (nd_ext tiny_node)) (ucast (1 :: uint256)) = Absent" by (simp add: tiny_node_def tiny_absent)
  have fallen: "reach (\<lambda>st. st = (fst sealed_placed, snd sealed_placed)) (vault_step (dev_env 5)) (fst sealed_fallen, snd sealed_fallen)"
  proof (rule reach_step)
    show "reach (\<lambda>st. st = (fst sealed_placed, snd sealed_placed)) (vault_step (dev_env 5)) (fst sealed_placed, snd sealed_placed)"
      by (rule reach_init) simp
    show "vault_step (dev_env 5) (fst sealed_placed, snd sealed_placed) (fst sealed_fallen, snd sealed_fallen)"
      unfolding sealed_fallen_def fst_conv snd_conv by (rule vault_world)
  qed
  have started: "reach (started_node sealed_env \<lparr>key = ()\<rparr>) (node_step sealed_env ?e) (tiny_node, ())"
    by (rule reach_init) (rule sealed_started)
  have config: "extensionId dev_vault \<noteq> 0" "INSTRUCTION_FEE dev_vault < DEV_INSTRUCTION_FEE + 5 * 10 ^ 18" "uint (nextOrderId dev_vault) + 1 < 2 ^ 64"
      "(1 :: uint256) = nextOrderId dev_vault + 1"
    by (simp_all add: dev_vault_def DEV_INSTRUCTION_FEE_def)
  have acc: "accepts (dev_env 5) (SendInstructions (INSTRUCTION_FEE dev_vault) [0x7EE] p) (v', dev_world)" for p v'
    by (rule dev_accepts) (simp add: dev_world_def)
  have enc: "Encrypt (tee_crypto sealed_env) [] \<lparr>key = ()\<rparr> (fixed_plaintext 20000) = Inr sealed_ciphertext"
    by (simp add: sealed_env_def tiny_env_def tiny_crypto_def Encrypt_def sealed_ciphertext_def)
  have placed: "vault_tx (dev_env 5) (Msg 9 (DEV_INSTRUCTION_FEE + 5 * 10 ^ 18) (CallPlaceOrder sealed_ciphertext)) (dev_vault, dev_world)
      = (fst sealed_placed, snd sealed_placed)"
    by (simp add: sealed_placed_def dev_start_def dev_stack_eq)
  have libs: "abi_agrees (tee_abi sealed_env)" "ecies_inverse (tee_crypto sealed_env) \<lparr>key = ()\<rparr>"
    by (simp_all add: sealed_env_def sol_abi_agrees tiny_env_def tiny_inverse)
  have co: "cooperative ?e 4" by (simp add: cooperative_def demo_chain_def ReceiptStatusSuccessful_def)
  have room: "max 4 (unat (nonce_floor tiny_watcher)) + length (orders (wstore tiny_watcher)) < 2 ^ 64 - 2"
    by (simp add: nonce_floor_def tiny_watcher_def NewStore_def)
  have nums: "0 < (20000 :: nat)" "(20000 :: nat) < 2 ^ 256" "0 < (19000 :: int)" "(19000 :: int) \<le> int 20000" by simp_all
  have executor: "teeExecutor (fst sealed_fallen) = from_addr tiny_watcher"
    by (simp add: sealed_fallen_def sealed_order tiny_watcher_def)
  have ready: "ready_to_settle (dev_env 5) 1 19000 19000 (fst sealed_fallen, snd sealed_fallen)" using sealed_ready by simp
  have settle: "vault_tx (dev_env 5) (Msg (from_addr tiny_watcher) 0 (CallSettle 1 (word_of_int (int 20000)) (word_of_int settleMaxAgeSec)))
      (fst sealed_fallen, snd sealed_fallen) = (v3, x3)"
    using s by (simp add: tiny_watcher_def settleMaxAgeSec_def)
  have "logged payout_of v3 = logged payout_of (fst sealed_fallen) @ [(9, payout_amount (DEV_INSTRUCTION_FEE + 5 * 10 ^ 18 - INSTRUCTION_FEE dev_vault) 19000)]"
    using sealed_order_pays_out [OF config(4) dev_start_reach config(1-3) dev_env_simps(4) acc enc nums(1,2) sealed_text placed sealed_order(4) sealed_delivery
        sealed_hashes libs started w absent act w1 co tiny_sample nums(3,4) t room fallen ready executor settle] by blast
  then show ?thesis
    using s by (simp add: sealed_fallen_def sealed_placed_eq logged_def map_filter_simps) (simp add: dev_run_simps map_filter_simps payout_amount_def)
qed

end
