(* ===== verification/Order_Heap.thy ===== *)
theory Order_Heap
  imports Order_Lifecycle
begin

text \<open>
  The order book with its pointers. \<open>Order_Store\<close> models a \<open>*big.Int\<close> by its value; here it is an
  address of a heap of integers, so that an order handed to the book or returned by it can share
  a cell with the book's own copy. Every operation of \<open>internal/extension/store.go\<close> is given
  again at that level: \<open>new(big.Int).Set\<close> allocates a cell, \<open>Div\<close> with its receiver as an argument
  overwrites one, and \<open>cloneOrder\<close> decides what the book and its callers share. The refinement
  proved here is what makes the value model of \<open>Order_Store\<close> adequate.
\<close>

section \<open>Heap\<close>

type_synonym ptr = nat
type_synonym heap = "int list"

text \<open>\<open>new(big.Int)\<close> with a value: the cell behind the last one.\<close>

definition big_new :: "int \<Rightarrow> heap \<Rightarrow> ptr \<times> heap" where
  "big_new v h = (length h, h @ [v])"

text \<open>\<open>new(big.Int).Set(q)\<close>, and the test for nil in front of it.\<close>

definition big_copy :: "ptr \<Rightarrow> heap \<Rightarrow> ptr \<times> heap" where
  "big_copy q h = big_new (h ! q) h"

fun copy_ptr :: "ptr option \<Rightarrow> heap \<Rightarrow> ptr option \<times> heap" where
  "copy_ptr None h = (None, h)"
| "copy_ptr (Some q) h = (let (t, h1) = big_copy q h in (Some t, h1))"

record OrderRef =
  ref_ID :: uint64
  ref_TriggerPrice :: "ptr option"
  ref_TrailBps :: uint16
  ref_HighWatermark :: "ptr option"
  ref_Status :: string

record StoreRef =
  ref_orders :: "(uint64, OrderRef) gomap"
  ref_latestPrice :: "ptr option"
  ref_latestAt :: gotime

definition NewStore_ref :: StoreRef where
  "NewStore_ref = \<lparr>ref_orders = [], ref_latestPrice = None, ref_latestAt = zero_time\<rparr>"

section \<open>Calls and answers\<close>

text \<open>The methods of the book, over the representation of an order and of a price: values in
  \<open>Order_Store\<close>, pointers here.\<close>

datatype (call_orders: 'o, call_prices: 'p) book_call =
    CallPut gotime 'o | CallGet uint64 | CallDelete uint64 | CallMarkExecuted uint64
  | CallOpenOrders | CallSnapshot | CallObservePrice "'p option" gotime
  | CallSupportedPolicies gotime | CallTriggeredOrders "'p option" | CallEffectiveTrigger uint64

datatype (answer_orders: 'o, answer_prices: 'p) answer =
    AnsError "store_error option" | AnsBool bool | AnsOrder "'o option" | AnsOrders "'o list"
  | AnsNames "string list" | AnsPrice "'p option"

fun run_call :: "(Order, int) book_call \<Rightarrow> Store \<Rightarrow> (Order, int) answer \<times> Store" where
  "run_call (CallPut now o1) s = (case Put now o1 s of Inl e \<Rightarrow> (AnsError (Some e), s)
     | Inr s' \<Rightarrow> (AnsError None, s'))"
| "run_call (CallGet i) s = (AnsOrder (Get i s), s)"
| "run_call (CallDelete i) s = (let (b, s') = Delete i s in (AnsBool b, s'))"
| "run_call (CallMarkExecuted i) s = (let (b, s') = MarkExecuted i s in (AnsBool b, s'))"
| "run_call CallOpenOrders s = (AnsOrders (OpenOrders s), s)"
| "run_call CallSnapshot s = (AnsOrders (Snapshot s), s)"
| "run_call (CallObservePrice p at) s = (AnsError None, ObservePrice p at s)"
| "run_call (CallSupportedPolicies now) s = (AnsNames (SupportedPolicies now s), s)"
| "run_call (CallTriggeredOrders p) s = (let (os, s') = TriggeredOrders p s in (AnsOrders os, s'))"
| "run_call (CallEffectiveTrigger i) s = (AnsPrice (EffectiveTrigger i s), s)"

section \<open>The operations on pointers\<close>

definition cloneOrder :: "OrderRef \<Rightarrow> heap \<Rightarrow> OrderRef \<times> heap" where
  "cloneOrder r h = (let (t, h1) = copy_ptr (ref_TriggerPrice r) h;
       (w, h2) = copy_ptr (ref_HighWatermark r) h1
     in (r\<lparr>ref_TriggerPrice := t, ref_HighWatermark := w\<rparr>, h2))"

fun clone_orders :: "OrderRef list \<Rightarrow> heap \<Rightarrow> OrderRef list \<times> heap" where
  "clone_orders [] h = ([], h)"
| "clone_orders (r # rs) h =
     (let (r', h1) = cloneOrder r h; (rs', h2) = clone_orders rs h1 in (r' # rs', h2))"

definition trailingReady_ref :: "gotime \<Rightarrow> StoreRef \<Rightarrow> bool" where
  "trailingReady_ref now s =
     (if ref_latestPrice s = None \<or> time_IsZero (ref_latestAt s) then False
      else (let age = time_Sub now (ref_latestAt s) in 0 \<le> age \<and> age \<le> trailingSampleMaxAge))"

definition isFixed_ref :: "OrderRef \<Rightarrow> heap \<Rightarrow> bool" where
  "isFixed_ref r h \<longleftrightarrow> (case ref_TriggerPrice r of None \<Rightarrow> False
     | Some q \<Rightarrow> sgn (h ! q) > 0 \<and> big_BitLen (h ! q) \<le> 256 \<and> ref_TrailBps r = 0
         \<and> ref_HighWatermark r = None)"

definition isTrailing_ref :: "gotime \<Rightarrow> StoreRef \<Rightarrow> OrderRef \<Rightarrow> bool" where
  "isTrailing_ref now s r \<longleftrightarrow> ref_TriggerPrice r = None \<and> 25 \<le> ref_TrailBps r
     \<and> ref_TrailBps r \<le> 5000 \<and> ref_HighWatermark r = None \<and> trailingReady_ref now s"

definition Put_ref :: "gotime \<Rightarrow> OrderRef \<Rightarrow> StoreRef \<Rightarrow> heap \<Rightarrow> store_error option \<times> StoreRef \<times> heap"
  where
  "Put_ref now r s h =
     (if gm_get (ref_orders s) (ref_ID r) \<noteq> None then (Some (OrderExists (ref_ID r)), s, h)
      else if ref_ID r = 0 \<or> ref_Status r \<noteq> StatusOpen then (Some InvalidIdentity, s, h)
      else if \<not> isFixed_ref r h \<and> \<not> isTrailing_ref now s r then (Some InvalidPolicy, s, h)
      else (let (r1, h1) = (case (isTrailing_ref now s r, ref_latestPrice s) of
                  (True, Some q) \<Rightarrow> (let (w, h1) = big_copy q h
                     in (r\<lparr>ref_HighWatermark := Some w\<rparr>, h1))
                | _ \<Rightarrow> (r, h));
              (r2, h2) = cloneOrder r1 h1
            in (None, s\<lparr>ref_orders := gm_put (ref_ID r2) r2 (ref_orders s)\<rparr>, h2)))"

definition Get_ref :: "uint64 \<Rightarrow> StoreRef \<Rightarrow> heap \<Rightarrow> OrderRef option \<times> heap" where
  "Get_ref i s h = (case gm_get (ref_orders s) i of None \<Rightarrow> (None, h)
     | Some r \<Rightarrow> (let (r', h1) = cloneOrder r h in (Some r', h1)))"

definition Delete_ref :: "uint64 \<Rightarrow> StoreRef \<Rightarrow> bool \<times> StoreRef" where
  "Delete_ref i s = (if gm_get (ref_orders s) i = None then (False, s)
     else (True, s\<lparr>ref_orders := gm_del i (ref_orders s)\<rparr>))"

definition MarkExecuted_ref :: "uint64 \<Rightarrow> StoreRef \<Rightarrow> bool \<times> StoreRef" where
  "MarkExecuted_ref i s = (case gm_get (ref_orders s) i of
       None \<Rightarrow> (False, s)
     | Some r \<Rightarrow> if ref_Status r \<noteq> StatusOpen then (False, s)
         else (True, s\<lparr>ref_orders := gm_put i (r\<lparr>ref_Status := StatusExecuted\<rparr>) (ref_orders s)\<rparr>))"

definition OpenOrders_ref :: "StoreRef \<Rightarrow> heap \<Rightarrow> OrderRef list \<times> heap" where
  "OpenOrders_ref s h = (let (rs, h1) = clone_orders
       (filter (\<lambda>r. ref_Status r = StatusOpen) (map snd (ref_orders s))) h
     in (sort_key ref_ID rs, h1))"

definition Snapshot_ref :: "StoreRef \<Rightarrow> heap \<Rightarrow> OrderRef list \<times> heap" where
  "Snapshot_ref s h = (let (rs, h1) = clone_orders (map snd (ref_orders s)) h
     in (sort_key ref_ID rs, h1))"

definition ObservePrice_ref :: "ptr option \<Rightarrow> gotime \<Rightarrow> StoreRef \<Rightarrow> heap \<Rightarrow> StoreRef \<times> heap" where
  "ObservePrice_ref price at s h = (case price of
       Some p \<Rightarrow> if sgn (h ! p) > 0 \<and> \<not> time_IsZero at
         then (let (q, h1) = big_copy p h in (s\<lparr>ref_latestPrice := Some q, ref_latestAt := at\<rparr>, h1))
         else (s, h)
     | None \<Rightarrow> (s, h))"

definition SupportedPolicies_ref :: "gotime \<Rightarrow> StoreRef \<Rightarrow> string list" where
  "SupportedPolicies_ref now s =
     (if trailingReady_ref now s then [''fixed'', ''trailing''] else [''fixed''])"

text \<open>\<open>new(big.Int).Mul(high, ...)\<close>, then \<open>effective.Div(effective, 10_000)\<close> on the same cell.\<close>

definition trail_ref :: "ptr \<Rightarrow> uint16 \<Rightarrow> heap \<Rightarrow> ptr \<times> heap" where
  "trail_ref w bps h = (let (e, h1) = big_new (h ! w * uint (10000 - bps)) h
     in (e, h1[e := h1 ! e div 10000]))"

definition raise_ref :: "ptr \<Rightarrow> OrderRef \<Rightarrow> heap \<Rightarrow> OrderRef \<times> heap" where
  "raise_ref p r h =
     (if (case ref_HighWatermark r of None \<Rightarrow> True | Some w \<Rightarrow> h ! p > h ! w)
      then (let (w, h1) = big_copy p h in (r\<lparr>ref_HighWatermark := Some w\<rparr>, h1)) else (r, h))"

text \<open>\<open>if effective != nil && price.Cmp(effective) <= 0\<close>: the copy that is returned.\<close>

definition hit_ref :: "ptr \<Rightarrow> OrderRef \<Rightarrow> ptr option \<Rightarrow> heap \<Rightarrow> OrderRef option \<times> heap" where
  "hit_ref p r effective h = (case effective of None \<Rightarrow> (None, h)
     | Some e \<Rightarrow> if h ! p \<le> h ! e
         then (let (t, h1) = big_copy e h; (c, h2) = cloneOrder (r\<lparr>ref_TriggerPrice := Some t\<rparr>) h1
               in (Some c, h2))
         else (None, h))"

definition trigger_step_ref :: "ptr \<Rightarrow> OrderRef \<Rightarrow> heap \<Rightarrow> OrderRef \<times> OrderRef option \<times> heap" where
  "trigger_step_ref p r h =
     (if ref_Status r \<noteq> StatusOpen then (r, None, h)
      else if ref_TrailBps r > 0
      then (let (r1, h1) = raise_ref p r h in
             (case ref_HighWatermark r1 of None \<Rightarrow> (r1, None, h1)
              | Some w \<Rightarrow> (let (e, h2) = trail_ref w (ref_TrailBps r1) h1;
                           (hit, h3) = hit_ref p r1 (Some e) h2 in (r1, hit, h3))))
      else (let (hit, h1) = hit_ref p r (ref_TriggerPrice r) h in (r, hit, h1)))"

fun trigger_loop_ref :: "ptr \<Rightarrow> (uint64, OrderRef) gomap \<Rightarrow> heap
    \<Rightarrow> (uint64, OrderRef) gomap \<times> OrderRef list \<times> heap" where
  "trigger_loop_ref p [] h = ([], [], h)"
| "trigger_loop_ref p ((i, r) # m) h =
     (let (r1, hit, h1) = trigger_step_ref p r h; (m', hits, h2) = trigger_loop_ref p m h1
      in ((i, r1) # m', (case hit of None \<Rightarrow> hits | Some c \<Rightarrow> c # hits), h2))"

definition TriggeredOrders_ref :: "ptr option \<Rightarrow> StoreRef \<Rightarrow> heap \<Rightarrow> OrderRef list \<times> StoreRef \<times> heap"
  where
  "TriggeredOrders_ref price s h = (case price of
       None \<Rightarrow> ([], s, h)
     | Some p \<Rightarrow> if sgn (h ! p) \<le> 0 then ([], s, h)
         else (let (m, hits, h1) = trigger_loop_ref p (ref_orders s) h
               in (sort_key ref_ID hits, s\<lparr>ref_orders := m\<rparr>, h1)))"

definition EffectiveTrigger_ref :: "uint64 \<Rightarrow> StoreRef \<Rightarrow> heap \<Rightarrow> ptr option \<times> heap" where
  "EffectiveTrigger_ref i s h = (case gm_get (ref_orders s) i of
       None \<Rightarrow> (None, h)
     | Some r \<Rightarrow> if ref_Status r \<noteq> StatusOpen then (None, h)
         else if ref_TrailBps r = 0 then copy_ptr (ref_TriggerPrice r) h
         else (case ref_HighWatermark r of None \<Rightarrow> (None, h)
               | Some w \<Rightarrow> (let (e, h1) = trail_ref w (ref_TrailBps r) h in (Some e, h1))))"

fun ref_call :: "(OrderRef, ptr) book_call \<Rightarrow> StoreRef \<Rightarrow> heap
    \<Rightarrow> (OrderRef, ptr) answer \<times> StoreRef \<times> heap" where
  "ref_call (CallPut now r) s h = (let (e, s', h') = Put_ref now r s h in (AnsError e, s', h'))"
| "ref_call (CallGet i) s h = (let (r, h') = Get_ref i s h in (AnsOrder r, s, h'))"
| "ref_call (CallDelete i) s h = (let (b, s') = Delete_ref i s in (AnsBool b, s', h))"
| "ref_call (CallMarkExecuted i) s h = (let (b, s') = MarkExecuted_ref i s in (AnsBool b, s', h))"
| "ref_call CallOpenOrders s h = (let (rs, h') = OpenOrders_ref s h in (AnsOrders rs, s, h'))"
| "ref_call CallSnapshot s h = (let (rs, h') = Snapshot_ref s h in (AnsOrders rs, s, h'))"
| "ref_call (CallObservePrice p at) s h =
     (let (s', h') = ObservePrice_ref p at s h in (AnsError None, s', h'))"
| "ref_call (CallSupportedPolicies now) s h = (AnsNames (SupportedPolicies_ref now s), s, h)"
| "ref_call (CallTriggeredOrders p) s h =
     (let (rs, s', h') = TriggeredOrders_ref p s h in (AnsOrders rs, s', h'))"
| "ref_call (CallEffectiveTrigger i) s h =
     (let (p, h') = EffectiveTrigger_ref i s h in (AnsPrice p, s, h'))"

section \<open>Reading the heap\<close>

definition read_order :: "heap \<Rightarrow> OrderRef \<Rightarrow> Order" where
  "read_order h r = \<lparr>ID = ref_ID r, TriggerPrice = map_option ((!) h) (ref_TriggerPrice r),
     TrailBps = ref_TrailBps r, HighWatermark = map_option ((!) h) (ref_HighWatermark r),
     Status = ref_Status r\<rparr>"

definition read_book :: "heap \<Rightarrow> (uint64, OrderRef) gomap \<Rightarrow> (uint64, Order) gomap" where
  "read_book h m = map (\<lambda>(i, r). (i, read_order h r)) m"

definition read_store :: "heap \<Rightarrow> StoreRef \<Rightarrow> Store" where
  "read_store h s = \<lparr>orders = read_book h (ref_orders s),
     latestPrice = map_option ((!) h) (ref_latestPrice s), latestAt = ref_latestAt s\<rparr>"

lemma read_order_fields [simp]:
  "ID (read_order h r) = ref_ID r" "TrailBps (read_order h r) = ref_TrailBps r"
  "Status (read_order h r) = ref_Status r"
  "TriggerPrice (read_order h r) = map_option ((!) h) (ref_TriggerPrice r)"
  "HighWatermark (read_order h r) = map_option ((!) h) (ref_HighWatermark r)"
  by (simp_all add: read_order_def)

lemma read_store_fields [simp]:
  "orders (read_store h s) = read_book h (ref_orders s)"
  "latestPrice (read_store h s) = map_option ((!) h) (ref_latestPrice s)"
  "latestAt (read_store h s) = ref_latestAt s"
  by (simp_all add: read_store_def)

text \<open>The cells an order and the book can reach.\<close>

definition order_refs :: "OrderRef \<Rightarrow> ptr set" where
  "order_refs r = set_option (ref_TriggerPrice r) \<union> set_option (ref_HighWatermark r)"

definition book_refs :: "(uint64, OrderRef) gomap \<Rightarrow> ptr set" where
  "book_refs m = (\<Union>(i, r) \<in> set m. order_refs r)"

definition store_refs :: "StoreRef \<Rightarrow> ptr set" where
  "store_refs s = book_refs (ref_orders s) \<union> set_option (ref_latestPrice s)"

definition call_refs :: "(OrderRef, ptr) book_call \<Rightarrow> ptr set" where
  "call_refs c = \<Union> (order_refs ` call_orders c) \<union> call_prices c"

definition answer_refs :: "(OrderRef, ptr) answer \<Rightarrow> ptr set" where
  "answer_refs a = \<Union> (order_refs ` answer_orders a) \<union> answer_prices a"

lemmas refs_defs = order_refs_def book_refs_def store_refs_def call_refs_def answer_refs_def

text \<open>What was read stays readable when the heap grows or a cell nobody here points to changes.\<close>

definition agree_on :: "ptr set \<Rightarrow> heap \<Rightarrow> heap \<Rightarrow> bool" where
  "agree_on A h h' \<longleftrightarrow> (\<forall>p \<in> A. h' ! p = h ! p)"

lemma agree_on_Un [simp]: "agree_on (A \<union> B) h h' \<longleftrightarrow> agree_on A h h' \<and> agree_on B h h'"
  by (auto simp: agree_on_def)

lemma agree_on_mono: "agree_on B h h' \<Longrightarrow> A \<subseteq> B \<Longrightarrow> agree_on A h h'"
  by (auto simp: agree_on_def)

lemma read_option_agree:
  "agree_on (set_option x) h h' \<Longrightarrow> map_option ((!) h') x = map_option ((!) h) x"
  by (cases x) (auto simp: agree_on_def)

lemma read_order_agree: "agree_on (order_refs r) h h' \<Longrightarrow> read_order h' r = read_order h r"
  by (simp add: read_order_def order_refs_def read_option_agree)

lemma read_book_agree: "agree_on (book_refs m) h h' \<Longrightarrow> read_book h' m = read_book h m"
  by (force simp: read_book_def book_refs_def agree_on_def intro!: read_order_agree)

lemma read_store_agree: "agree_on (store_refs s) h h' \<Longrightarrow> read_store h' s = read_store h s"
  by (simp add: read_store_def store_refs_def read_option_agree read_book_agree)

lemma read_book_get [simp]: "gm_get (read_book h m) i = map_option (read_order h) (gm_get m i)"
  by (simp add: read_book_def gm_get_map_values)

lemma read_book_put [simp]:
  "read_book h (gm_put i r m) = gm_put i (read_order h r) (read_book h m)"
  by (induction m) (auto simp: read_book_def gm_put_def)

lemma read_book_del [simp]: "read_book h (gm_del i m) = gm_del i (read_book h m)"
  by (induction m) (auto simp: read_book_def gm_del_def AList.delete_eq)

lemma read_book_snd: "map snd (read_book h m) = map (read_order h) (map snd m)"
  by (simp add: read_book_def comp_def case_prod_beta)

lemma book_refs_Cons [simp]: "book_refs ((i, r) # m) = order_refs r \<union> book_refs m"
  by (simp add: book_refs_def)

lemma book_refs_get: "gm_get m i = Some r \<Longrightarrow> order_refs r \<subseteq> book_refs m"
  by (force simp: book_refs_def dest: gm_get_in)

lemma book_refs_put: "book_refs (gm_put i r m) \<subseteq> order_refs r \<union> book_refs m"
  by (induction m) (auto simp: book_refs_def gm_put_def split: if_splits)

lemma book_refs_del: "book_refs (gm_del i m) \<subseteq> book_refs m"
  by (auto simp: book_refs_def gm_del_def AList.delete_eq)

lemma order_refs_status [simp]: "order_refs (r\<lparr>ref_Status := x\<rparr>) = order_refs r"
  by (simp add: order_refs_def)

lemma read_order_status: "read_order h (r\<lparr>ref_Status := x\<rparr>) = (read_order h r)\<lparr>Status := x\<rparr>"
  by (simp add: read_order_def)

lemma sort_key_map: "map f (sort_key (\<lambda>x. g (f x)) xs) = sort_key g (map f xs)"
proof (induction xs)
  case (Cons x xs)
  have "map f (insort_key (\<lambda>x. g (f x)) x ys) = insort_key g (f x) (map f ys)" for ys
    by (induction ys) auto
  with Cons show ?case by simp
qed simp

lemma read_sorted: "map (read_order h) (sort_key ref_ID rs) = sort_key ID (map (read_order h) rs)"
  using sort_key_map [of "read_order h" ID rs] by simp

section \<open>Allocation only\<close>

text \<open>The book never writes to a cell it did not allocate in the same call, so a call extends the
  heap.\<close>

definition grows :: "heap \<Rightarrow> heap \<Rightarrow> bool" where
  "grows h h' \<longleftrightarrow> (\<exists>xs. h' = h @ xs)"

lemma grows_refl [simp]: "grows h h"
  by (simp add: grows_def)

lemma grows_append [simp]: "grows h (h @ xs)"
  by (auto simp: grows_def)

lemma grows_trans: "grows h h' \<Longrightarrow> grows h' h'' \<Longrightarrow> grows h h''"
  by (auto simp: grows_def)

lemma grows_length: "grows h h' \<Longrightarrow> length h \<le> length h'"
  by (auto simp: grows_def)

lemma grows_nth: "grows h h' \<Longrightarrow> p < length h \<Longrightarrow> h' ! p = h ! p"
  by (auto simp: grows_def nth_append)

lemma grows_agree: "grows h h' \<Longrightarrow> A \<subseteq> {..<length h} \<Longrightarrow> agree_on A h h'"
  by (auto simp: agree_on_def grows_nth)

lemma trail_ref_eq: "trail_ref w bps h = (length h, h @ [trail_trigger (h ! w) bps])"
  by (simp add: trail_ref_def big_new_def trail_trigger_def Let_def nth_append list_update_append)

lemma big_copy_eq: "big_copy q h = (length h, h @ [h ! q])"
  by (simp add: big_copy_def big_new_def)

text \<open>A call that was asked for an order answers with new cells.\<close>

definition new_cells :: "heap \<Rightarrow> heap \<Rightarrow> ptr set" where
  "new_cells h h' = {length h..<length h'}"

lemma copy_ptr_spec:
  assumes "copy_ptr x h = (y, h')" and "set_option x \<subseteq> {..<length h}"
  shows "grows h h' \<and> map_option ((!) h') y = map_option ((!) h) x
     \<and> set_option y \<subseteq> new_cells h h'"
  using assms by (cases x) (auto simp: big_copy_eq new_cells_def)

lemma cloneOrder_spec:
  assumes "cloneOrder r h = (c, h')" and "order_refs r \<subseteq> {..<length h}"
  shows "grows h h'" and "read_order h' c = read_order h r" and "order_refs c \<subseteq> new_cells h h'"
proof -
  obtain t h1 w where t: "copy_ptr (ref_TriggerPrice r) h = (t, h1)"
    and w: "copy_ptr (ref_HighWatermark r) h1 = (w, h')"
    and c: "c = r\<lparr>ref_TriggerPrice := t, ref_HighWatermark := w\<rparr>"
    using assms(1) by (auto simp: cloneOrder_def split: prod.splits)
  have 1: "grows h h1 \<and> map_option ((!) h1) t = map_option ((!) h) (ref_TriggerPrice r)
      \<and> set_option t \<subseteq> new_cells h h1"
    using copy_ptr_spec [OF t] assms(2) by (simp add: order_refs_def)
  have old: "set_option (ref_HighWatermark r) \<subseteq> {..<length h}"
    using assms(2) by (simp add: order_refs_def)
  have 2: "grows h1 h' \<and> map_option ((!) h') w = map_option ((!) h1) (ref_HighWatermark r)
      \<and> set_option w \<subseteq> new_cells h1 h'"
    using copy_ptr_spec [OF w] old grows_length [of h h1] 1 by fastforce
  have 3: "map_option ((!) h1) (ref_HighWatermark r) = map_option ((!) h) (ref_HighWatermark r)"
    using 1 old by (blast intro: read_option_agree grows_agree)
  have 4: "map_option ((!) h') t = map_option ((!) h1) t"
    using 1 2 by (intro read_option_agree grows_agree) (auto simp: new_cells_def)
  show "grows h h'" using 1 2 grows_trans by blast
  show "read_order h' c = read_order h r"
    using 1 2 3 4 by (simp add: read_order_def c)
  show "order_refs c \<subseteq> new_cells h h'"
    using 1 2 grows_length [of h h1] grows_length [of h1 h']
    by (auto simp: order_refs_def c new_cells_def)
qed

lemma new_cells_mono:
  "grows h h1 \<Longrightarrow> grows h1 h2 \<Longrightarrow> new_cells h h1 \<subseteq> new_cells h h2"
  "grows h h1 \<Longrightarrow> grows h1 h2 \<Longrightarrow> new_cells h1 h2 \<subseteq> new_cells h h2"
  by (auto simp: new_cells_def dest!: grows_length)

lemma new_cells_valid: "new_cells h h1 \<subseteq> {..<length h1}"
  by (auto simp: new_cells_def)

lemma valid_grows: "A \<subseteq> {..<length h} \<Longrightarrow> grows h h1 \<Longrightarrow> A \<subseteq> {..<length h1}"
  by (auto dest!: grows_length)

lemma new_cells_old: "A \<subseteq> {..<length h} \<Longrightarrow> new_cells h h1 \<inter> A = {}"
  by (auto simp: new_cells_def)

lemma clone_orders_spec:
  assumes "clone_orders rs h = (cs, h')" and "\<Union> (order_refs ` set rs) \<subseteq> {..<length h}"
  shows "grows h h' \<and> map (read_order h') cs = map (read_order h) rs
     \<and> \<Union> (order_refs ` set cs) \<subseteq> new_cells h h'"
  using assms
proof (induction rs arbitrary: h cs)
  case (Cons r rs)
  obtain c h1 cs' where c: "cloneOrder r h = (c, h1)" and cs': "clone_orders rs h1 = (cs', h')"
    and cs: "cs = c # cs'"
    using Cons.prems(1) by (auto split: prod.splits)
  note spec = cloneOrder_spec [OF c]
  have r: "order_refs r \<subseteq> {..<length h}" and rs: "\<Union> (order_refs ` set rs) \<subseteq> {..<length h}"
    using Cons.prems(2) by auto
  note ih = Cons.IH [OF cs' valid_grows [OF rs spec(1) [OF r]]]
  have "map (read_order h1) rs = map (read_order h) rs"
    using rs spec(1) [OF r] by (auto intro!: read_order_agree grows_agree)
  moreover have "read_order h' c = read_order h1 c"
    using ih spec(3) [OF r] new_cells_valid by (intro read_order_agree grows_agree) auto
  ultimately show ?case
    using ih spec [OF r] new_cells_mono [of h h1 h'] grows_trans [of h h1 h'] by (auto simp: cs)
qed simp

lemma read_option_append [simp]:
  "set_option x \<subseteq> {..<length h} \<Longrightarrow> map_option ((!) (h @ xs)) x = map_option ((!) h) x"
  by (cases x) (auto simp: nth_append)

lemma raise_ref_spec:
  assumes "raise_ref p r h = (r', h')" and "order_refs r \<subseteq> {..<length h}"
  shows "grows h h'" and "read_order h' r' = raise_watermark (h ! p) (read_order h r)"
    and "order_refs r' \<subseteq> order_refs r \<union> new_cells h h'"
  using assms
  by (auto simp: raise_ref_def raise_watermark_def big_copy_eq read_order_def order_refs_def
      new_cells_def nth_append split: option.splits if_splits)

lemma hit_ref_spec:
  assumes "hit_ref p r e h = (hit, h')" and "order_refs r \<subseteq> {..<length h}"
    and "set_option e \<subseteq> {..<length h}"
  shows "grows h h'"
    and "map_option (read_order h') hit = (case map_option ((!) h) e of None \<Rightarrow> None
      | Some v \<Rightarrow> if h ! p \<le> v then Some ((read_order h r)\<lparr>TriggerPrice := Some v\<rparr>) else None)"
    and "\<Union> (order_refs ` set_option hit) \<subseteq> new_cells h h'"
proof -
  have "grows h h' \<and> map_option (read_order h') hit = (case map_option ((!) h) e of None \<Rightarrow> None
      | Some v \<Rightarrow> if h ! p \<le> v then Some ((read_order h r)\<lparr>TriggerPrice := Some v\<rparr>) else None)
      \<and> \<Union> (order_refs ` set_option hit) \<subseteq> new_cells h h'"
  proof (cases "\<exists>q. e = Some q \<and> h ! p \<le> h ! q")
    case False
    then show ?thesis using assms(1) by (auto simp: hit_ref_def split: option.splits)
  next
    case True
    then obtain q where q: "e = Some q" "h ! p \<le> h ! q" by blast
    define r1 h1 where "r1 = r\<lparr>ref_TriggerPrice := Some (length h)\<rparr>" and "h1 = h @ [h ! q]"
    obtain c where c: "cloneOrder r1 h1 = (c, h')" and hit: "hit = Some c"
      using assms(1) q by (auto simp: hit_ref_def big_copy_eq r1_def h1_def split: prod.splits)
    have h1: "grows h h1" and r1: "order_refs r1 \<subseteq> {..<length h1}"
      using assms(2) by (auto simp: h1_def r1_def order_refs_def)
    have "read_order h1 r1 = (read_order h r)\<lparr>TriggerPrice := Some (h ! q)\<rparr>"
      using assms(2) by (auto simp: read_order_def r1_def h1_def order_refs_def)
    then show ?thesis
      using cloneOrder_spec [OF c r1] h1 q grows_trans [of h h1 h'] new_cells_mono [of h h1 h']
      by (auto simp: hit)
  qed
  then show "grows h h'"
    and "map_option (read_order h') hit = (case map_option ((!) h) e of None \<Rightarrow> None
      | Some v \<Rightarrow> if h ! p \<le> v then Some ((read_order h r)\<lparr>TriggerPrice := Some v\<rparr>) else None)"
    and "\<Union> (order_refs ` set_option hit) \<subseteq> new_cells h h'"
    by blast+
qed

lemma trigger_step_ref_trail:
  assumes step: "trigger_step_ref p r h = (r', hit, h')" and r: "order_refs r \<subseteq> {..<length h}"
    and p: "p < length h" and trail: "ref_Status r = StatusOpen" "ref_TrailBps r > 0"
  shows "grows h h'
    \<and> (read_order h' r', map_option (read_order h') hit) = trigger_step (h ! p) (read_order h r)
    \<and> order_refs r' \<subseteq> order_refs r \<union> new_cells h h'
    \<and> \<Union> (order_refs ` set_option hit) \<subseteq> new_cells h h'
    \<and> \<Union> (order_refs ` set_option hit) \<inter> order_refs r' = {}"
proof -
  obtain h1 where up: "raise_ref p r h = (r', h1)"
    using step trail by (auto simp: trigger_step_ref_def split: prod.splits option.splits)
  obtain w where w: "ref_HighWatermark r' = Some w" and bps: "ref_TrailBps r' = ref_TrailBps r"
    using up by (auto simp: raise_ref_def big_copy_eq split: option.splits if_splits)
  define e where "e = trail_trigger (h1 ! w) (ref_TrailBps r)"
  define h2 where "h2 = h1 @ [e]"
  have hit: "hit_ref p r' (Some (length h1)) h2 = (hit, h')"
    using step trail up w bps
    by (auto simp: trigger_step_ref_def trail_ref_eq h2_def e_def split: prod.splits)
  note raise = raise_ref_spec [OF up r]
  have r1: "order_refs r' \<subseteq> {..<length h1}"
    using raise(1,3) r grows_length [of h h1] by (fastforce simp: new_cells_def)
  have g: "grows h1 h2" by (simp add: h2_def)
  have r2: "order_refs r' \<subseteq> {..<length h2}" by (rule valid_grows [OF r1 g])
  have e2: "set_option (Some (length h1)) \<subseteq> {..<length h2}" by (simp add: h2_def)
  note spec = hit_ref_spec [OF hit r2 e2]
  have g1: "grows h1 h'" by (rule grows_trans [OF g spec(1)])
  have p2: "h2 ! p = h ! p"
    using grows_nth [OF grows_trans [OF raise(1) g] p] .
  have o2: "read_order h2 r' = raise_watermark (h ! p) (read_order h r)"
    using raise(2) read_order_agree [OF grows_agree [OF g r1]] by simp
  have o': "read_order h' r' = raise_watermark (h ! p) (read_order h r)"
    using o2 read_order_agree [OF grows_agree [OF spec(1) r2]] by simp
  have high: "HighWatermark (raise_watermark (h ! p) (read_order h r)) = Some (h1 ! w)"
    using raise(2) w by (metis option.simps(9) read_order_fields(5))
  have bps': "TrailBps (raise_watermark (h ! p) (read_order h r)) = ref_TrailBps r"
    by (simp add: raise_watermark_def split: option.split)
  have "map_option (read_order h') hit = snd (trigger_step (h ! p) (read_order h r))"
    using spec(2) trail high bps' unfolding p2 o2
    by (simp add: trigger_step_def Let_def h2_def e_def)
  moreover have "read_order h' r' = fst (trigger_step (h ! p) (read_order h r))"
    using o' trail by (simp add: trigger_step_def Let_def)
  moreover have "\<Union> (order_refs ` set_option hit) \<inter> order_refs r' = {}"
    using spec(3) new_cells_old [OF r2, of h'] by blast
  moreover have "\<Union> (order_refs ` set_option hit) \<subseteq> new_cells h h'"
    using spec(3) new_cells_mono(2) [OF g spec(1)] new_cells_mono(2) [OF raise(1) g1] by blast
  moreover have "order_refs r' \<subseteq> order_refs r \<union> new_cells h h'"
    using raise(3) new_cells_mono(1) [OF raise(1) g1] by blast
  ultimately show ?thesis
    using grows_trans [OF raise(1) g1] by (simp add: prod_eq_iff)
qed

text \<open>One iteration of the loop of \<open>TriggeredOrders\<close>: it returns what the value model returns, in
  cells of its own, and what it stores is either old or new too.\<close>

lemma trigger_step_ref_spec:
  assumes "trigger_step_ref p r h = (r', hit, h')" and "order_refs r \<subseteq> {..<length h}"
    and "p < length h"
  shows "grows h h'"
    and "(read_order h' r', map_option (read_order h') hit) = trigger_step (h ! p) (read_order h r)"
    and "order_refs r' \<subseteq> order_refs r \<union> new_cells h h'"
    and "\<Union> (order_refs ` set_option hit) \<subseteq> new_cells h h'"
    and "\<Union> (order_refs ` set_option hit) \<inter> order_refs r' = {}"
proof -
  let ?r = "read_order h r"
  let ?ok = "grows h h'
    \<and> (read_order h' r', map_option (read_order h') hit) = trigger_step (h ! p) ?r
    \<and> order_refs r' \<subseteq> order_refs r \<union> new_cells h h'
    \<and> \<Union> (order_refs ` set_option hit) \<subseteq> new_cells h h'
    \<and> \<Union> (order_refs ` set_option hit) \<inter> order_refs r' = {}"
  consider (closed) "ref_Status r \<noteq> StatusOpen"
    | (fixed) "ref_Status r = StatusOpen" "ref_TrailBps r = 0"
    | (trail) "ref_Status r = StatusOpen" "ref_TrailBps r > 0"
    by (auto simp: word_gt_0)
  then have ?ok
  proof cases
    case closed
    then show ?thesis using assms(1) by (auto simp: trigger_step_ref_def trigger_step_def)
  next
    case fixed
    then have hit: "hit_ref p r (ref_TriggerPrice r) h = (hit, h')" and r': "r' = r"
      using assms(1) by (auto simp: trigger_step_ref_def split: prod.splits)
    have t: "set_option (ref_TriggerPrice r) \<subseteq> {..<length h}"
      using assms(2) by (simp add: order_refs_def)
    note spec = hit_ref_spec [OF hit assms(2) t]
    have "read_order h' r = ?r"
      using spec(1) assms(2) by (intro read_order_agree grows_agree)
    then show ?thesis
      using spec fixed new_cells_old [OF assms(2), of h']
      by (auto simp: r' trigger_step_def Let_def split: option.splits)
  next
    case trail
    then show ?thesis by (rule trigger_step_ref_trail [OF assms])
  qed
  then show "grows h h'"
    and "(read_order h' r', map_option (read_order h') hit) = trigger_step (h ! p) (read_order h r)"
    and "order_refs r' \<subseteq> order_refs r \<union> new_cells h h'"
    and "\<Union> (order_refs ` set_option hit) \<subseteq> new_cells h h'"
    and "\<Union> (order_refs ` set_option hit) \<inter> order_refs r' = {}"
    by blast+
qed

lemma disjoint_pieces:
  assumes "H \<inter> R = {}" and "Hs \<inter> M' = {}" and "H \<subseteq> N" and "Hs \<subseteq> N'" and "M' \<subseteq> M \<union> N'"
    and "N \<inter> M = {}" and "N' \<inter> N = {}" and "N' \<inter> R = {}"
  shows "(H \<union> Hs) \<inter> (R \<union> M') = {}"
  using assms by blast

lemma trigger_loop_ref_spec:
  assumes "trigger_loop_ref p m h = (m', hits, h')" and "book_refs m \<subseteq> {..<length h}"
    and "p < length h"
  shows "grows h h' \<and> (read_book h' m', map (read_order h') hits)
       = trigger_loop (h ! p) (read_book h m)
     \<and> book_refs m' \<subseteq> book_refs m \<union> new_cells h h'
     \<and> \<Union> (order_refs ` set hits) \<subseteq> new_cells h h'
     \<and> \<Union> (order_refs ` set hits) \<inter> book_refs m' = {}"
  using assms
proof (induction m arbitrary: h m' hits)
  case Nil
  then show ?case by (auto simp: read_book_def book_refs_def)
next
  case (Cons a m)
  obtain i r where a: "a = (i, r)" by (cases a)
  obtain r1 hit h1 m1 hs where step: "trigger_step_ref p r h = (r1, hit, h1)"
    and loop: "trigger_loop_ref p m h1 = (m1, hs, h')"
    and res: "m' = (i, r1) # m1" "hits = (case hit of None \<Rightarrow> hs | Some c \<Rightarrow> c # hs)"
    using Cons.prems(1) by (auto simp: a split: prod.splits)
  have r: "order_refs r \<subseteq> {..<length h}" and m: "book_refs m \<subseteq> {..<length h}"
    using Cons.prems(2) by (auto simp: a book_refs_def)
  note s = trigger_step_ref_spec [OF step r Cons.prems(3)]
  have "p < length h1" using Cons.prems(3) grows_length [OF s(1)] by simp
  note ih = Cons.IH [OF loop valid_grows [OF m s(1)] this]
  note l = conjunct1 [OF ih] conjunct1 [OF conjunct2 [OF ih]]
    conjunct1 [OF conjunct2 [OF conjunct2 [OF ih]]]
    conjunct1 [OF conjunct2 [OF conjunct2 [OF conjunct2 [OF ih]]]]
    conjunct2 [OF conjunct2 [OF conjunct2 [OF conjunct2 [OF ih]]]]
  have p1: "h1 ! p = h ! p" by (rule grows_nth [OF s(1) Cons.prems(3)])
  have m1: "read_book h1 m = read_book h m"
    by (rule read_book_agree [OF grows_agree [OF s(1) m]])
  have r1: "order_refs r1 \<subseteq> {..<length h1}"
    using s(1,3) r grows_length [of h h1] by (fastforce simp: new_cells_def)
  have o1: "read_order h' r1 = read_order h1 r1"
    by (rule read_order_agree [OF grows_agree [OF l(1) r1]])
  have c1: "map_option (read_order h') hit = map_option (read_order h1) hit"
    using l(1) s(4) new_cells_valid [of h h1]
    by (cases hit) (auto intro!: read_order_agree grows_agree)
  have "(read_book h' m', map (read_order h') hits) = trigger_loop (h ! p) (read_book h (a # m))"
    using l(2) s(2) o1 c1 unfolding p1 m1
    by (cases hit) (auto simp: a res read_book_def split: prod.splits)
  moreover have hits: "\<Union> (order_refs ` set hits)
      = \<Union> (order_refs ` set_option hit) \<union> \<Union> (order_refs ` set hs)"
    by (cases hit) (simp_all add: res)
  moreover have sub: "new_cells h h1 \<subseteq> new_cells h h'" "new_cells h1 h' \<subseteq> new_cells h h'"
    using new_cells_mono [OF s(1) l(1)] .
  moreover have "book_refs m' \<subseteq> book_refs (a # m) \<union> new_cells h h'"
    using l(3) s(3) sub by (simp add: a res) blast
  moreover have "\<Union> (order_refs ` set hits) \<subseteq> new_cells h h'"
    using l(4) s(4) sub by (simp add: hits) blast
  moreover have "\<Union> (order_refs ` set hits) \<inter> book_refs m' = {}"
    unfolding hits res(1) book_refs_Cons
  proof (rule disjoint_pieces [OF s(5) l(5) s(4) l(4) l(3)])
    show "new_cells h h1 \<inter> book_refs m = {}" by (rule new_cells_old [OF m])
    show "new_cells h1 h' \<inter> new_cells h h1 = {}" by (rule new_cells_old [OF new_cells_valid])
    show "new_cells h1 h' \<inter> order_refs r1 = {}" by (rule new_cells_old [OF r1])
  qed
  ultimately show ?case using grows_trans [OF s(1) l(1)] by blast
qed

section \<open>Every call agrees with the value model\<close>

definition read_call :: "heap \<Rightarrow> (OrderRef, ptr) book_call \<Rightarrow> (Order, int) book_call" where
  "read_call h = map_book_call (read_order h) ((!) h)"

definition read_answer :: "heap \<Rightarrow> (OrderRef, ptr) answer \<Rightarrow> (Order, int) answer" where
  "read_answer h = map_answer (read_order h) ((!) h)"

definition call_ok :: "(OrderRef, ptr) book_call \<Rightarrow> StoreRef \<Rightarrow> heap
    \<Rightarrow> (OrderRef, ptr) answer \<times> StoreRef \<times> heap \<Rightarrow> bool" where
  "call_ok c s h res \<longleftrightarrow> (case res of (a, s', h') \<Rightarrow> grows h h'
     \<and> run_call (read_call h c) (read_store h s) = (read_answer h' a, read_store h' s')
     \<and> store_refs s' \<subseteq> store_refs s \<union> new_cells h h'
     \<and> answer_refs a \<subseteq> new_cells h h' \<and> answer_refs a \<inter> store_refs s' = {})"

lemma call_ok_readonly:
  assumes "store_refs s \<subseteq> {..<length h}" and "grows h h'" and "answer_refs a \<subseteq> new_cells h h'"
    and "run_call (read_call h c) (read_store h s) = (read_answer h' a, read_store h s)"
  shows "call_ok c s h (a, s, h')"
  using assms new_cells_old [OF assms(1), of h'] read_store_agree [OF grows_agree [OF assms(2,1)]]
  by (auto simp: call_ok_def)

lemma call_ok_update:
  assumes "answer_refs a = {}" and "grows h h'" and "store_refs s' \<subseteq> store_refs s \<union> new_cells h h'"
    and "run_call (read_call h c) (read_store h s) = (read_answer h' a, read_store h' s')"
  shows "call_ok c s h (a, s', h')"
  using assms by (simp add: call_ok_def)

lemma store_refs_book: "store_refs s \<subseteq> A \<Longrightarrow> book_refs (ref_orders s) \<subseteq> A"
  by (simp add: store_refs_def)

lemma store_refs_get:
  "store_refs s \<subseteq> A \<Longrightarrow> gm_get (ref_orders s) i = Some r \<Longrightarrow> order_refs r \<subseteq> A"
  using book_refs_get store_refs_book by (meson subset_trans)

lemma trailingReady_read [simp]: "trailingReady now (read_store h s) = trailingReady_ref now s"
  by (simp add: trailingReady_def trailingReady_ref_def)

lemma isTrailing_read [simp]:
  "isTrailing now (read_store h s) (read_order h r) = isTrailing_ref now s r"
  by (simp add: isTrailing_def isTrailing_ref_def)

lemma isFixed_read [simp]: "isFixed (read_order h r) = isFixed_ref r h"
  by (simp add: isFixed_def isFixed_ref_def split: option.split)

lemmas call_reads = read_call_def read_answer_def answer_refs_def

lemma CallGet_ok: "store_refs s \<subseteq> {..<length h} \<Longrightarrow> call_ok (CallGet i) s h (ref_call (CallGet i) s h)"
  using cloneOrder_spec [OF _ store_refs_get]
  by (cases "gm_get (ref_orders s) i"; cases "cloneOrder (the (gm_get (ref_orders s) i)) h")
    (auto simp: call_reads Get_def Get_ref_def intro!: call_ok_readonly, blast+)

lemma CallDelete_ok: "call_ok (CallDelete i) s h (ref_call (CallDelete i) s h)"
  using book_refs_del [of i "ref_orders s"]
  by (auto simp: call_reads Delete_def Delete_ref_def store_refs_def read_store_def
      intro!: call_ok_update)

lemma CallMarkExecuted_ok: "call_ok (CallMarkExecuted i) s h (ref_call (CallMarkExecuted i) s h)"
proof (cases "gm_get (ref_orders s) i")
  case None
  then show ?thesis
    by (auto simp: call_reads MarkExecuted_def MarkExecuted_ref_def intro!: call_ok_update)
next
  case (Some r)
  have "x \<in> book_refs (ref_orders s)"
    if "x \<in> book_refs (gm_put i (r\<lparr>ref_Status := StatusExecuted\<rparr>) (ref_orders s))" for x
    using that book_refs_get [OF Some] book_refs_put order_refs_status by blast
  with Some show ?thesis
    by (auto simp: call_reads MarkExecuted_def MarkExecuted_ref_def store_refs_def read_store_def
        read_order_status intro!: call_ok_update)
qed

lemma orders_valid:
  "store_refs s \<subseteq> A \<Longrightarrow> \<Union> (order_refs ` set (filter P (map snd (ref_orders s)))) \<subseteq> A"
  by (force simp: store_refs_def book_refs_def)

lemma CallOpenOrders_ok:
  assumes "store_refs s \<subseteq> {..<length h}"
  shows "call_ok CallOpenOrders s h (ref_call CallOpenOrders s h)"
proof -
  obtain rs h' where c: "clone_orders
      (filter (\<lambda>r. ref_Status r = StatusOpen) (map snd (ref_orders s))) h = (rs, h')"
    by fastforce
  then show ?thesis
    using clone_orders_spec [OF c orders_valid [OF assms]] assms
    by (auto simp: call_reads OpenOrders_def OpenOrders_ref_def read_sorted read_book_snd filter_map
        comp_def intro!: call_ok_readonly)
qed

lemma CallSnapshot_ok:
  assumes "store_refs s \<subseteq> {..<length h}"
  shows "call_ok CallSnapshot s h (ref_call CallSnapshot s h)"
proof -
  obtain rs h' where c: "clone_orders (map snd (ref_orders s)) h = (rs, h')"
    by fastforce
  then show ?thesis
    using clone_orders_spec [OF c] orders_valid [OF assms, of "\<lambda>_. True"] assms
    by (auto simp: call_reads Snapshot_def Snapshot_ref_def read_sorted read_book_snd
        intro!: call_ok_readonly)
qed

lemma CallPut_ok:
  assumes s: "store_refs s \<subseteq> {..<length h}" and r: "order_refs r \<subseteq> {..<length h}"
  shows "call_ok (CallPut now r) s h (ref_call (CallPut now r) s h)"
proof (cases "gm_get (ref_orders s) (ref_ID r) \<noteq> None \<or> ref_ID r = 0 \<or> ref_Status r \<noteq> StatusOpen
    \<or> \<not> isFixed_ref r h \<and> \<not> isTrailing_ref now s r")
  case True
  then show ?thesis
    by (auto simp: call_reads Put_def Put_ref_def intro!: call_ok_update)
next
  case False
  obtain r1 h1 where act: "(case (isTrailing_ref now s r, ref_latestPrice s) of
      (True, Some q) \<Rightarrow> (let (w, h1) = big_copy q h in (r\<lparr>ref_HighWatermark := Some w\<rparr>, h1))
      | _ \<Rightarrow> (r, h)) = (r1, h1)"
    by (meson surj_pair)
  have q: "q < length h" if "ref_latestPrice s = Some q" for q
    using s that by (simp add: store_refs_def)
  have 1: "grows h h1" "order_refs r1 \<subseteq> {..<length h1}" "ref_ID r1 = ref_ID r"
    "read_order h1 r1 = (if isTrailing_ref now s r \<and> ref_latestPrice s \<noteq> None
      then (read_order h r)\<lparr>HighWatermark := map_option ((!) h) (ref_latestPrice s)\<rparr>
      else read_order h r)"
    using act r q by (auto simp: big_copy_eq order_refs_def read_order_def
      split: bool.splits option.splits)
  obtain r2 h2 where c: "cloneOrder r1 h1 = (r2, h2)" by fastforce
  note spec = cloneOrder_spec [OF c 1(2)]
  have id2: "ref_ID r2 = ref_ID r"
    using c 1(3) by (auto simp: cloneOrder_def split: prod.splits)
  have g: "grows h h2" by (rule grows_trans [OF 1(1) spec(1)])
  have old: "read_store h2 s = read_store h s"
    by (rule read_store_agree [OF grows_agree [OF g s]])
  let ?s = "s\<lparr>ref_orders := gm_put (ref_ID r) r2 (ref_orders s)\<rparr>"
  have call: "ref_call (CallPut now r) s h = (AnsError None, ?s, h2)"
    using False act c id2 by (simp add: Put_ref_def)
  have book: "read_store h2 ?s
      = (read_store h s)\<lparr>orders := gm_put (ref_ID r) (read_order h1 r1) (orders (read_store h s))\<rparr>"
    using old spec(2) by (simp add: read_store_def)
  show ?thesis
    unfolding call
  proof (rule call_ok_update)
    show "answer_refs (AnsError None) = {}" by (simp add: answer_refs_def)
    show "grows h h2" by (rule g)
    show "store_refs ?s \<subseteq> store_refs s \<union> new_cells h h2"
      using spec(3) new_cells_mono(2) [OF 1(1) spec(1)] book_refs_put [of "ref_ID r" r2 "ref_orders s"]
      by (simp add: store_refs_def) blast
    show "run_call (read_call h (CallPut now r)) (read_store h s)
        = (read_answer h2 (AnsError None), read_store h2 ?s)"
      using False 1(3,4) unfolding book by (auto simp: call_reads Put_def Let_def)
  qed
qed

lemma CallObservePrice_ok:
  assumes s: "store_refs s \<subseteq> {..<length h}" and p: "set_option p \<subseteq> {..<length h}"
  shows "call_ok (CallObservePrice p at) s h (ref_call (CallObservePrice p at) s h)"
proof (cases "\<exists>q. p = Some q \<and> sgn (h ! q) > 0 \<and> \<not> time_IsZero at")
  case False
  then show ?thesis
    by (auto simp: call_reads ObservePrice_def ObservePrice_ref_def split: option.split
        intro!: call_ok_update)
next
  case True
  have "read_book (h @ xs) (ref_orders s) = read_book h (ref_orders s)" for xs
    using store_refs_book [OF s] by (intro read_book_agree grows_agree) simp_all
  with True show ?thesis
    by (auto simp: call_reads ObservePrice_def ObservePrice_ref_def big_copy_eq store_refs_def
        new_cells_def read_store_def intro!: call_ok_update)
qed

lemma CallTriggeredOrders_ok:
  assumes s: "store_refs s \<subseteq> {..<length h}" and p: "set_option p \<subseteq> {..<length h}"
  shows "call_ok (CallTriggeredOrders p) s h (ref_call (CallTriggeredOrders p) s h)"
proof (cases "\<exists>q. p = Some q \<and> \<not> sgn (h ! q) \<le> 0")
  case False
  then show ?thesis
    by (auto simp: call_reads TriggeredOrders_def TriggeredOrders_ref_def split: option.split
        intro!: call_ok_update)
next
  case True
  then obtain q where q: "p = Some q" "\<not> sgn (h ! q) \<le> 0" by blast
  obtain m hits h' where l: "trigger_loop_ref q (ref_orders s) h = (m, hits, h')"
    by (cases "trigger_loop_ref q (ref_orders s) h") auto
  have "q < length h" using p q(1) by simp
  note spec = trigger_loop_ref_spec [OF l store_refs_book [OF s] this]
  have latest: "set_option (ref_latestPrice s) \<subseteq> {..<length h}"
    using s by (simp add: store_refs_def)
  have "read_store h' (s\<lparr>ref_orders := m\<rparr>) = (read_store h s)\<lparr>orders := read_book h' m\<rparr>"
    using read_option_agree [OF grows_agree [OF conjunct1 [OF spec] latest]]
    by (simp add: read_store_def)
  moreover have "trigger_loop (h ! q) (read_book h (ref_orders s))
      = (read_book h' m, map (read_order h') hits)"
    using spec by simp
  moreover have "\<Union> (order_refs ` set hits) \<inter> (book_refs m \<union> set_option (ref_latestPrice s)) = {}"
    using spec new_cells_old [OF latest, of h'] by blast
  moreover have "grows h h'" "book_refs m \<subseteq> book_refs (ref_orders s) \<union> new_cells h h'"
    "\<Union> (order_refs ` set hits) \<subseteq> new_cells h h'"
    using spec by simp_all
  ultimately show ?thesis
    using q
    by (auto simp: call_ok_def call_reads TriggeredOrders_def TriggeredOrders_ref_def l read_sorted
        store_refs_def)
qed

lemma CallEffectiveTrigger_ok:
  assumes s: "store_refs s \<subseteq> {..<length h}"
  shows "call_ok (CallEffectiveTrigger i) s h (ref_call (CallEffectiveTrigger i) s h)"
proof (cases "gm_get (ref_orders s) i")
  case None
  then show ?thesis
    by (auto simp: call_reads EffectiveTrigger_def EffectiveTrigger_ref_def intro!: call_ok_update)
next
  case (Some r)
  have r: "order_refs r \<subseteq> {..<length h}" by (rule store_refs_get [OF s Some])
  show ?thesis
    using Some r by (cases "ref_TriggerPrice r"; cases "ref_HighWatermark r")
      (auto simp: call_reads EffectiveTrigger_def EffectiveTrigger_ref_def big_copy_eq trail_ref_eq
        order_refs_def new_cells_def intro!: call_ok_readonly [OF s])
qed

lemma ref_call_ok:
  assumes "store_refs s \<subseteq> {..<length h}" and "call_refs c \<subseteq> {..<length h}"
  shows "call_ok c s h (ref_call c s h)"
proof (cases c)
  case (CallSupportedPolicies now)
  then show ?thesis
    by (simp add: call_reads SupportedPolicies_def SupportedPolicies_ref_def call_ok_update)
qed (use assms in \<open>simp_all only: CallPut_ok CallGet_ok CallDelete_ok CallMarkExecuted_ok
      CallOpenOrders_ok CallSnapshot_ok CallObservePrice_ok CallTriggeredOrders_ok
      CallEffectiveTrigger_ok call_refs_def book_call.set Union_image_insert UN_insert UN_empty
      image_insert image_empty Union_insert Union_empty Un_empty_left Un_empty_right\<close>)

section \<open>The book among its callers\<close>

text \<open>
  A state is the book, the heap and the cells the callers know: those they allocated and those of
  every order and price the book has returned to them. They may write to any of these at any time,
  also long after the call; between two calls this is what the request handlers and the watcher
  could do to an order they hold.
\<close>

type_synonym heap_state = "StoreRef \<times> heap \<times> ptr set"

inductive heap_step :: "heap_state \<Rightarrow> heap_state \<Rightarrow> bool" where
  caller_new: "heap_step (s, h, K) (s, h @ [v], insert (length h) K)"
| caller_write: "p \<in> K \<Longrightarrow> heap_step (s, h, K) (s, h[p := v], K)"
| caller_call: "call_refs c \<subseteq> K \<Longrightarrow> ref_call c s h = (a, s', h')
    \<Longrightarrow> heap_step (s, h, K) (s', h', K \<union> answer_refs a)"

inductive_cases heap_stepE: "heap_step (s, h, K) t"

definition heap_init :: "heap_state \<Rightarrow> bool" where
  "heap_init t \<longleftrightarrow> t = (NewStore_ref, [], {})"

definition heap_inv :: "heap_state \<Rightarrow> bool" where
  "heap_inv t \<longleftrightarrow> (case t of (s, h, K) \<Rightarrow> store_refs s \<subseteq> {..<length h} \<and> K \<subseteq> {..<length h}
     \<and> store_refs s \<inter> K = {} \<and> reach (\<lambda>s. s = NewStore) store_step (read_store h s))"

lemma run_call_state:
  "snd (run_call c s) = (case c of
       CallPut now o1 \<Rightarrow> apply_store_op (OpPut now o1) s
     | CallDelete i \<Rightarrow> apply_store_op (OpDelete i) s
     | CallMarkExecuted i \<Rightarrow> apply_store_op (OpMark i) s
     | CallObservePrice p at \<Rightarrow> apply_store_op (OpObserve p at) s
     | CallTriggeredOrders p \<Rightarrow> apply_store_op (OpTrigger p) s
     | _ \<Rightarrow> s)"
  by (cases c) (auto split: sum.split prod.split)

lemma run_call_reach:
  "reach init store_step s \<Longrightarrow> reach init store_step (snd (run_call c s))"
  unfolding run_call_state
  by (cases c) (auto simp del: apply_store_op.simps intro: reach_step store_step.intros)

lemma caller_write_unseen:
  "store_refs s \<inter> K = {} \<Longrightarrow> p \<in> K \<Longrightarrow> read_store (h[p := v]) s = read_store h s"
  by (rule read_store_agree) (auto simp: agree_on_def intro!: nth_list_update_neq)

lemma heap_inv_call:
  assumes inv: "heap_inv (s, h, K)" and c: "call_refs c \<subseteq> K" and call: "ref_call c s h = (a, s', h')"
  shows "heap_inv (s', h', K \<union> answer_refs a)"
    and "run_call (read_call h c) (read_store h s) = (read_answer h' a, read_store h' s')"
proof -
  have K: "store_refs s \<subseteq> {..<length h}" "K \<subseteq> {..<length h}" "store_refs s \<inter> K = {}"
    and book: "reach (\<lambda>s. s = NewStore) store_step (read_store h s)"
    using inv by (simp_all add: heap_inv_def)
  have "call_ok c s h (a, s', h')"
    using ref_call_ok [OF K(1) subset_trans [OF c K(2)]] call by simp
  then have ok: "grows h h'" "store_refs s' \<subseteq> store_refs s \<union> new_cells h h'"
      "answer_refs a \<subseteq> new_cells h h'" "answer_refs a \<inter> store_refs s' = {}"
    and run: "run_call (read_call h c) (read_store h s) = (read_answer h' a, read_store h' s')"
    by (simp_all add: call_ok_def)
  show "run_call (read_call h c) (read_store h s) = (read_answer h' a, read_store h' s')"
    by (rule run)
  have "reach (\<lambda>s. s = NewStore) store_step (read_store h' s')"
    using run_call_reach [OF book, of "read_call h c"] run by simp
  moreover have "store_refs s' \<inter> (K \<union> answer_refs a) = {}"
    using ok K(3) new_cells_old [OF K(2), of h'] by blast
  moreover have "store_refs s' \<subseteq> {..<length h'}"
    using ok(2) valid_grows [OF K(1) ok(1)] new_cells_valid [of h h'] by blast
  moreover have "K \<union> answer_refs a \<subseteq> {..<length h'}"
    using ok(3) valid_grows [OF K(2) ok(1)] new_cells_valid [of h h'] by blast
  ultimately show "heap_inv (s', h', K \<union> answer_refs a)"
    by (simp add: heap_inv_def)
qed

lemma heap_inv_new: "heap_inv (s, h, K) \<Longrightarrow> heap_inv (s, h @ [v], insert (length h) K)"
  using read_store_agree [OF grows_agree [OF grows_append]]
  by (fastforce simp: heap_inv_def)

lemma heap_inv_write: "heap_inv (s, h, K) \<Longrightarrow> p \<in> K \<Longrightarrow> heap_inv (s, h[p := v], K)"
  using caller_write_unseen [of s K p h v] by (simp add: heap_inv_def)

lemma heap_inv_step: "heap_inv t \<Longrightarrow> heap_step t t' \<Longrightarrow> heap_inv t'"
  by (cases t) (auto elim!: heap_stepE intro: heap_inv_new heap_inv_write heap_inv_call(1))

lemma heap_inv_init: "heap_init t \<Longrightarrow> heap_inv t"
  by (auto simp: heap_init_def heap_inv_def NewStore_ref_def NewStore_def read_store_def read_book_def
      store_refs_def book_refs_def intro!: reach_init)

interpretation heap_machine: inv_machine heap_init heap_step heap_inv
  by unfold_locales (fact heap_inv_init, fact heap_inv_step)

text \<open>C7. The copies the book makes are enough. Let callers allocate integers, call any method with
  pointers of theirs, keep every pointer they passed or got back and write through them at will: in
  every state the book shares no cell with them, what it holds is a book the value model reaches,
  the next call answers and leaves behind exactly what the value model says, and a write through
  any of the callers' pointers leaves it as it was.\<close>

theorem pointer_book_refines:
  "reach heap_init heap_step (s, h, K) \<Longrightarrow>
     store_refs s \<inter> K = {} \<and> reach (\<lambda>s. s = NewStore) store_step (read_store h s)
     \<and> (\<forall>c. call_refs c \<subseteq> K \<longrightarrow> (case ref_call c s h of (a, s', h') \<Rightarrow>
          run_call (read_call h c) (read_store h s) = (read_answer h' a, read_store h' s')))
     \<and> (\<forall>p \<in> K. \<forall>v. read_store (h[p := v]) s = read_store h s)"
proof -
  assume "reach heap_init heap_step (s, h, K)"
  then have inv: "heap_inv (s, h, K)" by (rule heap_machine.inv_reach)
  then show ?thesis
    using heap_inv_call(2) [OF inv] caller_write_unseen [of s K _ h]
    by (auto simp: heap_inv_def split: prod.split)
qed

text \<open>A caller places a fixed order with the cell 0 and overwrites the cell.\<close>

definition sample_ref :: OrderRef where
  "sample_ref = \<lparr>ref_ID = 3, ref_TriggerPrice = Some 0, ref_TrailBps = 0, ref_HighWatermark = None,
     ref_Status = StatusOpen\<rparr>"

definition sample_book :: StoreRef where
  "sample_book = \<lparr>ref_orders = [(3, sample_ref\<lparr>ref_TriggerPrice := Some 1\<rparr>)],
     ref_latestPrice = None, ref_latestAt = zero_time\<rparr>"

theorem pointer_book_refines_witness:
  "store_refs sample_book \<inter> {0} = {}
     \<and> reach (\<lambda>s. s = NewStore) store_step (read_store [9, 5] sample_book)
     \<and> (case ref_call (CallTriggeredOrders (Some 0)) sample_book [9, 5] of (a, s', h') \<Rightarrow>
          run_call (read_call [9, 5] (CallTriggeredOrders (Some 0))) (read_store [9, 5] sample_book)
            = (read_answer h' a, read_store h' s'))
     \<and> read_store ([9, 5][0 := 7]) sample_book = read_store [9, 5] sample_book"
proof -
  have 1: "reach heap_init heap_step (NewStore_ref, [] @ [5], insert (length ([] :: heap)) {})"
    by (rule reach_step, rule reach_init, simp add: heap_init_def, rule caller_new)
  have "ref_call (CallPut 0 sample_ref) NewStore_ref [5] = (AnsError None, sample_book, [5, 5])"
    by (simp add: Put_ref_def sample_ref_def sample_book_def NewStore_ref_def isFixed_ref_def
        isTrailing_ref_def big_BitLen_le cloneOrder_def big_copy_eq gm_put_def Let_def)
  then have "heap_step (NewStore_ref, [5], {0})
      (sample_book, [5, 5], {0} \<union> answer_refs (AnsError None))"
    by (rule caller_call [rotated]) (simp add: call_refs_def order_refs_def sample_ref_def)
  then have 2: "reach heap_init heap_step (sample_book, [5, 5], {0})"
    using reach_step [OF 1] by (simp add: answer_refs_def)
  have "heap_step (sample_book, [5, 5], {0}) (sample_book, [5, 5][0 := 9], {0})"
    by (rule caller_write) simp
  then have reached: "reach heap_init heap_step (sample_book, [9, 5], {0})"
    using reach_step [OF 2] by simp
  note facts = pointer_book_refines [OF reached]
  have call: "call_refs (CallTriggeredOrders (Some 0)) \<subseteq> {0}" by (simp add: call_refs_def)
  show ?thesis
    using facts [THEN conjunct1] facts [THEN conjunct2, THEN conjunct1]
      facts [THEN conjunct2, THEN conjunct2, THEN conjunct1, rule_format, OF call]
      facts [THEN conjunct2, THEN conjunct2, THEN conjunct2, rule_format, of 0 7]
    by (simp only: singleton_iff)
qed

end
