(* ===== verification/Types_Server.thy ===== *)
theory Types_Server
  imports Msg_Types Config
begin

text \<open>
  \<open>internal/typesserver/server.go\<close> with \<open>pkg/server/typesserver.go\<close>: the HTTP handlers that decode
  payloads for other services. A handler maps the request body to a status code and the value it
  writes as JSON. \<open>hexutil.Decode\<close> of go-ethereum is an argument.
\<close>

record decodeRequest =
  ReqOPType :: string
  ReqOPCommand :: string
  ReqKind :: string
  ReqData :: string

datatype response_body = DecodedBody decoded | ErrorBody string | RegistryBody "RegistryKey list"
  | HealthBody string string

definition StatusOK :: nat where "StatusOK = 200"
definition StatusBadRequest :: nat where "StatusBadRequest = 400"
definition StatusNotFound :: nat where "StatusNotFound = 404"
definition StatusUnprocessableEntity :: nat where "StatusUnprocessableEntity = 422"

definition decode_request_of_json :: "json \<Rightarrow> decodeRequest option" where
  "decode_request_of_json v =
     (case string_fields [''opType'', ''opCommand'', ''kind'', ''data''] v of
        None \<Rightarrow> None
      | Some f \<Rightarrow> Some \<lparr>ReqOPType = f ''opType'', ReqOPCommand = f ''opCommand'', ReqKind = f ''kind'',
          ReqData = f ''data''\<rparr>)"

text \<open>The first JSON value of the body; what follows it is not read. A body that is not one gives
  the cause, of which syntax and type errors are told apart by their kind only.\<close>

definition read_request :: "bytes \<Rightarrow> string + decodeRequest" where
  "read_request body = (case dec_Decode (NewDecoder body) of
     Inl DecEOF \<Rightarrow> Inl ''EOF''
   | Inl DecSyntax \<Rightarrow> Inl ''invalid JSON''
   | Inr (v, _) \<Rightarrow> (case decode_request_of_json v of
       None \<Rightarrow> Inl ''cannot unmarshal'' | Some req \<Rightarrow> Inr req))"

definition handleDecode ::
    "(string \<Rightarrow> string + bytes) \<Rightarrow> decoded Registry \<Rightarrow> bytes \<Rightarrow> nat \<times> response_body" where
  "handleDecode hexutil_Decode r body = (case read_request body of
     Inl m \<Rightarrow> (StatusBadRequest, ErrorBody (''invalid request body: '' @ m))
   | Inr req \<Rightarrow> (let kind = data_kind (ReqKind req) in
      if kind \<noteq> KindMessage \<and> kind \<noteq> KindResult
      then (StatusBadRequest, ErrorBody (''kind must be '' @ quoted ''message'' @ '' or '' @ quoted ''result''))
      else (case hexutil_Decode (ReqData req) of
          Inl m \<Rightarrow> (StatusBadRequest, ErrorBody (''invalid hex data: '' @ m))
        | Inr data \<Rightarrow> (case Lookup (ReqOPType req) (ReqOPCommand req) kind r of
            Inl m \<Rightarrow> (StatusNotFound, ErrorBody m)
          | Inr dec \<Rightarrow> (case dec data of
              Inl m \<Rightarrow> (StatusUnprocessableEntity, ErrorBody (''decode failed: '' @ m))
            | Inr v \<Rightarrow> (StatusOK, DecodedBody v))))))"

definition handleRegistry :: "decoded Registry \<Rightarrow> nat \<times> response_body" where
  "handleRegistry r = (StatusOK, RegistryBody (Keys r))"

definition handleHealth :: "nat \<times> response_body" where
  "handleHealth = (StatusOK, HealthBody ''ok'' Version)"

text \<open>\<open>StartTypesServer\<close> serves the decoders of \<open>RegisterDecoders\<close>.\<close>

definition types_registry :: "abi_lib \<Rightarrow> decoded Registry" where
  "types_registry L = RegisterDecoders L NewRegistry"

section \<open>Routes\<close>

text \<open>A \<open>http.ServeMux\<close> is the list of its patterns, a method and a path, with their handlers. A
  pattern for GET also matches HEAD; a known path with another method is answered with 405. Paths
  are clean, so the redirects of the mux do not occur.\<close>

datatype mux_handler = ServeDecode | ServeRegistry | ServeHealth

type_synonym serve_mux = "((string \<times> string) \<times> mux_handler) list"

record types_server =
  srv_registry :: "decoded Registry"
  srv_mux :: serve_mux

definition New :: "decoded Registry \<Rightarrow> types_server" where
  "New registry = \<lparr>srv_registry = registry, srv_mux = [((''POST'', ''/decode''), ServeDecode),
     ((''GET'', ''/registry''), ServeRegistry), ((''GET'', ''/health''), ServeHealth)]\<rparr>"

definition mux_Handler :: "serve_mux \<Rightarrow> string \<Rightarrow> string \<Rightarrow> nat + mux_handler" where
  "mux_Handler mux meth path =
     (case find (\<lambda>((m, p), _). p = path \<and> (m = meth \<or> m = ''GET'' \<and> meth = ''HEAD'')) mux of
        Some (_, h) \<Rightarrow> Inr h
      | None \<Rightarrow> Inl (if path \<in> set (map (snd \<circ> fst) mux) then 405 else StatusNotFound))"

fun serve_handler :: "(string \<Rightarrow> string + bytes) \<Rightarrow> types_server \<Rightarrow> mux_handler \<Rightarrow> bytes
    \<Rightarrow> nat \<times> response_body" where
  "serve_handler hexutil_Decode s ServeDecode body = handleDecode hexutil_Decode (srv_registry s) body"
| "serve_handler hexutil_Decode s ServeRegistry body = handleRegistry (srv_registry s)"
| "serve_handler hexutil_Decode s ServeHealth body = handleHealth"

definition StartTypesServer :: "abi_lib \<Rightarrow> types_server" where
  "StartTypesServer L = New (types_registry L)"

text \<open>The standalone program: the port it listens on and what it serves there.\<close>

definition types_server_main :: "settings \<Rightarrow> abi_lib \<Rightarrow> int \<times> types_server" where
  "types_server_main cfg L = (TypesServerPort cfg, New (RegisterDecoders L NewRegistry))"

lemma types_server_main_same: "snd (types_server_main cfg L) = StartTypesServer L"
  by (simp add: types_server_main_def StartTypesServer_def types_registry_def)

section \<open>Requests of a client\<close>

definition request_body :: "string \<Rightarrow> string \<Rightarrow> string \<Rightarrow> string \<Rightarrow> bytes" where
  "request_body t c k d = CHR ''{'' # json_field ''opType'' (quoted t) @ CHR '','' #
     json_field ''opCommand'' (quoted c) @ CHR '','' # json_field ''kind'' (quoted k) @ CHR '','' #
     json_field ''data'' (quoted d) @ ''}''"

lemma plain_request_names: "list_all plain ''opType''" "list_all plain ''opCommand''"
  "list_all plain ''kind''" "list_all plain ''data''"
  by (simp_all add: plain_def code_def)

lemma parse_request:
  assumes "list_all plain t" and "list_all plain c" and "list_all plain k" and "list_all plain d"
  shows "parse_value (json_fuel (request_body t c k d)) (request_body t c k d) =
    Some (JObj [(''opType'', JStr t), (''opCommand'', JStr c), (''kind'', JStr k), (''data'', JStr d)], [])"
  unfolding request_body_def
  by (rule parse_object_fuel)
    (simp add: plain_request_names [THEN parse_member_field] assms [THEN parse_quoted])

lemma fold_request_names: "fold_key ''opType'' = ''OPTYPE''" "fold_key ''opCommand'' = ''OPCOMMAND''"
  "fold_key ''kind'' = ''KIND''" "fold_key ''data'' = ''DATA''"
  by (simp_all add: code_def byte_def char_of_def bit_Suc_0_iff)

lemma decode_request_fields:
  "decode_request_of_json (JObj [(''opType'', JStr t), (''opCommand'', JStr c), (''kind'', JStr k),
     (''data'', JStr d)]) = Some \<lparr>ReqOPType = t, ReqOPCommand = c, ReqKind = k, ReqData = d\<rparr>"
  by (simp add: decode_request_of_json_def string_fields_def set_string_field_def fold_request_names
      del: fold_key.simps)

lemma read_request_body:
  assumes "list_all plain t" and "list_all plain c" and "list_all plain k" and "list_all plain d"
  shows "read_request (request_body t c k d) =
    Inr \<lparr>ReqOPType = t, ReqOPCommand = c, ReqKind = k, ReqData = d\<rparr>"
  by (simp add: read_request_def dec_value_top NewDecoder_def parse_request [OF assms]
      decode_request_fields)

lemma types_registry_lookup:
  "Lookup ''DARKSTOP'' ''PLACE_ORDER'' KindMessage (types_registry L) = Inr (funcDecoder (DecodePlaceOrder L) DecodedPlace)"
  "Lookup ''DARKSTOP'' ''CANCEL_ORDER'' KindMessage (types_registry L) = Inr (funcDecoder (DecodeCancelOrder L) DecodedCancel)"
  "Lookup ''DARKSTOP'' ''PLACE_ORDER'' KindResult (types_registry L) = Inr (JSONDecoder_Decode order_response_of_json)"
  "Lookup ''DARKSTOP'' ''CANCEL_ORDER'' KindResult (types_registry L) = Inr (JSONDecoder_Decode order_response_of_json)"
  by (simp_all add: types_registry_def RegisterDecoders_def Lookup_def Register_def)

lemma types_registry_missing:
  "k \<in> {KindMessage, KindResult} \<Longrightarrow> (\<exists>er. Lookup t c k (types_registry L) = Inl er)
    \<longleftrightarrow> (t, c) \<notin> {(''DARKSTOP'', ''PLACE_ORDER''), (''DARKSTOP'', ''CANCEL_ORDER'')}"
  by (auto simp: types_registry_def RegisterDecoders_def Lookup_def Register_def NewRegistry_def)

text \<open>\<open>POST /decode\<close> of a payload in hexadecimal answers what the typed decoder of the extension
  finds: a PLACE_ORDER message gives the decoded request with status 200 or status 422 with the
  decoder's error, and an operation gets status 404 exactly when it is none of the two the
  extension has. The hypothesis is the documented inverse of \<open>hexutil.Encode\<close>.\<close>

theorem types_server_answers:
  assumes "\<And>bs. hexutil_Decode (''0x'' @ hex_encode bs) = Inr bs"
    and "list_all plain t" and "list_all plain c"
  shows "handleDecode hexutil_Decode (types_registry L)
        (request_body ''DARKSTOP'' ''PLACE_ORDER'' ''message'' (''0x'' @ hex_encode d))
      = (case DecodePlaceOrder L d of
           Inr req \<Rightarrow> (StatusOK, DecodedBody (DecodedPlace req))
         | Inl er \<Rightarrow> (StatusUnprocessableEntity, ErrorBody (''decode failed: '' @ decode_error_text er)))
    \<and> (fst (handleDecode hexutil_Decode (types_registry L)
          (request_body t c ''message'' (''0x'' @ hex_encode d))) = StatusNotFound
       \<longleftrightarrow> (t, c) \<notin> {(''DARKSTOP'', ''PLACE_ORDER''), (''DARKSTOP'', ''CANCEL_ORDER'')})"
proof -
  have names: "list_all plain ''DARKSTOP''" "list_all plain ''PLACE_ORDER''" "list_all plain ''message''"
    "list_all plain (''0x'' @ hex_encode d)"
    using hex_encode_plain [of d] by (simp_all add: plain_def code_def)
  have read: "read_request (request_body t c ''message'' (''0x'' @ hex_encode d)) =
      Inr \<lparr>ReqOPType = t, ReqOPCommand = c, ReqKind = ''message'', ReqData = ''0x'' @ hex_encode d\<rparr>"
    if "list_all plain t" "list_all plain c" for t c
    using that names(3,4) by (rule read_request_body)
  have kind: "data_kind ''message'' = KindMessage" by (simp add: data_kind_def)
  have first: "handleDecode hexutil_Decode (types_registry L)
        (request_body ''DARKSTOP'' ''PLACE_ORDER'' ''message'' (''0x'' @ hex_encode d))
      = (case DecodePlaceOrder L d of
           Inr req \<Rightarrow> (StatusOK, DecodedBody (DecodedPlace req))
         | Inl er \<Rightarrow> (StatusUnprocessableEntity, ErrorBody (''decode failed: '' @ decode_error_text er)))"
    unfolding handleDecode_def read [OF names(1,2)]
    by (simp add: assms(1) kind types_registry_lookup funcDecoder_def del: append.simps split: sum.split)
  have "fst (handleDecode hexutil_Decode (types_registry L)
          (request_body t c ''message'' (''0x'' @ hex_encode d))) = StatusNotFound
      \<longleftrightarrow> (\<exists>er. Lookup t c KindMessage (types_registry L) = Inl er)"
    unfolding handleDecode_def read [OF assms(2,3)]
    by (simp add: assms(1) kind StatusNotFound_def StatusOK_def StatusUnprocessableEntity_def
        del: append.simps split: sum.split)
  with first types_registry_missing [of KindMessage t c L] show ?thesis by simp
qed

theorem types_server_answers_witness:
  "handleDecode (\<lambda>s. case hex_decode (drop 2 s) of Some b \<Rightarrow> Inr b | None \<Rightarrow> Inl ''hex'')
      (types_registry tiny_abi)
      (request_body ''DARKSTOP'' ''PLACE_ORDER'' ''message'' (''0x'' @ hex_encode (byte 7 # ''ct'')))
    = (StatusOK, DecodedBody (DecodedPlace \<lparr>PlaceOrderID = 7, Ciphertext = ''ct''\<rparr>))"
proof -
  have "DecodePlaceOrder tiny_abi (byte 7 # ''ct'') = Inr \<lparr>PlaceOrderID = 7, Ciphertext = ''ct''\<rparr>"
    by (simp add: DecodePlaceOrder_def unpackStrict_def tiny_abi_def PlaceOrderMessageArgs_def)
  then show ?thesis
    using types_server_answers [of "\<lambda>s. case hex_decode (drop 2 s) of Some b \<Rightarrow> Inr b | None \<Rightarrow> Inl ''hex''"
        "''a''" "''b''" tiny_abi "byte 7 # ''ct''"]
    by (simp add: plain_def code_def)
qed

end
