(* ===== verification/Report.thy ===== *)
theory Report
  imports Go_Fmt Go_Prelude
begin

text \<open>
  The verification report of the deployment tools, \<open>tools/pkg/validate/report.go\<close>: the results of
  the checks, their summary, the coloured text grouped by step, and the JSON text. A writer is the
  text it receives. Only the four constants of \<open>Status\<close> are ever created, so its default
  branches have no counterpart.
\<close>

section \<open>Results\<close>

datatype Status = PASS | WARN | FAIL | SKIP

fun Status_String :: "Status \<Rightarrow> string" where
  "Status_String PASS = ''PASS''"
| "Status_String WARN = ''WARN''"
| "Status_String FAIL = ''FAIL''"
| "Status_String SKIP = ''SKIP''"

record CheckResult =
  Step :: string
  ID :: string
  Name :: string
  ResultStatus :: Status
  Message :: string
  Fix :: string

record Report =
  Results :: "CheckResult list"

definition Add :: "CheckResult \<Rightarrow> Report \<Rightarrow> Report" where
  "Add result r = r\<lparr>Results := Results r @ [result]\<rparr>"

fun has_failures :: "CheckResult list \<Rightarrow> bool" where
  "has_failures [] = False"
| "has_failures (res # rs) = (if ResultStatus res = FAIL then True else has_failures rs)"

definition HasFailures :: "Report \<Rightarrow> bool" where
  "HasFailures r = has_failures (Results r)"

text \<open>The four counters of the summary loop.\<close>

fun tally :: "CheckResult list \<Rightarrow> nat \<times> nat \<times> nat \<times> nat \<Rightarrow> nat \<times> nat \<times> nat \<times> nat" where
  "tally [] c = c"
| "tally (res # rs) (passed, warning, failed, skipped) = tally rs (case ResultStatus res of
     PASS \<Rightarrow> (passed + 1, warning, failed, skipped)
   | WARN \<Rightarrow> (passed, warning + 1, failed, skipped)
   | FAIL \<Rightarrow> (passed, warning, failed + 1, skipped)
   | SKIP \<Rightarrow> (passed, warning, failed, skipped + 1))"

definition Summary :: "Report \<Rightarrow> string" where
  "Summary r = (case tally (Results r) (0, 0, 0, 0) of (passed, warning, failed, skipped) \<Rightarrow>
     format_nat passed @ '' passed, '' @ format_nat warning @ '' warning, ''
     @ format_nat failed @ '' failed, '' @ format_nat skipped @ '' skipped'')"

section \<open>The coloured text\<close>

definition colorReset :: string where
  "colorReset = CHR 0x1B # ''[0m''"

definition colorCyan :: string where
  "colorCyan = CHR 0x1B # ''[36m''"

fun statusColor :: "Status \<Rightarrow> string" where
  "statusColor PASS = CHR 0x1B # ''[32m''"
| "statusColor WARN = CHR 0x1B # ''[33m''"
| "statusColor FAIL = CHR 0x1B # ''[31m''"
| "statusColor SKIP = CHR 0x1B # ''[90m''"

definition stepLabel :: "(string, string) gomap" where
  "stepLabel = [(''deploy'', ''Contract Deployment''), (''register'', ''Extension Registration''),
     (''services'', ''Service Startup''), (''tee-version'', ''TEE Version Registration''),
     (''tee-machine'', ''TEE Machine Registration''), (''test'', ''Testing'')]"

definition label_of :: "string \<Rightarrow> string" where
  "label_of step = (case gm_get stepLabel step of Some l \<Rightarrow> if l = [] then step else l | None \<Rightarrow> step)"

text \<open>The steps in order of first appearance; \<open>seen\<close> is the set of the loop.\<close>

fun collect_steps :: "string list \<Rightarrow> CheckResult list \<Rightarrow> string list" where
  "collect_steps seen [] = []"
| "collect_steps seen (res # rs) = (if Step res \<in> set seen then collect_steps seen rs
     else Step res # collect_steps (Step res # seen) rs)"

definition result_text :: "CheckResult \<Rightarrow> string" where
  "result_text res = ''  '' @ statusColor (ResultStatus res) @ ''['' @ Status_String (ResultStatus res)
       @ '']'' @ colorReset @ '' '' @ ID res @ ''  '' @ Name res @ nl
     @ (if ResultStatus res = FAIL \<or> ResultStatus res = WARN
        then (if Message res \<noteq> [] then ''         '' @ Message res @ nl else [])
           @ (if Fix res \<noteq> [] then ''         Fix: '' @ Fix res @ nl else [])
        else [])"

definition step_results :: "string \<Rightarrow> CheckResult list \<Rightarrow> CheckResult list" where
  "step_results step rs = filter (\<lambda>res. Step res = step) rs"

definition step_text :: "Report \<Rightarrow> string \<Rightarrow> string" where
  "step_text r step = label_of step @ '':'' @ nl
     @ concat (map result_text (step_results step (Results r))) @ nl"

definition Fprint :: "Report \<Rightarrow> string" where
  "Fprint r = nl @ colorCyan @ ''=== Deployment Verification Report ==='' @ colorReset @ nl @ nl
     @ concat (map (step_text r) (collect_steps [] (Results r))) @ Summary r @ nl"

section \<open>The JSON text\<close>

record jsonResult =
  jr_step :: string
  jr_id :: string
  jr_name :: string
  jr_status :: string
  jr_message :: string
  jr_fix :: string

record jsonReport =
  jrep_results :: "jsonResult list"
  jrep_summary :: string

definition to_jsonResult :: "CheckResult \<Rightarrow> jsonResult" where
  "to_jsonResult res = \<lparr>jr_step = Step res, jr_id = ID res, jr_name = Name res,
     jr_status = Status_String (ResultStatus res), jr_message = TrimSpace (Message res),
     jr_fix = TrimSpace (Fix res)\<rparr>"

text \<open>The members the encoder writes: \<open>message\<close> and \<open>fix\<close> are omitted when empty.\<close>

definition result_members :: "jsonResult \<Rightarrow> (string \<times> string) list" where
  "result_members x = [(''step'', jr_step x), (''id'', jr_id x), (''name'', jr_name x), (''status'', jr_status x)]
     @ (if jr_message x \<noteq> [] then [(''message'', jr_message x)] else [])
     @ (if jr_fix x \<noteq> [] then [(''fix'', jr_fix x)] else [])"

definition jsonResult_text :: "jsonResult \<Rightarrow> bytes" where
  "jsonResult_text x = object_text 4 (map (apsnd json_string) (result_members x))"

definition FprintJSON :: "Report \<Rightarrow> bytes" where
  "FprintJSON r = (let jr = \<lparr>jrep_results = map to_jsonResult (Results r), jrep_summary = Summary r\<rparr>
     in object_text 0 [(''results'', array_text 2 (map jsonResult_text (jrep_results jr))),
          (''summary'', json_string (jrep_summary jr))] @ nl)"

section \<open>The summary\<close>

definition count_status :: "Status \<Rightarrow> CheckResult list \<Rightarrow> nat" where
  "count_status st rs = length (filter (\<lambda>res. ResultStatus res = st) rs)"

lemma tally_counts: "tally rs (p, w, f, s) = (p + count_status PASS rs, w + count_status WARN rs,
    f + count_status FAIL rs, s + count_status SKIP rs)"
  by (induction rs arbitrary: p w f s) (auto simp: count_status_def split: Status.split)

lemma count_status_sum: "count_status PASS rs + count_status WARN rs + count_status FAIL rs
    + count_status SKIP rs = length rs"
proof (induction rs)
  case (Cons res rs)
  then show ?case by (cases "ResultStatus res") (simp_all add: count_status_def)
qed (simp add: count_status_def)

lemma has_failures_iff: "has_failures rs \<longleftrightarrow> FAIL \<in> ResultStatus ` set rs"
  by (induction rs) auto

lemma has_failures_append [simp]: "has_failures (rs @ ss) \<longleftrightarrow> has_failures rs \<or> has_failures ss"
  by (auto simp: has_failures_iff)

text \<open>The summary counts every result once under its status: the four numbers it prints add up to
  the number of results, and the failed one is zero exactly when \<open>HasFailures\<close> is false.
\<close>

theorem summary_counts_results:
  "Summary r = format_nat (count_status PASS (Results r)) @ '' passed, ''
      @ format_nat (count_status WARN (Results r)) @ '' warning, ''
      @ format_nat (count_status FAIL (Results r)) @ '' failed, ''
      @ format_nat (count_status SKIP (Results r)) @ '' skipped''
    \<and> count_status PASS (Results r) + count_status WARN (Results r) + count_status FAIL (Results r)
      + count_status SKIP (Results r) = length (Results r)
    \<and> (HasFailures r \<longleftrightarrow> count_status FAIL (Results r) \<noteq> 0)"
  by (intro conjI count_status_sum)
    (auto simp: Summary_def tally_counts HasFailures_def has_failures_iff count_status_def filter_empty_conv
      image_iff eq_commute [of FAIL])

section \<open>The grouping\<close>

lemma collect_steps_set: "set (collect_steps seen rs) = Step ` set rs - set seen"
  by (induction rs arbitrary: seen) auto

lemma collect_steps_distinct: "distinct (collect_steps seen rs)"
  by (induction rs arbitrary: seen) (auto simp: collect_steps_set)

lemma collect_steps_order:
  "collect_steps seen rs = filter (\<lambda>s. s \<notin> set seen) (rev (remdups (rev (map Step rs))))"
proof (induction rs arbitrary: seen)
  case (Cons res rs)
  have "rev (remdups (xs @ [y])) = y # filter (\<lambda>s. s \<noteq> y) (rev (remdups xs))" for xs and y :: string
    by (induction xs) auto
  then have "rev (remdups (rev (map Step (res # rs)))) = Step res # filter (\<lambda>s. s \<noteq> Step res) (rev (remdups (rev (map Step rs))))"
    by simp
  then show ?case by (auto simp: Cons.IH intro: filter_cong)
qed simp

lemma filter_mset_or: "(\<And>x. \<not> (P x \<and> Q x)) \<Longrightarrow>
    filter_mset (\<lambda>x. P x \<or> Q x) M = filter_mset P M + filter_mset Q M"
  by (induction M) auto

lemma groups_partition:
  "distinct ss \<Longrightarrow> mset (concat (map (\<lambda>s. step_results s rs) ss)) = filter_mset (\<lambda>res. Step res \<in> set ss) (mset rs)"
proof (induction ss)
  case (Cons s ss)
  then show ?case
    using filter_mset_or [of "\<lambda>res. Step res = s" "\<lambda>res. Step res \<in> set ss" "mset rs"]
    by (auto simp: step_results_def)
qed simp

lemma groups_all: "mset (concat (map (\<lambda>s. step_results s rs) (collect_steps [] rs))) = mset rs"
  using groups_partition [OF collect_steps_distinct, of rs "[]" rs]
  by (simp add: collect_steps_set filter_mset_eq_conv)

text \<open>The coloured report shows every result exactly once. Its body is one section per step, the
  steps in the order of their first appearance and no step twice; a section holds the results of
  its step in the order they were added; and the sections together hold all results.
\<close>

theorem Fprint_shows_each_once:
  "\<exists>groups. Fprint r = nl @ colorCyan @ ''=== Deployment Verification Report ==='' @ colorReset @ nl @ nl
       @ concat (map (\<lambda>(s, rs). label_of s @ '':'' @ nl @ concat (map result_text rs) @ nl) groups)
       @ Summary r @ nl
     \<and> map fst groups = rev (remdups (rev (map Step (Results r))))
     \<and> map snd groups = map (\<lambda>s. filter (\<lambda>res. Step res = s) (Results r)) (map fst groups)
     \<and> mset (concat (map snd groups)) = mset (Results r)"
proof (intro exI conjI)
  let ?g = "map (\<lambda>s. (s, step_results s (Results r))) (collect_steps [] (Results r))"
  show "Fprint r = nl @ colorCyan @ ''=== Deployment Verification Report ==='' @ colorReset @ nl @ nl
       @ concat (map (\<lambda>(s, rs). label_of s @ '':'' @ nl @ concat (map result_text rs) @ nl) ?g)
       @ Summary r @ nl"
    by (simp add: Fprint_def step_text_def [abs_def] comp_def)
  show "map fst ?g = rev (remdups (rev (map Step (Results r))))"
    by (simp add: comp_def collect_steps_order)
  show "map snd ?g = map (\<lambda>s. filter (\<lambda>res. Step res = s) (Results r)) (map fst ?g)"
    by (simp add: comp_def step_results_def)
  show "mset (concat (map snd ?g)) = mset (Results r)"
    by (simp add: comp_def groups_all)
qed

section \<open>The JSON text reads back\<close>

definition json_of_result :: "CheckResult \<Rightarrow> json" where
  "json_of_result res = JObj (map (\<lambda>(k, v). (k, JStr (to_valid_utf8 v))) (result_members (to_jsonResult res)))"

lemma members_plain: "list_all (\<lambda>(k, v). list_all plain k) (result_members x)"
  by (simp add: result_members_def plain_def code_def)

lemma text_of_result: "text_of 8 (jsonResult_text (to_jsonResult res)) (json_of_result res)"
proof -
  let ?kvs = "result_members (to_jsonResult res)"
  have len: "length ?kvs \<le> 6" and ne: "?kvs \<noteq> []" by (simp_all add: result_members_def)
  have "list_all (\<lambda>((k, v), j). list_all plain k \<and> text_of 1 v j)
      (zip (map (apsnd json_string) kvs) (map (\<lambda>(k, v). JStr (to_valid_utf8 v)) kvs))"
    if "list_all (\<lambda>(k, v). list_all plain k) kvs" for kvs
    using that by (induction kvs) (auto simp: text_of_string [simplified])
  from text_of_object [OF _ this [OF members_plain], of "to_jsonResult res" 4]
  have "text_of (1 + length ?kvs + 1) (jsonResult_text (to_jsonResult res))
      (JObj (zip (map fst (map (apsnd json_string) ?kvs)) (map (\<lambda>(k, v). JStr (to_valid_utf8 v)) ?kvs)))"
    using ne by (simp add: jsonResult_text_def)
  moreover have "zip (map fst (map (apsnd json_string) kvs)) (map (\<lambda>(k, v). JStr (to_valid_utf8 v)) kvs)
      = map (\<lambda>(k, v). (k, JStr (to_valid_utf8 v))) kvs"
    for kvs :: "(string \<times> string) list"
    by (induction kvs) auto
  ultimately have "text_of (1 + length ?kvs + 1) (jsonResult_text (to_jsonResult res)) (json_of_result res)"
    by (simp only: json_of_result_def)
  then show ?thesis by (rule text_of_mono) (use len in simp)
qed

text \<open>The JSON report reads back: the decoder finds in it one object with the results in order,
  each with its step, id, name, status and its trimmed non-empty message and fix, and with the
  summary; only invalid UTF-8 is replaced, and nothing but the final newline is left.
\<close>

theorem json_report_roundtrip:
  "parse_value (json_fuel (FprintJSON r)) (FprintJSON r) = Some (JObj
     [(''results'', JArr (map json_of_result (Results r))), (''summary'', JStr (to_valid_utf8 (Summary r)))], nl)"
proof -
  let ?vs = "map jsonResult_text (map to_jsonResult (Results r))"
  have "list_all2 (text_of 8) ?vs (map json_of_result (Results r))"
    by (simp add: list_all2_conv_all_nth text_of_result)
  moreover have "list_all value_start ?vs"
    by (simp add: list_all_iff jsonResult_text_def value_start_object)
  ultimately have arr: "text_of (8 + length ?vs + 2) (array_text 2 ?vs) (JArr (map json_of_result (Results r)))"
    by (rule text_of_array)
  have summary: "text_of (8 + length ?vs + 2) (json_string (Summary r)) (JStr (to_valid_utf8 (Summary r)))"
    by (rule text_of_mono [OF text_of_string]) simp
  have "list_all plain ''results''" and "list_all plain ''summary''" by (simp_all add: plain_def code_def)
  with arr summary text_of_object [of "[(''results'', array_text 2 ?vs), (''summary'', json_string (Summary r))]"
      "8 + length ?vs + 2" "[JArr (map json_of_result (Results r)), JStr (to_valid_utf8 (Summary r))]" 0]
  have "text_of (8 + length ?vs + 2 + 2 + 1)
      (object_text 0 [(''results'', array_text 2 ?vs), (''summary'', json_string (Summary r))])
      (JObj [(''results'', JArr (map json_of_result (Results r))), (''summary'', JStr (to_valid_utf8 (Summary r)))])"
    by (simp add: numeral_2_eq_2)
  from text_of_parse [OF this, of nl] show ?thesis
    by (simp add: FprintJSON_def)
qed

end
