(* ===== verification/Validate.thy ===== *)
theory Validate
  imports Report
begin

text \<open>
  The building blocks of the deployment checks: \<open>tools/pkg/validate/validate.go\<close>, the two regular
  expressions and the \<open>extension.env\<close> reader of \<open>tools/pkg/validate/checks.go\<close>. The process
  environment, the file system, the network and go-ethereum are the fields of \<open>tool_env\<close>; a
  chain client, a registry and an allowlist are records of what their calls answer while the checks
  run. A nil pointer is None. A context only bounds the time of a call and is left out.
\<close>

section \<open>The outside world\<close>

record 'k tool_env =
  te_Getenv :: "string \<Rightarrow> string"
  te_ReadFile :: "string \<Rightarrow> string + bytes"
  te_NotExist :: "string \<Rightarrow> bool"
  te_Dial :: "string \<Rightarrow> bool"
  te_HttpGet :: "string \<Rightarrow> string + int"
  te_IsPrint :: "nat \<Rightarrow> bool"
  te_AddressHex :: "address \<Rightarrow> string"
  te_HexToAddress :: "string \<Rightarrow> address"
  te_KeyAddress :: "'k \<Rightarrow> address"
  te_EVMType :: bytes

record eth_client =
  ec_CodeAt :: "address \<Rightarrow> string + bytes"
  ec_BalanceAt :: "address \<Rightarrow> string + int"
  ec_ChainID :: "string + int"

text \<open>The two views of the contracts: extension ids are \<open>big.Int\<close> values.\<close>

record extension_registry =
  er_ExtensionsCounter :: "string + int"
  er_InstructionsSender :: "int \<Rightarrow> string + address"
  er_IsKeyTypeSupported :: "int \<Rightarrow> bytes \<Rightarrow> string + bool"

record owner_allowlist =
  al_IsAllowedTeeMachineOwner :: "int \<Rightarrow> address \<Rightarrow> string + bool"

text \<open>\<open>os.Open\<close> fails when the file cannot be read; \<open>os.Stat\<close> then says whether it is missing.\<close>

definition te_Open :: "'k tool_env \<Rightarrow> string \<Rightarrow> bytes option" where
  "te_Open E path = (case te_ReadFile E path of Inl _ \<Rightarrow> None | Inr s \<Rightarrow> Some s)"

section \<open>Single checks\<close>

definition MinDeployBalance :: int where
  "MinDeployBalance = 10000000000000000"

definition AddressNotZero :: "'k tool_env \<Rightarrow> address \<Rightarrow> string \<Rightarrow> string option" where
  "AddressNotZero E addr label = (if addr = 0
     then Some (label @ '' is the zero address ('' @ te_AddressHex E addr @ '') in the addresses file'')
     else None)"

definition AddressHasCode :: "'k tool_env \<Rightarrow> eth_client option \<Rightarrow> address \<Rightarrow> string \<Rightarrow> string option" where
  "AddressHasCode E client addr label = (case client of
     None \<Rightarrow> Some (''cannot check '' @ label @ '': no chain client connected'')
   | Some c \<Rightarrow> (case ec_CodeAt c addr of
       Inl err \<Rightarrow> Some (''cannot check '' @ label @ '': '' @ err)
     | Inr codes \<Rightarrow> if length codes = 0
         then Some (label @ '' at '' @ te_AddressHex E addr @ '' has no deployed code. ''
           @ ''This address will be set as immutable in the contract constructor and cannot be changed. ''
           @ ''Check your deployed-addresses.json file '' @ em_dash @ '' are you on the right network?'')
         else None))"

definition KeyHasFunds :: "'k tool_env \<Rightarrow> eth_client option \<Rightarrow> 'k \<Rightarrow> int \<Rightarrow> string option" where
  "KeyHasFunds E client key minWei = (case client of
     None \<Rightarrow> Some ''cannot check deployer balance: no chain client connected''
   | Some c \<Rightarrow> (let addr = te_KeyAddress E key in
       case ec_BalanceAt c addr of
         Inl err \<Rightarrow> Some (''cannot check deployer balance: '' @ err)
       | Inr balance \<Rightarrow> if balance < minWei
           then Some (''deployer '' @ te_AddressHex E addr @ '' has insufficient funds (balance: ''
             @ format_int balance @ '' wei, minimum required: '' @ format_int minWei @ '' wei). ''
             @ ''Fund this account before deploying'')
           else None))"

definition IsUsingDevKey :: "'k tool_env \<Rightarrow> bool" where
  "IsUsingDevKey E \<longleftrightarrow> te_Getenv E ''DEPLOYMENT_PRIVATE_KEY'' = []"

section \<open>The regular expressions\<close>

definition is_hex_char :: "char \<Rightarrow> bool" where
  "is_hex_char c \<longleftrightarrow> hex_val c \<noteq> None"

definition hex_text :: "nat \<Rightarrow> string \<Rightarrow> bool" where
  "hex_text n s \<longleftrightarrow> HasPrefix s ''0x'' \<and> length s = n + 2 \<and> list_all is_hex_char (drop 2 s)"

definition addressRegex :: "string \<Rightarrow> bool" where
  "addressRegex s = hex_text 40 s"

definition extensionIDRegex :: "string \<Rightarrow> bool" where
  "extensionIDRegex s = hex_text 64 s"

text \<open>\<open>SetString(s, 16)\<close> on hexadecimal digits.\<close>

definition hex_number :: "string \<Rightarrow> int" where
  "hex_number s = foldl (\<lambda>v c. 16 * v + int (the (hex_val c))) 0 s"

section \<open>extension.env\<close>

text \<open>
  The lines of a \<open>bufio.Scanner\<close>: a carriage return before the newline is dropped, and the scan
  ends silently at a line that does not fit its buffer of 64 KiB.
\<close>

definition drop_cr :: "string \<Rightarrow> string" where
  "drop_cr l = (if l \<noteq> [] \<and> last l = CHR 0x0D then butlast l else l)"

definition max_token :: nat where
  "max_token = 65536"

function scan_lines :: "bytes \<Rightarrow> string list" where
  "scan_lines s = (if s = [] then []
     else if max_token \<le> length (takeWhile (\<lambda>c. c \<noteq> CHR 0x0A) s) then []
     else drop_cr (takeWhile (\<lambda>c. c \<noteq> CHR 0x0A) s)
       # scan_lines (drop 1 (dropWhile (\<lambda>c. c \<noteq> CHR 0x0A) s)))"
  by pat_completeness auto
termination
  by (relation "measure length") (auto simp: less_Suc_eq_le length_dropWhile_le
      intro!: le_less_trans [OF diff_le_mono [OF length_dropWhile_le]])

declare scan_lines.simps [simp del]

text \<open>What one line contributes: nothing for a blank line, a comment, or a line without \<open>=\<close>.\<close>

definition env_entry :: "string \<Rightarrow> (string \<times> string) option" where
  "env_entry text = (let line = TrimSpace text in
     if line = [] \<or> HasPrefix line ''#'' then None
     else map_option (\<lambda>(k, v). (TrimSpace k, TrimSpace v)) (split_once (CHR ''='') line))"

text \<open>The map \<open>CheckExtensionEnvFormat\<close> fills, and the two variables of \<open>parseExtensionEnv\<close>.\<close>

fun env_vars :: "string list \<Rightarrow> (string, string) gomap \<Rightarrow> (string, string) gomap" where
  "env_vars [] vars = vars"
| "env_vars (l # ls) vars = env_vars ls (case env_entry l of Some (k, v) \<Rightarrow> gm_put k v vars | None \<Rightarrow> vars)"

fun env_scan :: "string list \<Rightarrow> string \<times> string \<Rightarrow> string \<times> string" where
  "env_scan [] r = r"
| "env_scan (l # ls) (extensionID, instructionSender) = env_scan ls (case env_entry l of
     None \<Rightarrow> (extensionID, instructionSender)
   | Some (key, val) \<Rightarrow> if key = ''EXTENSION_ID'' then (val, instructionSender)
       else if key = ''INSTRUCTION_SENDER'' then (extensionID, val)
       else (extensionID, instructionSender))"

text \<open>The error result is always nil, so it is left out.\<close>

definition parseExtensionEnv :: "'k tool_env \<Rightarrow> string \<Rightarrow> string \<times> string" where
  "parseExtensionEnv E path = (case te_Open E path of
     None \<Rightarrow> ([], [])
   | Some f \<Rightarrow> env_scan (scan_lines f) ([], []))"

section \<open>What a file assigns\<close>

text \<open>The last assignment to a key wins.\<close>

definition env_lookup :: "string list \<Rightarrow> string \<Rightarrow> string option" where
  "env_lookup ls k = map_of (rev (List.map_filter env_entry ls)) k"

lemma map_filter_Cons: "List.map_filter f (x # xs) = (case f x of None \<Rightarrow> [] | Some y \<Rightarrow> [y]) @ List.map_filter f xs"
  by (simp add: map_filter_simps split: option.split)

lemma env_lookup_Nil [simp]: "env_lookup [] k = None"
  by (simp add: env_lookup_def map_filter_simps)

lemma env_lookup_Cons: "env_lookup (l # ls) k = (case env_lookup ls k of Some v \<Rightarrow> Some v
    | None \<Rightarrow> (case env_entry l of Some (k', v) \<Rightarrow> if k' = k then Some v else None | None \<Rightarrow> None))"
  by (auto simp: env_lookup_def map_filter_Cons map_add_def split: option.split)

lemma env_vars_lookup: "gm_get (env_vars ls m) k = (case env_lookup ls k of Some v \<Rightarrow> Some v | None \<Rightarrow> gm_get m k)"
proof (induction ls arbitrary: m)
  case (Cons l ls)
  then show ?case by (auto simp: env_lookup_Cons split: option.split)
qed simp

lemma env_scan_lookup: "env_scan ls (i, s) =
   ((case env_lookup ls ''EXTENSION_ID'' of Some v \<Rightarrow> v | None \<Rightarrow> i),
    (case env_lookup ls ''INSTRUCTION_SENDER'' of Some v \<Rightarrow> v | None \<Rightarrow> s))"
proof (induction ls arbitrary: i s)
  case (Cons l ls)
  show ?case
  proof (cases "env_entry l")
    case None
    then show ?thesis by (simp add: Cons.IH env_lookup_Cons split: option.split)
  next
    case (Some kv)
    then show ?thesis by (cases kv) (auto simp: Cons.IH env_lookup_Cons split: option.split)
  qed
qed simp

section \<open>A written file reads back\<close>

text \<open>Visible ASCII characters are not trimmed.\<close>

definition graphic :: "char \<Rightarrow> bool" where
  "graphic c \<longleftrightarrow> 32 < code c \<and> code c < 127"

lemma space_seqs_graphic: "list_all (\<lambda>w. w \<noteq> [] \<and> \<not> graphic (hd w) \<and> \<not> graphic (last w)) space_seqs"
  by code_simp

lemma strip_graphic:
  assumes "graphic c"
  shows "strip_one space_seqs (c # s) = None" and "strip_one (map rev space_seqs) (c # s) = None"
proof -
  have *: "hd w = c" if "HasPrefix (c # s) w" "w \<noteq> []" for w
    using that by (cases w) (auto simp: HasPrefix_iff)
  have "\<not> HasPrefix (c # s) w" if "w \<in> set space_seqs" for w
    using that space_seqs_graphic assms * by (auto simp: list_all_iff)
  moreover have "\<not> HasPrefix (c # s) (rev w)" if "w \<in> set space_seqs" for w
    using that space_seqs_graphic assms * [of "rev w"] by (auto simp: list_all_iff hd_rev)
  ultimately show "strip_one space_seqs (c # s) = None" and "strip_one (map rev space_seqs) (c # s) = None"
    by (auto simp: strip_one_def filter_empty_conv split: list.split)
qed

lemma trim_left_graphic: "graphic c \<Longrightarrow> trim_left space_seqs (c # s) = c # s"
  "graphic c \<Longrightarrow> trim_left (map rev space_seqs) (c # s) = c # s"
  by (subst trim_left.simps, simp add: strip_graphic)+

lemma trim_left_Nil: "trim_left ws [] = []"
proof -
  have "strip_one ws [] = None \<or> (\<exists>t. strip_one ws [] = Some t \<and> length t < length ([] :: string))"
    by (metis option.exhaust strip_one_shorter)
  then show ?thesis by (subst trim_left.simps) auto
qed

lemma TrimSpace_graphic: "list_all graphic s \<Longrightarrow> TrimSpace s = s"
proof -
  assume s: "list_all graphic s"
  show ?thesis
  proof (cases s)
    case Nil
    then show ?thesis by (simp add: TrimSpace_def trim_left_Nil)
  next
    case (Cons c cs)
    then have "rev s = last s # rev (butlast s)" and "graphic (last s)" and "graphic c"
      using s by (auto simp: list_all_iff)
    then show ?thesis using Cons by (simp add: TrimSpace_def trim_left_graphic)
  qed
qed

lemma scan_lines_Nil [simp]: "scan_lines [] = []"
  by (simp add: scan_lines.simps)

lemma scan_lines_line: "CHR 0x0A \<notin> set l \<Longrightarrow> length l < max_token \<Longrightarrow>
    scan_lines (l @ CHR 0x0A # r) = drop_cr l # scan_lines r"
proof -
  assume l: "CHR 0x0A \<notin> set l" "length l < max_token"
  have "takeWhile (\<lambda>c. c \<noteq> CHR 0x0A) (l @ CHR 0x0A # r) = l"
    using l(1) by (induction l) auto
  moreover have "dropWhile (\<lambda>c. c \<noteq> CHR 0x0A) (l @ CHR 0x0A # r) = CHR 0x0A # r"
    using l(1) by (induction l) auto
  ultimately show ?thesis using l by (subst scan_lines.simps) simp
qed

lemma not_graphic: "\<not> graphic (CHR 0x0A)" "\<not> graphic (CHR 0x0D)"
  by (simp_all add: graphic_def code_def)

lemma scan_lines_graphic:
  "list_all graphic l \<Longrightarrow> length l < max_token \<Longrightarrow> scan_lines (l @ CHR 0x0A # r) = l # scan_lines r"
proof -
  assume l: "list_all graphic l" "length l < max_token"
  then have "CHR 0x0A \<notin> set l" using not_graphic unfolding list_all_iff by blast
  moreover have "l \<noteq> [] \<longrightarrow> last l \<noteq> CHR 0x0D"
    using l not_graphic last_in_set [of l] unfolding list_all_iff by metis
  ultimately show ?thesis using l by (auto simp: scan_lines_line drop_cr_def)
qed

text \<open>A key and a value the scripts write: visible, the key without \<open>=\<close> and not a comment.\<close>

definition env_pair_ok :: "string \<times> string \<Rightarrow> bool" where
  "env_pair_ok kv \<longleftrightarrow> list_all graphic (fst kv) \<and> list_all graphic (snd kv) \<and> fst kv \<noteq> []
     \<and> hd (fst kv) \<noteq> CHR ''#'' \<and> CHR ''='' \<notin> set (fst kv) \<and> length (fst kv) + length (snd kv) + 1 < max_token"

definition env_text :: "(string \<times> string) list \<Rightarrow> bytes" where
  "env_text kvs = concat (map (\<lambda>(k, v). k @ CHR ''='' # v @ nl) kvs)"

lemma split_once_first: "c \<notin> set a \<Longrightarrow> split_once c (a @ c # b) = Some (a, b)"
  by (induction a) auto

lemma env_entry_pair: "env_pair_ok (k, v) \<Longrightarrow> env_entry (k @ CHR ''='' # v) = Some (k, v)"
proof -
  assume ok: "env_pair_ok (k, v)"
  have "graphic (CHR ''='')" by (simp add: graphic_def code_def)
  with ok have "TrimSpace (k @ CHR ''='' # v) = k @ CHR ''='' # v"
    by (intro TrimSpace_graphic) (simp add: env_pair_ok_def)
  moreover have "\<not> HasPrefix (k @ CHR ''='' # v) ''#''"
    using ok by (cases k) (auto simp: env_pair_ok_def HasPrefix_def)
  ultimately show ?thesis
    using ok by (simp add: env_entry_def env_pair_ok_def split_once_first TrimSpace_graphic)
qed

lemma scan_env_text: "list_all env_pair_ok kvs \<Longrightarrow> scan_lines (env_text kvs) = map (\<lambda>(k, v). k @ CHR ''='' # v) kvs"
proof (induction kvs)
  case (Cons kv kvs)
  obtain k v where kv: "kv = (k, v)" by (cases kv)
  have "graphic (CHR ''='')" by (simp add: graphic_def code_def)
  then have "scan_lines ((k @ CHR ''='' # v) @ CHR 0x0A # env_text kvs) = (k @ CHR ''='' # v) # scan_lines (env_text kvs)"
    using Cons.prems by (intro scan_lines_graphic) (simp_all add: env_pair_ok_def kv)
  with Cons show ?case by (simp add: env_text_def kv nl_def)
qed (simp add: env_text_def)

lemma env_lookup_text: "list_all env_pair_ok kvs \<Longrightarrow> env_lookup (scan_lines (env_text kvs)) k = map_of (rev kvs) k"
proof -
  assume ok: "list_all env_pair_ok kvs"
  have "List.map_filter env_entry (map (\<lambda>(k, v). k @ CHR ''='' # v) kvs) = kvs"
    using ok by (induction kvs) (auto simp: map_filter_simps env_entry_pair)
  then show ?thesis by (simp add: env_lookup_def scan_env_text [OF ok])
qed

end
