(* ===== verification/Checks_Deploy.thy ===== *)
theory Checks_Deploy
  imports Validate
begin

text \<open>
  The checks of the first two steps of \<open>tools/pkg/validate/checks.go\<close>: contract deployment
  (D1 to D7) and extension registration (R1 to R7). Each function appends to the report, so it is
  the list of the results it adds. A \<open>range\<close> over the address map may visit it in another order
  each time: the two loops take their own orders.
\<close>

definition check :: "string \<Rightarrow> string \<Rightarrow> string \<Rightarrow> Status \<Rightarrow> string \<Rightarrow> string \<Rightarrow> CheckResult" where
  "check step i nm st msg fx = \<lparr>Step = step, ID = i, Name = nm, ResultStatus = st, Message = msg, Fix = fx\<rparr>"

definition Adds :: "CheckResult list \<Rightarrow> Report \<Rightarrow> Report" where
  "Adds rs r = foldl (\<lambda>r res. Add res r) r rs"

lemma Results_Adds [simp]: "Results (Adds rs r) = Results r @ rs"
  by (induction rs arbitrary: r) (simp_all add: Adds_def Add_def)

lemma check_simps [simp]: "Step (check s i n st m f) = s" "ID (check s i n st m f) = i"
  "Name (check s i n st m f) = n" "ResultStatus (check s i n st m f) = st"
  "Message (check s i n st m f) = m" "Fix (check s i n st m f) = f"
  by (simp_all add: check_def)

section \<open>Contract deployment\<close>

definition address_results :: "'k tool_env \<Rightarrow> (string, address) gomap \<Rightarrow> CheckResult list" where
  "address_results E addresses = map (\<lambda>(label, addr). case AddressNotZero E addr label of
       Some err \<Rightarrow> check ''deploy'' ''D3'' (label @ '' address not zero'') FAIL err
         ''Re-run the deploy script or check deployed-addresses.json''
     | None \<Rightarrow> check ''deploy'' ''D3'' (label @ '' address not zero'') PASS (te_AddressHex E addr) [])
     addresses"

definition zeroAddrs :: "'k tool_env \<Rightarrow> (string, address) gomap \<Rightarrow> string list" where
  "zeroAddrs E addresses = map fst (filter (\<lambda>(label, addr). AddressNotZero E addr label \<noteq> None) addresses)"

definition code_results :: "'k tool_env \<Rightarrow> eth_client option \<Rightarrow> string list \<Rightarrow> (string, address) gomap
    \<Rightarrow> CheckResult list" where
  "code_results E client zero addresses = map (\<lambda>(label, addr). case AddressHasCode E client addr label of
       Some err \<Rightarrow> check ''deploy'' ''D1'' (label @ '' has deployed code'') FAIL err
         ''Deploy contracts or check CHAIN_URL / deployed-addresses.json''
     | None \<Rightarrow> check ''deploy'' ''D1'' (label @ '' has deployed code'') PASS
         (''code found at '' @ te_AddressHex E addr) [])
     (filter (\<lambda>(label, addr). label \<notin> set zero) addresses)"

definition CheckDeployerKeySource :: "'k tool_env \<Rightarrow> CheckResult" where
  "CheckDeployerKeySource E = (let privKey = te_Getenv E ''DEPLOYMENT_PRIVATE_KEY'';
       localMode = te_Getenv E ''LOCAL_MODE'' in
     if privKey \<noteq> [] then
       check ''deploy'' ''D5'' ''deployer key source'' PASS ''DEPLOYMENT_PRIVATE_KEY is set'' []
     else if localMode = ''true'' \<or> localMode = [] then
       check ''deploy'' ''D5'' ''deployer key source'' PASS ''using Hardhat dev key (LOCAL_MODE)'' []
     else check ''deploy'' ''D5'' ''deployer key source'' WARN
       (''DEPLOYMENT_PRIVATE_KEY not set '' @ em_dash @ '' using Hardhat dev key which has no funds on Coston2'')
       ''Set DEPLOYMENT_PRIVATE_KEY in .env to a funded account on the target network'')"

definition funds_results :: "'k tool_env \<Rightarrow> eth_client option \<Rightarrow> 'k option \<Rightarrow> CheckResult list" where
  "funds_results E client key = (case key of None \<Rightarrow> []
     | Some k \<Rightarrow> if client = None then [] else
         (case KeyHasFunds E client k MinDeployBalance of
            Some err \<Rightarrow> [check ''deploy'' ''D5'' ''deployer has sufficient funds'' FAIL err
              ''Fund the deployer account before deploying'']
          | None \<Rightarrow> [check ''deploy'' ''D5'' ''deployer has sufficient funds'' PASS
              ''balance above minimum threshold'' []]))"

definition chainName :: "int \<Rightarrow> string" where
  "chainName chainID = (let s = format_int chainID in
     if s = ''31337'' then ''Hardhat/Anvil (local devnet)''
     else if s = ''114'' then ''Coston2 (testnet)''
     else if s = ''14'' then ''Flare (mainnet)''
     else ''unknown network'')"

definition checkChainID :: "eth_client \<Rightarrow> CheckResult" where
  "checkChainID client = (case ec_ChainID client of
     Inl err \<Rightarrow> check ''deploy'' ''D6'' ''chain ID'' FAIL (''failed to get chain ID: '' @ err) ''Check CHAIN_URL''
   | Inr chainID \<Rightarrow> check ''deploy'' ''D6'' ''chain ID'' PASS
       (''chain ID '' @ format_int chainID @ '' ('' @ chainName chainID @ '')'') [])"

text \<open>One variable of \<open>extension.env\<close> in \<open>CheckExtensionEnvFormat\<close>.\<close>

definition env_result :: "'k tool_env \<Rightarrow> string \<Rightarrow> (string \<Rightarrow> bool) \<Rightarrow> string option \<Rightarrow> CheckResult" where
  "env_result E key regex val = (let nm = key @ '' in extension.env'';
       fx = ''Delete config/extension.env and re-run scripts/pre-build.sh'' in
     case val of
       None \<Rightarrow> check ''deploy'' ''D7'' nm FAIL (key @ '' not found in extension.env'') fx
     | Some v \<Rightarrow> if \<not> regex v
         then check ''deploy'' ''D7'' nm FAIL (key @ '' has invalid format: '' @ Quote (te_IsPrint E) v) fx
         else check ''deploy'' ''D7'' nm PASS v [])"

definition CheckExtensionEnvFormat :: "'k tool_env \<Rightarrow> string \<Rightarrow> CheckResult list" where
  "CheckExtensionEnvFormat E path = (case te_Open E path of
     None \<Rightarrow> [check ''deploy'' ''D7'' ''extension.env exists'' SKIP (''file not found: '' @ path) []]
   | Some f \<Rightarrow> (let vars = env_vars (scan_lines f) [] in
       [env_result E ''INSTRUCTION_SENDER'' addressRegex (gm_get vars ''INSTRUCTION_SENDER''),
        env_result E ''EXTENSION_ID'' extensionIDRegex (gm_get vars ''EXTENSION_ID'')]))"

definition RegisterDeployChecks :: "'k tool_env \<Rightarrow> eth_client option \<Rightarrow> 'k option \<Rightarrow> (string, address) gomap
    \<Rightarrow> (string, address) gomap \<Rightarrow> string \<Rightarrow> Report \<Rightarrow> Report" where
  "RegisterDeployChecks E client key addresses addresses2 path =
     Adds (address_results E addresses
       @ code_results E client (zeroAddrs E addresses) addresses2
       @ [CheckDeployerKeySource E]
       @ funds_results E client key
       @ (case client of Some c \<Rightarrow> [checkChainID c] | None \<Rightarrow> [])
       @ (if path \<noteq> [] then CheckExtensionEnvFormat E path else []))"

section \<open>Extension registration\<close>

definition register_skip :: "Status \<Rightarrow> string \<Rightarrow> CheckResult list" where
  "register_skip st msg = [check ''register'' ''R1-R7'' ''registration checks'' st msg []]"

text \<open>R1. The counter is nil when it was not asked or the call failed.\<close>

definition query_counter :: "extension_registry option \<Rightarrow> eth_client option \<Rightarrow> (string + int) option" where
  "query_counter registry client = (case registry of
     None \<Rightarrow> None
   | Some g \<Rightarrow> if client = None then None else Some (er_ExtensionsCounter g))"

definition counter_value :: "(string + int) option \<Rightarrow> int option" where
  "counter_value q = (case q of Some (Inr counter) \<Rightarrow> Some counter | _ \<Rightarrow> None)"

definition counter_results :: "(string + int) option \<Rightarrow> CheckResult list" where
  "counter_results q = (case q of
     None \<Rightarrow> []
   | Some (Inl err) \<Rightarrow> [check ''register'' ''R1'' ''extensions counter'' FAIL
       (''failed to query extensions counter: '' @ err) []]
   | Some (Inr counter) \<Rightarrow> if sgn counter = 0
       then [check ''register'' ''R1'' ''extensions counter'' WARN
         (''extensions counter is 0 '' @ em_dash @ '' no extensions registered yet'') []]
       else [check ''register'' ''R1'' ''extensions counter'' PASS
         (format_int counter @ '' extension(s) registered'') []])"

definition sender_results :: "'k tool_env \<Rightarrow> extension_registry option \<Rightarrow> eth_client option \<Rightarrow> int \<Rightarrow> string
    \<Rightarrow> CheckResult list" where
  "sender_results E registry client extensionID instrSender = (case registry of
     None \<Rightarrow> []
   | Some g \<Rightarrow> if client = None \<or> \<not> addressRegex instrSender then [] else
       (case er_InstructionsSender g extensionID of
          Inl err \<Rightarrow> [check ''register'' ''R2'' ''instruction sender matches on-chain'' FAIL
            (''failed to query instruction sender: '' @ err) []]
        | Inr onChainSender \<Rightarrow> if onChainSender = te_HexToAddress E instrSender
            then [check ''register'' ''R2'' ''instruction sender matches on-chain'' PASS
              (''on-chain sender '' @ te_AddressHex E onChainSender @ '' matches extension.env'') []]
            else [check ''register'' ''R2'' ''instruction sender matches on-chain'' FAIL
              (''on-chain sender '' @ te_AddressHex E onChainSender @ '' != extension.env '' @ instrSender)
              ''Re-register the extension or update extension.env'']))"

definition owner_results :: "'k tool_env \<Rightarrow> owner_allowlist option \<Rightarrow> eth_client option \<Rightarrow> 'k option \<Rightarrow> int
    \<Rightarrow> CheckResult list" where
  "owner_results E allowlist client key extensionID = (case (key, allowlist) of
     (Some k, Some a) \<Rightarrow> if client = None then [] else
       (case al_IsAllowedTeeMachineOwner a extensionID (te_KeyAddress E k) of
          Inl err \<Rightarrow> [check ''register'' ''R3'' ''deployer is allowed TEE machine owner'' FAIL
            (''failed to query allowlist: '' @ err) []]
        | Inr allowed \<Rightarrow> if allowed
            then [check ''register'' ''R3'' ''deployer is allowed TEE machine owner'' PASS
              ''deployer is on the TEE machine owner allowlist'' []]
            else [check ''register'' ''R3'' ''deployer is allowed TEE machine owner'' FAIL
              ''deployer is NOT on the TEE machine owner allowlist''
              ''Run the register step to add the deployer as a TEE machine owner''])
   | _ \<Rightarrow> [])"

text \<open>\<open>copy\<close> into a 32-byte array.\<close>

definition evmTypeBytes :: "'k tool_env \<Rightarrow> bytes" where
  "evmTypeBytes E = take 32 (te_EVMType E @ replicate 32 (byte 0))"

definition keytype_results :: "'k tool_env \<Rightarrow> extension_registry option \<Rightarrow> eth_client option \<Rightarrow> int
    \<Rightarrow> CheckResult list" where
  "keytype_results E registry client extensionID = (case registry of
     None \<Rightarrow> []
   | Some g \<Rightarrow> if client = None then [] else
       (case er_IsKeyTypeSupported g extensionID (evmTypeBytes E) of
          Inl err \<Rightarrow> [check ''register'' ''R4'' ''EVM key type supported'' FAIL
            (''failed to query key type support: '' @ err) []]
        | Inr supported \<Rightarrow> if supported
            then [check ''register'' ''R4'' ''EVM key type supported'' PASS
              ''EVM key type is supported for this extension'' []]
            else [check ''register'' ''R4'' ''EVM key type supported'' FAIL
              ''EVM key type is NOT supported for this extension''
              ''Run the register step to add EVM key type support'']))"

text \<open>R7: the ids below the counter, an int64, whose sender is the expected one; an id whose call
  fails is passed over.\<close>

definition big_Int64 :: "int \<Rightarrow> int" where
  "big_Int64 v = sint (word_of_int v :: int64)"

fun matching_ids :: "(int \<Rightarrow> string + address) \<Rightarrow> address \<Rightarrow> int list \<Rightarrow> string list" where
  "matching_ids sender expectedAddr [] = []"
| "matching_ids sender expectedAddr (i # is) = (case sender i of
     Inl err \<Rightarrow> matching_ids sender expectedAddr is
   | Inr s \<Rightarrow> (if s = expectedAddr then [format_int i] else []) @ matching_ids sender expectedAddr is)"

definition unique_results :: "'k tool_env \<Rightarrow> extension_registry option \<Rightarrow> eth_client option \<Rightarrow> int option
    \<Rightarrow> string \<Rightarrow> CheckResult list" where
  "unique_results E registry client counter instrSender = (case (counter, registry) of
     (Some n, Some g) \<Rightarrow> if \<not> 0 < sgn n \<or> \<not> addressRegex instrSender \<or> client = None then [] else
       (let matchingIDs = matching_ids (er_InstructionsSender g) (te_HexToAddress E instrSender) [0..big_Int64 n - 1] in
        if 1 < length matchingIDs
        then [check ''register'' ''R7'' ''unique instruction sender'' WARN
          (''INSTRUCTION_SENDER '' @ instrSender @ '' is used by multiple extensions: ''
            @ str_join '', '' matchingIDs) []]
        else [check ''register'' ''R7'' ''unique instruction sender'' PASS
          ''instruction sender is unique across registered extensions'' []])
   | _ \<Rightarrow> [])"

definition registration_results :: "'k tool_env \<Rightarrow> eth_client option \<Rightarrow> 'k option \<Rightarrow> extension_registry option
    \<Rightarrow> owner_allowlist option \<Rightarrow> string \<Rightarrow> CheckResult list" where
  "registration_results E client key registry allowlist path =
     (if path = [] then register_skip SKIP ''no --config path provided''
      else (case parseExtensionEnv E path of (extIDStr, instrSender) \<Rightarrow>
        if extIDStr = [] \<and> instrSender = []
        then register_skip SKIP (''config/extension.env not found '' @ em_dash @ '' run pre-build.sh first'')
        else (let q = query_counter registry client in counter_results q
          @ (if \<not> extensionIDRegex extIDStr
             then [check ''register'' ''R2'' ''EXTENSION_ID format'' FAIL
               (''malformed EXTENSION_ID: '' @ Quote (te_IsPrint E) extIDStr)
               ''Delete config/extension.env and re-run scripts/pre-build.sh'']
             else (let extensionID = hex_number (drop 2 extIDStr) in
               sender_results E registry client extensionID instrSender
               @ owner_results E allowlist client key extensionID
               @ keytype_results E registry client extensionID
               @ unique_results E registry client (counter_value q) instrSender)))))"

definition RegisterRegistrationChecks :: "'k tool_env \<Rightarrow> eth_client option \<Rightarrow> 'k option \<Rightarrow> extension_registry option
    \<Rightarrow> owner_allowlist option \<Rightarrow> string \<Rightarrow> Report \<Rightarrow> Report" where
  "RegisterRegistrationChecks E client key registry allowlist path =
     Adds (registration_results E client key registry allowlist path)"

end
