(* ===== verification/Checks_Steps.thy ===== *)
theory Checks_Steps
  imports Checks_Deploy
begin

text \<open>
  The checks of the later steps of \<open>tools/pkg/validate/checks.go\<close>: services (S2 to S10), TEE version
  (V2 to V6), TEE machine (T1 to T10), test (E1 to E6), and the stub for a step without checks.
  They read the environment, \<open>extension.env\<close> and the network.
\<close>

text \<open>The five reachability checks: SKIP without an address, PASS on an answer with status 200.\<close>

definition proxy_reachable :: "'k tool_env \<Rightarrow> string \<Rightarrow> bool" where
  "proxy_reachable E url = (case te_HttpGet E (url @ ''/info'') of Inl _ \<Rightarrow> False | Inr status \<Rightarrow> status = 200)"

definition proxy_result :: "'k tool_env \<Rightarrow> string \<Rightarrow> string \<Rightarrow> string \<Rightarrow> string \<Rightarrow> string \<Rightarrow> string
    \<Rightarrow> string \<Rightarrow> string \<Rightarrow> CheckResult" where
  "proxy_result E step i nm url unset reachable unreachable fx =
     (if url = [] then check step i nm SKIP unset []
      else if proxy_reachable E url then check step i nm PASS reachable []
      else check step i nm WARN unreachable fx)"

section \<open>Services\<close>

definition S2_result :: "'k tool_env \<Rightarrow> string \<Rightarrow> CheckResult" where
  "S2_result E path = (let nm = ''EXTENSION_ID is set and well-formed'';
       fx = ''Delete config/extension.env and re-run scripts/pre-build.sh'' in
     if path = [] then check ''services'' ''S2'' nm SKIP ''run pre-build.sh first'' []
     else (let extID = fst (parseExtensionEnv E path) in
       if extID = [] then check ''services'' ''S2'' nm FAIL ''EXTENSION_ID is empty or not found in extension.env'' fx
       else if \<not> extensionIDRegex extID
       then check ''services'' ''S2'' nm FAIL (''EXTENSION_ID has invalid format: '' @ Quote (te_IsPrint E) extID) fx
       else check ''services'' ''S2'' nm PASS extID []))"

definition S5_result :: "'k tool_env \<Rightarrow> CheckResult" where
  "S5_result E = (let port = (if te_Getenv E ''EXTENSION_PORT'' = [] then ''7702'' else te_Getenv E ''EXTENSION_PORT'') in
     if te_Dial E (''localhost:'' @ port)
     then check ''services'' ''S5'' ''extension port not in use'' WARN
       (''port '' @ port @ '' is already in use '' @ em_dash @ '' extension server will fail to bind'')
       ''Stop the process using that port or change EXTENSION_PORT''
     else check ''services'' ''S5'' ''extension port not in use'' PASS ''port available'' [])"

definition S7_result :: "'k tool_env \<Rightarrow> CheckResult" where
  "S7_result E = (let extPort = te_Getenv E ''EXTENSION_PORT''; signPort = te_Getenv E ''SIGN_PORT'' in
     if extPort \<noteq> [] \<or> signPort \<noteq> []
     then check ''services'' ''S7'' ''port configuration'' PASS
       (''EXTENSION_PORT='' @ extPort @ '', SIGN_PORT='' @ signPort) []
     else check ''services'' ''S7'' ''port configuration'' PASS
       ''using defaults (standalone: 8080/9090, Docker: 7702/7701)'' [])"

definition S9_result :: "'k tool_env \<Rightarrow> CheckResult" where
  "S9_result E = (let proxyURL = te_Getenv E ''EXT_PROXY_URL'' in
     proxy_result E ''services'' ''S9'' ''EXT_PROXY_URL reachable'' proxyURL ''EXT_PROXY_URL not set''
       (''proxy reachable at '' @ proxyURL)
       (''proxy not reachable at '' @ proxyURL @ '' '' @ em_dash @ '' is the proxy running?'')
       ''Start the proxy or check EXT_PROXY_URL'')"

definition S10_result :: "'k tool_env \<Rightarrow> CheckResult" where
  "S10_result E = (let localMode = te_Getenv E ''LOCAL_MODE''; privateKey = te_Getenv E ''PROXY_PRIVATE_KEY'';
       nm = ''PROXY_PRIVATE_KEY set on non-local'' in
     if localMode = ''true'' \<or> localMode = [] then check ''services'' ''S10'' nm PASS ''local mode, dev key OK'' []
     else if localMode = ''false'' \<and> privateKey = []
     then check ''services'' ''S10'' nm WARN
       (''PROXY_PRIVATE_KEY not set in non-local mode '' @ em_dash @ '' proxy will use default key'')
       ''Set PROXY_PRIVATE_KEY in .env for non-local deployments''
     else check ''services'' ''S10'' nm PASS ''PROXY_PRIVATE_KEY is configured'' [])"

definition RegisterServicesChecks :: "'k tool_env \<Rightarrow> string \<Rightarrow> Report \<Rightarrow> Report" where
  "RegisterServicesChecks E path =
     Adds [S2_result E path, S5_result E, S7_result E, S9_result E, S10_result E]"

section \<open>TEE version\<close>

definition V2_result :: "'k tool_env \<Rightarrow> CheckResult" where
  "V2_result E = (let extOwnerKey = te_Getenv E ''EXTENSION_OWNER_KEY''; privKey = te_Getenv E ''DEPLOYMENT_PRIVATE_KEY'';
       localMode = te_Getenv E ''LOCAL_MODE''; nm = ''extension owner key'' in
     if extOwnerKey \<noteq> [] then check ''tee-version'' ''V2'' nm PASS ''EXTENSION_OWNER_KEY is configured'' []
     else if privKey \<noteq> []
     then check ''tee-version'' ''V2'' nm PASS ''using DEPLOYMENT_PRIVATE_KEY (EXTENSION_OWNER_KEY not set)'' []
     else if localMode \<noteq> ''true'' \<and> localMode \<noteq> []
     then check ''tee-version'' ''V2'' nm WARN (''neither EXTENSION_OWNER_KEY nor DEPLOYMENT_PRIVATE_KEY set '' @ em_dash
         @ '' AddTeeVersion will use dev key which isn't the extension owner on Coston2'')
       ''Set EXTENSION_OWNER_KEY or DEPLOYMENT_PRIVATE_KEY in .env''
     else check ''tee-version'' ''V2'' nm PASS ''using dev key (local mode)'' [])"

definition V4_result :: "'k tool_env \<Rightarrow> string \<Rightarrow> CheckResult" where
  "V4_result E path = (let nm = ''EXTENSION_ID valid'';
       fx = ''Delete config/extension.env and re-run scripts/pre-build.sh'' in
     if path = [] then check ''tee-version'' ''V4'' nm SKIP ''no --config provided'' []
     else (let extID = fst (parseExtensionEnv E path) in
       if extID = []
       then (if te_NotExist E path
         then check ''tee-version'' ''V4'' nm SKIP (''extension.env not found '' @ em_dash @ '' run pre-build.sh first'') []
         else check ''tee-version'' ''V4'' nm FAIL ''EXTENSION_ID not set'' fx)
       else if \<not> extensionIDRegex extID then check ''tee-version'' ''V4'' nm FAIL ''EXTENSION_ID malformed'' fx
       else check ''tee-version'' ''V4'' nm PASS extID []))"

definition V6_result :: "'k tool_env \<Rightarrow> CheckResult" where
  "V6_result E = (let proxyURL = te_Getenv E ''EXT_PROXY_URL'' in
     proxy_result E ''tee-version'' ''V6'' ''proxy reachable'' proxyURL
       (''EXT_PROXY_URL not set '' @ em_dash @ '' allow-tee-version uses -p flag'')
       (''proxy reachable at '' @ proxyURL)
       (''proxy not reachable at '' @ proxyURL @ '' '' @ em_dash @ '' start services first'')
       ''Start the proxy or check EXT_PROXY_URL'')"

definition RegisterTeeVersionChecks :: "'k tool_env \<Rightarrow> string \<Rightarrow> Report \<Rightarrow> Report" where
  "RegisterTeeVersionChecks E path = Adds [V2_result E, V4_result E path, V6_result E]"

section \<open>TEE machine\<close>

definition T1_result :: "'k tool_env \<Rightarrow> CheckResult" where
  "T1_result E = (let simulatedTee = te_Getenv E ''SIMULATED_TEE''; localMode = te_Getenv E ''LOCAL_MODE'';
       nm = ''SIMULATED_TEE mode'' in
     if simulatedTee = ''true'' \<and> localMode = ''false''
     then check ''tee-machine'' ''T1'' nm WARN (''SIMULATED_TEE=true on non-local deployment '' @ em_dash
         @ '' machine will be registered with test attestation values. Set SIMULATED_TEE=false for real TEE hardware'')
       ''Set SIMULATED_TEE=false in .env when deploying to a real GCP TEE''
     else if simulatedTee = ''true'' then check ''tee-machine'' ''T1'' nm PASS ''simulated TEE mode (local)'' []
     else check ''tee-machine'' ''T1'' nm PASS ''real attestation mode'' [])"

definition T5_result :: "'k tool_env \<Rightarrow> CheckResult" where
  "T5_result E = (let normalProxyURL = te_Getenv E ''NORMAL_PROXY_URL'' in
     proxy_result E ''tee-machine'' ''T5'' ''NORMAL_PROXY_URL reachable'' normalProxyURL ''NORMAL_PROXY_URL not set''
       (''normal proxy reachable at '' @ normalProxyURL)
       (''normal proxy not reachable at '' @ normalProxyURL @ '' '' @ em_dash @ '' required for FTDC availability check'')
       ''Ensure the normal/FTDC proxy is running and NORMAL_PROXY_URL is correct in .env'')"

definition T10_result :: "'k tool_env \<Rightarrow> CheckResult" where
  "T10_result E = (let extProxyURL = te_Getenv E ''EXT_PROXY_URL'' in
     proxy_result E ''tee-machine'' ''T10'' ''host URL reachable'' extProxyURL ''EXT_PROXY_URL not set''
       (''host URL reachable at '' @ extProxyURL)
       (''host URL not reachable at '' @ extProxyURL @ '' '' @ em_dash
         @ '' machine will be registered with unreachable host. Data providers can't relay instructions'')
       ''Ensure the host is accessible and EXT_PROXY_URL or -h flag points to the right URL'')"

definition RegisterTeeMachineChecks :: "'k tool_env \<Rightarrow> string \<Rightarrow> Report \<Rightarrow> Report" where
  "RegisterTeeMachineChecks E path = Adds [T1_result E, T5_result E, T10_result E]"

section \<open>Test\<close>

definition E1_result :: "'k tool_env \<Rightarrow> string \<Rightarrow> CheckResult" where
  "E1_result E path = (let nm = ''INSTRUCTION_SENDER valid'' in
     if path = [] then check ''test'' ''E1'' nm SKIP ''no --config provided'' []
     else (let instrSender = snd (parseExtensionEnv E path) in
       if te_NotExist E path
       then check ''test'' ''E1'' nm SKIP (''extension.env not found '' @ em_dash @ '' run pre-build.sh first'') []
       else if instrSender = []
       then check ''test'' ''E1'' nm FAIL (''INSTRUCTION_SENDER not set '' @ em_dash @ '' run pre-build.sh'')
         ''Run scripts/pre-build.sh to deploy and register the extension''
       else if \<not> addressRegex instrSender
       then check ''test'' ''E1'' nm FAIL ''INSTRUCTION_SENDER malformed''
         ''Delete config/extension.env and re-run scripts/pre-build.sh''
       else check ''test'' ''E1'' nm PASS instrSender []))"

definition E3_result :: "'k tool_env \<Rightarrow> CheckResult" where
  "E3_result E = proxy_result E ''test'' ''E3'' ''proxy reachable for test results'' (te_Getenv E ''EXT_PROXY_URL'')
     ''EXT_PROXY_URL not set'' ''proxy reachable for test result polling''
     (''proxy not reachable '' @ em_dash @ '' test results cannot be polled'')
     ''Start the proxy or check EXT_PROXY_URL''"

definition E6_result :: CheckResult where
  "E6_result = check ''test'' ''E6'' ''OPType/OPCommand alignment info'' PASS
     (''OPType/OPCommand hashes are validated at runtime '' @ em_dash
       @ '' if a 501 error occurs, check the hash values in the error message'') []"

definition RegisterTestChecks :: "'k tool_env \<Rightarrow> string \<Rightarrow> Report \<Rightarrow> Report" where
  "RegisterTestChecks E path = Adds [E1_result E path, E3_result E, E6_result]"

definition RegisterStubChecks :: "string \<Rightarrow> string \<Rightarrow> string \<Rightarrow> Report \<Rightarrow> Report" where
  "RegisterStubChecks step idRange nm = Adds [check step idRange nm SKIP ''not yet implemented'' []]"

end
