(* ===== verification/Checks_Props.thy ===== *)
theory Checks_Props
  imports Checks_Steps
begin

text \<open>
  What the deployment checks establish: the checks that read \<open>extension.env\<close> agree, the deploy and
  the register step report a failure exactly for the listed reasons, whatever the order of the
  address map, and the duplicate check finds exactly the extensions that share a sender.
\<close>

section \<open>Failures of a list of results\<close>

abbreviation failing :: "CheckResult list \<Rightarrow> bool" where
  "failing rs \<equiv> has_failures rs"

lemma HasFailures_Adds: "HasFailures (Adds rs r) \<longleftrightarrow> HasFailures r \<or> failing rs"
  by (simp add: HasFailures_def)

lemma HasFailures_empty: "\<not> HasFailures \<lparr>Results = []\<rparr>"
  by (simp add: HasFailures_def)

lemma failing_address_results: "failing (address_results E addrs) \<longleftrightarrow> (\<exists>la \<in> set addrs. snd la = 0)"
  by (force simp: has_failures_iff address_results_def AddressNotZero_def image_iff split: if_splits)

lemma failing_code_results: "failing (code_results E client zero addrs) \<longleftrightarrow>
    (\<exists>la \<in> set addrs. fst la \<notin> set zero \<and> AddressHasCode E client (snd la) (fst la) \<noteq> None)"
  by (force simp: has_failures_iff code_results_def image_iff split: option.splits)

lemma zeroAddrs_iff: "l \<in> set (zeroAddrs E addrs) \<longleftrightarrow> (l, 0) \<in> set addrs"
  by (force simp: zeroAddrs_def AddressNotZero_def split: if_splits)

text \<open>The conditions of the chain the deploy step asks for.\<close>

definition has_code :: "eth_client \<Rightarrow> address \<Rightarrow> bool" where
  "has_code c a \<longleftrightarrow> (case ec_CodeAt c a of Inl _ \<Rightarrow> False | Inr codes \<Rightarrow> codes \<noteq> [])"

definition funded :: "eth_client \<Rightarrow> address \<Rightarrow> int \<Rightarrow> bool" where
  "funded c a m \<longleftrightarrow> (case ec_BalanceAt c a of Inl _ \<Rightarrow> False | Inr balance \<Rightarrow> m \<le> balance)"

lemma AddressHasCode_iff: "AddressHasCode E (Some c) a l = None \<longleftrightarrow> has_code c a"
  by (auto simp: AddressHasCode_def has_code_def split: sum.splits)

lemma KeyHasFunds_iff: "KeyHasFunds E (Some c) k m = None \<longleftrightarrow> funded c (te_KeyAddress E k) m"
  by (auto simp: KeyHasFunds_def Let_def funded_def split: sum.splits)

definition assigned_ok :: "(string \<Rightarrow> bool) \<Rightarrow> string option \<Rightarrow> bool" where
  "assigned_ok regex val \<longleftrightarrow> (case val of None \<Rightarrow> False | Some v \<Rightarrow> regex v)"

lemma env_result_fails: "ResultStatus (env_result E key regex val) = FAIL \<longleftrightarrow> \<not> assigned_ok regex val"
  by (simp add: env_result_def Let_def assigned_ok_def split: option.split)

text \<open>What the file assigns to the two variables.\<close>

definition file_assigns :: "bytes \<Rightarrow> string \<Rightarrow> string option" where
  "file_assigns f k = env_lookup (scan_lines f) k"

lemma env_vars_file: "gm_get (env_vars (scan_lines f) []) k = file_assigns f k"
  by (simp add: env_vars_lookup file_assigns_def split: option.split)

lemma parseExtensionEnv_file: "te_Open E path = Some f \<Longrightarrow> parseExtensionEnv E path =
    (case file_assigns f ''EXTENSION_ID'' of Some v \<Rightarrow> v | None \<Rightarrow> [],
     case file_assigns f ''INSTRUCTION_SENDER'' of Some v \<Rightarrow> v | None \<Rightarrow> [])"
  by (simp add: parseExtensionEnv_def env_scan_lookup file_assigns_def)

lemma regex_nonempty [simp]: "\<not> extensionIDRegex []" "\<not> addressRegex []"
  by (simp_all add: extensionIDRegex_def addressRegex_def hex_text_def HasPrefix_def)

text \<open>A file that names a well-formed sender and a well-formed id.\<close>

definition env_file_ok :: "bytes \<Rightarrow> bool" where
  "env_file_ok f \<longleftrightarrow> assigned_ok addressRegex (file_assigns f ''INSTRUCTION_SENDER'')
     \<and> assigned_ok extensionIDRegex (file_assigns f ''EXTENSION_ID'')"

lemma failing_env_format: "failing (CheckExtensionEnvFormat E path) \<longleftrightarrow>
    (\<exists>f. te_Open E path = Some f \<and> \<not> env_file_ok f)"
  by (auto simp: CheckExtensionEnvFormat_def Let_def env_vars_file env_result_fails env_file_ok_def
      split: option.splits)

section \<open>The deploy step\<close>

lemma failing_funds: "failing (funds_results E (Some c) (Some k)) \<longleftrightarrow> \<not> funded c (te_KeyAddress E k) MinDeployBalance"
  using KeyHasFunds_iff [of E c k MinDeployBalance]
  by (auto simp: funds_results_def split: option.splits)

lemma key_source_ok: "ResultStatus (CheckDeployerKeySource E) \<noteq> FAIL"
  by (simp add: CheckDeployerKeySource_def Let_def)

lemma chain_id_fails: "ResultStatus (checkChainID c) = FAIL \<longleftrightarrow> isl (ec_ChainID c)"
  by (simp add: checkChainID_def split: sum.split)

lemma failing_addresses:
  assumes "gm_ok addrs" and "set addrs2 = set addrs"
  shows "failing (address_results E addrs) \<or> failing (code_results E (Some c) (zeroAddrs E addrs) addrs2) \<longleftrightarrow>
    (\<exists>la \<in> set addrs. snd la = 0 \<or> \<not> has_code c (snd la))"
proof -
  have "l \<notin> set (zeroAddrs E addrs)" if "(l, a) \<in> set addrs" "a \<noteq> 0" for l a
    using that assms(1) unfolding zeroAddrs_iff gm_ok_def by (metis eq_key_imp_eq_value)
  moreover have "failing (code_results E (Some c) (zeroAddrs E addrs) addrs2) \<longleftrightarrow>
      (\<exists>la \<in> set addrs. fst la \<notin> set (zeroAddrs E addrs) \<and> \<not> has_code c (snd la))"
    by (simp add: failing_code_results assms(2) AddressHasCode_iff del: not_None_eq)
  ultimately show ?thesis unfolding failing_address_results by (metis prod.collapse)
qed

text \<open>C40. With a client and a key, the deploy step adds a failure exactly when an address of the map
  is zero or has no code, the deployer's balance is unknown or below 0.01 ether, the chain does
  not tell its id, or an \<open>extension.env\<close> that can be read lacks a well-formed sender or id. The
  order in which the two loops visit the map does not matter.
\<close>

theorem deploy_step_fails_iff:
  assumes "gm_ok addrs" and "set addrs2 = set addrs"
  shows "HasFailures (RegisterDeployChecks E (Some c) (Some k) addrs addrs2 path r) \<longleftrightarrow> HasFailures r
    \<or> (\<exists>la \<in> set addrs. snd la = 0 \<or> \<not> has_code c (snd la))
    \<or> \<not> funded c (te_KeyAddress E k) MinDeployBalance
    \<or> isl (ec_ChainID c)
    \<or> path \<noteq> [] \<and> (\<exists>f. te_Open E path = Some f \<and> \<not> env_file_ok f)"
  unfolding RegisterDeployChecks_def HasFailures_Adds failing_addresses [OF assms, of E c, symmetric]
  by (auto simp: failing_funds key_source_ok chain_id_fails failing_env_format)

text \<open>A small world: one funded key, one deployed contract, a devnet.\<close>

definition tiny_tools :: "bytes \<Rightarrow> unit tool_env" where
  "tiny_tools f = \<lparr>te_Getenv = (\<lambda>_. []), te_ReadFile = (\<lambda>_. Inr f), te_NotExist = (\<lambda>_. False),
     te_Dial = (\<lambda>_. False), te_HttpGet = (\<lambda>_. Inl ''refused''), te_IsPrint = (\<lambda>_. True),
     te_AddressHex = (\<lambda>_. ''0x05''), te_HexToAddress = (\<lambda>_. 5), te_KeyAddress = (\<lambda>_. 7),
     te_EVMType = []\<rparr>"

definition tiny_client :: eth_client where
  "tiny_client = \<lparr>ec_CodeAt = (\<lambda>a. Inr (if a = 5 then [byte 1] else [])),
     ec_BalanceAt = (\<lambda>a. Inr (2 * MinDeployBalance)), ec_ChainID = Inr 31337\<rparr>"

theorem deploy_step_fails_iff_witness:
  "\<not> HasFailures (RegisterDeployChecks (tiny_tools []) (Some tiny_client) (Some ())
       [(''FlareTeeManager'', 5)] [(''FlareTeeManager'', 5)] [] \<lparr>Results = []\<rparr>)
   \<and> HasFailures (RegisterDeployChecks (tiny_tools []) (Some tiny_client) (Some ())
       [(''FlareTeeManager'', 6)] [(''FlareTeeManager'', 6)] [] \<lparr>Results = []\<rparr>)"
  by (simp add: deploy_step_fails_iff gm_ok_def HasFailures_empty has_code_def funded_def tiny_client_def
      tiny_tools_def MinDeployBalance_def)

section \<open>The checks of the extension id\<close>

text \<open>The three steps that check the extension id read it alike: on a file that can be read, the
  deploy check D7 (which fills a map), the services check S2 and the version check V4 (which scan
  for two keys) all pass with the same id as their message, or all fail. They pass exactly when the
  last assignment to EXTENSION_ID in the file is \<open>0x\<close> and 64 hexadecimal digits.
\<close>

theorem extension_id_checks_agree:
  assumes "te_Open E path = Some f" and "\<not> te_NotExist E path" and "path \<noteq> []"
  shows "map ResultStatus [CheckExtensionEnvFormat E path ! 1, S2_result E path, V4_result E path]
      = replicate 3 (if assigned_ok extensionIDRegex (file_assigns f ''EXTENSION_ID'') then PASS else FAIL)
    \<and> (assigned_ok extensionIDRegex (file_assigns f ''EXTENSION_ID'') \<longrightarrow>
        map Message [CheckExtensionEnvFormat E path ! 1, S2_result E path, V4_result E path]
          = replicate 3 (the (file_assigns f ''EXTENSION_ID'')))"
  using assms
  by (cases "file_assigns f ''EXTENSION_ID''")
    (auto simp: CheckExtensionEnvFormat_def env_vars_file env_result_def S2_result_def V4_result_def
      parseExtensionEnv_file assigned_ok_def numeral_3_eq_3 Let_def)

definition sample_id :: string where
  "sample_id = ''0x'' @ replicate 64 (CHR ''1'')"

definition sample_sender :: string where
  "sample_sender = ''0x'' @ replicate 40 (CHR ''5'')"

definition sample_env :: "(string \<times> string) list" where
  "sample_env = [(''EXTENSION_ID'', ''zz''), (''INSTRUCTION_SENDER'', sample_sender), (''EXTENSION_ID'', sample_id)]"

lemma sample_id_ok: "extensionIDRegex sample_id" "addressRegex sample_sender" "list_all graphic sample_id"
    "list_all graphic sample_sender" "length sample_id = 66" "length sample_sender = 42"
  by (simp_all add: extensionIDRegex_def addressRegex_def hex_text_def HasPrefix_def is_hex_char_def hex_val_def
      graphic_def code_def sample_id_def sample_sender_def list_all_iff)

lemma sample_env_ok: "list_all env_pair_ok sample_env"
  by (simp add: sample_env_def env_pair_ok_def sample_id_ok max_token_def)
    (simp add: graphic_def code_def)

lemma sample_env_assigns: "file_assigns (env_text sample_env) k = map_of (rev sample_env) k"
  by (simp add: file_assigns_def env_lookup_text sample_env_ok)

lemma sample_env_id: "assigned_ok extensionIDRegex (file_assigns (env_text sample_env) ''EXTENSION_ID'')"
  by (simp add: sample_env_assigns) (simp add: sample_env_def assigned_ok_def sample_id_ok)

theorem extension_id_checks_agree_witness:
  "map ResultStatus [CheckExtensionEnvFormat (tiny_tools (env_text sample_env)) ''f'' ! 1,
      S2_result (tiny_tools (env_text sample_env)) ''f'', V4_result (tiny_tools (env_text sample_env)) ''f'']
    = [PASS, PASS, PASS]"
proof -
  have "te_Open (tiny_tools (env_text sample_env)) ''f'' = Some (env_text sample_env)"
    "\<not> te_NotExist (tiny_tools (env_text sample_env)) ''f''"
    by (simp_all add: te_Open_def tiny_tools_def)
  from extension_id_checks_agree [OF this] show ?thesis
    by (simp add: sample_env_id numeral_3_eq_3)
qed

text \<open>An \<open>extension.env\<close> written as \<open>KEY=value\<close> lines reads back: the reader of the registration
  and service checks finds the last value given to each of its two keys, and the map of the format
  check holds the last value of every key.
\<close>

theorem extension_env_roundtrip:
  assumes "list_all env_pair_ok kvs" and "te_Open E path = Some (env_text kvs)"
  shows "parseExtensionEnv E path =
      (case map_of (rev kvs) ''EXTENSION_ID'' of Some v \<Rightarrow> v | None \<Rightarrow> [],
       case map_of (rev kvs) ''INSTRUCTION_SENDER'' of Some v \<Rightarrow> v | None \<Rightarrow> [])
    \<and> gm_get (env_vars (scan_lines (env_text kvs)) []) = map_of (rev kvs)"
  using assms(1) parseExtensionEnv_file [OF assms(2)]
  by (auto simp: env_vars_file file_assigns_def env_lookup_text)

theorem extension_env_roundtrip_witness:
  "parseExtensionEnv (tiny_tools (env_text sample_env)) ''f'' = (sample_id, sample_sender)"
  using extension_env_roundtrip [of sample_env "tiny_tools (env_text sample_env)" "''f''"]
  by (simp add: sample_env_ok te_Open_def tiny_tools_def) (simp add: sample_env_def)

section \<open>The register step\<close>

lemma failing_counter: "failing (counter_results q) \<longleftrightarrow> (\<exists>err. q = Some (Inl err))"
  by (simp add: counter_results_def split: option.split sum.split)

lemma failing_sender: "failing (sender_results E (Some g) (Some c) x s) \<longleftrightarrow>
    addressRegex s \<and> er_InstructionsSender g x \<noteq> Inr (te_HexToAddress E s)"
  by (simp add: sender_results_def split: sum.split)

lemma failing_owner: "failing (owner_results E (Some a) (Some c) (Some k) x) \<longleftrightarrow>
    al_IsAllowedTeeMachineOwner a x (te_KeyAddress E k) \<noteq> Inr True"
  by (simp add: owner_results_def split: sum.split)

lemma failing_keytype: "failing (keytype_results E (Some g) (Some c) x) \<longleftrightarrow>
    er_IsKeyTypeSupported g x (evmTypeBytes E) \<noteq> Inr True"
  by (simp add: keytype_results_def split: sum.split)

lemma failing_unique: "\<not> failing (unique_results E registry client counter s)"
  by (simp add: unique_results_def Let_def split: option.split)

text \<open>With every handle and a file that sets one of the two keys, the register step adds a failure
  exactly when the counter cannot be read, the id is malformed, or for this id: the sender in the
  file is well-formed but not the one on chain, the deployer is not an allowed machine owner, or
  the EVM key type is not supported. A malformed sender next to a well-formed id is not reported.
\<close>

theorem register_step_fails_iff:
  assumes "path \<noteq> []" and "parseExtensionEnv E path = (extID, s)" and "extID \<noteq> [] \<or> s \<noteq> []"
  shows "HasFailures (RegisterRegistrationChecks E (Some c) (Some k) (Some g) (Some a) path r) \<longleftrightarrow> HasFailures r
    \<or> isl (er_ExtensionsCounter g)
    \<or> \<not> extensionIDRegex extID
    \<or> addressRegex s \<and> er_InstructionsSender g (hex_number (drop 2 extID)) \<noteq> Inr (te_HexToAddress E s)
    \<or> al_IsAllowedTeeMachineOwner a (hex_number (drop 2 extID)) (te_KeyAddress E k) \<noteq> Inr True
    \<or> er_IsKeyTypeSupported g (hex_number (drop 2 extID)) (evmTypeBytes E) \<noteq> Inr True"
proof -
  have "failing (registration_results E (Some c) (Some k) (Some g) (Some a) path) \<longleftrightarrow>
      isl (er_ExtensionsCounter g) \<or> (if \<not> extensionIDRegex extID then True
        else addressRegex s \<and> er_InstructionsSender g (hex_number (drop 2 extID)) \<noteq> Inr (te_HexToAddress E s)
          \<or> al_IsAllowedTeeMachineOwner a (hex_number (drop 2 extID)) (te_KeyAddress E k) \<noteq> Inr True
          \<or> er_IsKeyTypeSupported g (hex_number (drop 2 extID)) (evmTypeBytes E) \<noteq> Inr True)"
    using assms
    by (auto simp: registration_results_def query_counter_def failing_counter failing_sender failing_owner
        failing_keytype failing_unique Let_def isl_def)
  then show ?thesis by (auto simp: RegisterRegistrationChecks_def HasFailures_Adds)
qed

definition tiny_registry :: extension_registry where
  "tiny_registry = \<lparr>er_ExtensionsCounter = Inr 3, er_InstructionsSender = (\<lambda>_. Inr 5),
     er_IsKeyTypeSupported = (\<lambda>_ _. Inr True)\<rparr>"

definition tiny_allowlist :: owner_allowlist where
  "tiny_allowlist = \<lparr>al_IsAllowedTeeMachineOwner = (\<lambda>_ a. Inr (a = 7))\<rparr>"

lemma sample_env_parse: "parseExtensionEnv (tiny_tools (env_text sample_env)) ''f'' = (sample_id, sample_sender)"
proof -
  have "te_Open (tiny_tools (env_text sample_env)) ''f'' = Some (env_text sample_env)"
    by (simp add: te_Open_def tiny_tools_def)
  from parseExtensionEnv_file [OF this] show ?thesis
    by (simp add: sample_env_assigns) (simp add: sample_env_def)
qed

theorem register_step_fails_iff_witness:
  "\<not> HasFailures (RegisterRegistrationChecks (tiny_tools (env_text sample_env)) (Some tiny_client) (Some ())
      (Some tiny_registry) (Some tiny_allowlist) ''f'' \<lparr>Results = []\<rparr>)"
proof -
  have "sample_id \<noteq> []" by (simp add: sample_id_def)
  then show ?thesis
    using register_step_fails_iff [OF _ sample_env_parse, of tiny_client "()" tiny_registry tiny_allowlist "\<lparr>Results = []\<rparr>"]
    by (simp add: HasFailures_empty tiny_registry_def tiny_allowlist_def sample_id_ok)
      (simp add: tiny_tools_def)
qed

lemma matching_ids_filter:
  "matching_ids sender expectedAddr is = map format_int (filter (\<lambda>i. sender i = Inr expectedAddr) is)"
  by (induction "is") (auto split: sum.split)

lemma big_Int64_small: "0 \<le> n \<Longrightarrow> n < 2 ^ 63 \<Longrightarrow> big_Int64 n = n"
  by (simp add: big_Int64_def signed_of_int signed_take_bit_int_eq_self)

text \<open>The duplicate check finds exactly the extensions that use the sender of the file: it warns
  when at least two ids below the counter have it on chain, and then names them all, in ascending
  order, separated by commas; ids whose sender cannot be read are passed over.
\<close>

theorem duplicate_senders_exact:
  assumes "0 < n" and "n < 2 ^ 63" and "addressRegex s"
  shows "unique_results E (Some g) (Some c) (Some n) s =
    (let ids = filter (\<lambda>i. er_InstructionsSender g i = Inr (te_HexToAddress E s)) [0..n - 1] in
     [if 2 \<le> length ids
      then check ''register'' ''R7'' ''unique instruction sender'' WARN (''INSTRUCTION_SENDER '' @ s
        @ '' is used by multiple extensions: '' @ str_join '', '' (map format_int ids)) []
      else check ''register'' ''R7'' ''unique instruction sender'' PASS
        ''instruction sender is unique across registered extensions'' []])"
  using assms by (auto simp: unique_results_def Let_def matching_ids_filter big_Int64_small)

lemma small_numbers: "format_int 0 = ''0''" "format_int 1 = ''1''" "format_int 2 = ''2''"
  by code_simp+

theorem duplicate_senders_exact_witness:
  "map Message (unique_results (tiny_tools []) (Some tiny_registry) (Some tiny_client) (Some 3) sample_sender)
    = [''INSTRUCTION_SENDER '' @ sample_sender @ '' is used by multiple extensions: 0, 1, 2'']"
proof -
  have "filter (\<lambda>i. er_InstructionsSender tiny_registry i = Inr (te_HexToAddress (tiny_tools []) sample_sender)) [0..3 - 1] = [0, 1, 2]"
    by (simp add: tiny_registry_def tiny_tools_def upto_rec1)
  then show ?thesis
    using duplicate_senders_exact [of 3 sample_sender "tiny_tools []" tiny_registry tiny_client]
    by (simp add: sample_id_ok small_numbers [simplified])
qed

end
