(* ===== verification/Tools_Env.thy ===== *)
theory Tools_Env
  imports Validate Decoder_Registry
begin

text \<open>
  The world of the deployment tools: chain, files and clock as a state that is passed along, the
  calls of go-ethereum, of the contract bindings and of the TEE libraries as fields of
  \<open>tools_chain\<close>, and errors as values. A contract call that changes state is a \<open>contract_call\<close>;
  the world keeps a ghost list of those that were broadcast.
\<close>

section \<open>Errors\<close>

text \<open>The text of an error, and what \<open>ErrorData()\<close> answers when one in its chain has that method.\<close>

datatype error_data = DataNil | DataString string | DataBytes bytes | DataOther

record go_error =
  err_Error :: string
  err_Data :: "error_data option"

definition Errorf :: "string \<Rightarrow> go_error" where
  "Errorf msg = \<lparr>err_Error = msg, err_Data = None\<rparr>"

text \<open>\<open>errors.Errorf("%s", err)\<close> with a text before it: the chain is cut.\<close>

definition reworded :: "string \<Rightarrow> go_error \<Rightarrow> go_error" where
  "reworded msg err = Errorf (msg @ err_Error err)"

section \<open>Calls\<close>

record transactor =
  op_From :: address
  op_ChainID :: int
  op_Value :: "int option"

record signature_vrs =
  sig_V :: uint8
  sig_R :: bytes
  sig_S :: bytes

record machine_data =
  md_ExtensionId :: int
  md_InitialOwner :: address
  md_CodeHash :: hash
  md_Platform :: hash
  md_PublicKeyX :: bytes
  md_PublicKeyY :: bytes

record availability_request =
  rq_TeeId :: address
  rq_Rest :: bytes

record availability_response =
  rs_Status :: uint8
  rs_TeeTimestamp :: uint64
  rs_CodeHash :: hash
  rs_Platform :: hash
  rs_InitialSigningPolicyId :: "32 word"
  rs_LastSigningPolicyId :: "32 word"
  rs_State :: bytes

record availability_proof =
  pf_Signatures :: bytes
  pf_Header :: bytes
  pf_Request :: availability_request
  pf_Response :: availability_response

datatype contract_call =
    MachineRegister machine_data signature_vrs address string address
  | RequestTeeAttestationCall address address
  | RequestAvailabilityCheck address hash address address address
  | ToProductionCall availability_proof
  | AddTeeVersionCall int string hash "hash list" hash
  | ExtensionRegister address address
  | AddAllowedTeeMachineOwners int "address list"
  | AddAllowedTeeWalletProjectOwners int "address list"
  | AddSupportedKeyTypesCall int "hash list"
  | DeployTokenCall
  | DeployVaultCall address address address address int
  | MintCall address address int
  | SetTeeExecutorCall address address
  | SetExtensionIdCall address
  | PlaceOrderCall address bytes

record raw_transaction =
  rt_To :: "address option"
  rt_Gas :: uint64
  rt_GasPrice :: int
  rt_Value :: int
  rt_Data :: bytes

record call_msg =
  cm_From :: address
  cm_To :: "address option"
  cm_Gas :: uint64
  cm_GasPrice :: "int option"
  cm_Value :: "int option"
  cm_Data :: bytes

text \<open>A log is the bytes the bindings parse.\<close>

record receipt =
  rc_Status :: uint64
  rc_Logs :: "bytes list"
  rc_TxHash :: hash

record ('k, 'c) tools_chain =
  tc_NewTransactor :: "'k \<Rightarrow> int \<Rightarrow> go_error + transactor"
  tc_Transact :: "transactor \<Rightarrow> contract_call \<Rightarrow> 'c \<Rightarrow> (go_error + hash) \<times> 'c"
  tc_WaitMined :: "int option \<Rightarrow> hash \<Rightarrow> 'c \<Rightarrow> (go_error + receipt) \<times> 'c"
  tc_TransactionByHash :: "hash \<Rightarrow> 'c \<Rightarrow> (go_error + raw_transaction) \<times> 'c"
  tc_Sender :: "raw_transaction \<Rightarrow> go_error + address"
  tc_CallContract :: "call_msg \<Rightarrow> 'c \<Rightarrow> (go_error + bytes) \<times> 'c"
  tc_ChainID :: "'c \<Rightarrow> (go_error + int) \<times> 'c"
  tc_Dial :: "string \<Rightarrow> go_error option"
  tc_Bind :: "string \<Rightarrow> address \<Rightarrow> go_error option"
  tc_GetTeeMachine :: "address \<Rightarrow> 'c \<Rightarrow> (go_error + address) \<times> 'c"
  tc_IsAllowedTeeMachineOwner :: "int \<Rightarrow> address \<Rightarrow> 'c \<Rightarrow> (go_error + bool) \<times> 'c"
  tc_IsAllowedTeeWalletProjectOwner :: "int \<Rightarrow> address \<Rightarrow> 'c \<Rightarrow> (go_error + bool) \<times> 'c"
  tc_IsKeyTypeSupported :: "int \<Rightarrow> hash \<Rightarrow> 'c \<Rightarrow> (go_error + bool) \<times> 'c"
  tc_Sleep :: "int \<Rightarrow> 'c \<Rightarrow> 'c"
  tc_HttpGet :: "string \<Rightarrow> 'c \<Rightarrow> (go_error + (int \<times> bytes)) \<times> 'c"
  tc_HttpPost :: "string \<Rightarrow> bytes \<Rightarrow> 'c \<Rightarrow> (go_error + int) \<times> 'c"
  tc_ReadError :: "string \<Rightarrow> 'c \<Rightarrow> string option"
  tc_WriteError :: "string \<Rightarrow> 'c \<Rightarrow> string option"
  tc_RemoveFails :: "string \<Rightarrow> 'c \<Rightarrow> bool"
  tc_UnpackRevert :: "bytes \<Rightarrow> string option"
  tc_HashHex :: "hash \<Rightarrow> string"
  tc_HexToHash :: "string \<Rightarrow> hash"
  tc_MarshalHash :: "hash \<Rightarrow> string"
  tc_UnmarshalHash :: "string \<Rightarrow> hash option"
  tc_UnmarshalAddress :: "string \<Rightarrow> address option"
  tc_HexToAddress :: "string \<Rightarrow> address"
  tc_AddressHex :: "address \<Rightarrow> string"
  tc_HexToECDSA :: "string \<Rightarrow> go_error + 'k"
  tc_KeyAddress :: "'k \<Rightarrow> address"
  tc_ContractAddress :: "hash \<Rightarrow> address"
  tc_RegistryABI :: "string option"
  tc_PackRegistry :: "string \<Rightarrow> string + bytes"
  tc_UnpackRegistry :: "bytes \<Rightarrow> string + (string + address)"
  tc_PackVault :: "contract_call \<Rightarrow> bytes option"
  tc_PackFacet :: "contract_call \<Rightarrow> string + bytes"
  tc_CustomErrors :: "string \<Rightarrow> (string \<times> bytes \<times> (bytes \<Rightarrow> string + string)) list option"
  tc_FromHex :: "string \<Rightarrow> bytes"
  tc_IsPrint :: "nat \<Rightarrow> bool"
  tc_IsCodeHashPlatformSupported :: "int \<Rightarrow> hash \<Rightarrow> hash \<Rightarrow> 'c \<Rightarrow> (go_error + bool) \<times> 'c"
  tc_InstructionFee :: "address \<Rightarrow> 'c \<Rightarrow> (go_error + int) \<times> 'c"
  tc_Client :: "'c \<Rightarrow> eth_client"
  tc_Registry :: "address \<Rightarrow> 'c \<Rightarrow> extension_registry"
  tc_Allowlist :: "address \<Rightarrow> 'c \<Rightarrow> owner_allowlist"

section \<open>The state\<close>

record 'c tool_world =
  tw_chain :: 'c
  tw_files :: "(string, bytes) gomap"
  tw_sent :: "contract_call list"

type_synonym ('c, 'a) tool_op = "'c tool_world \<Rightarrow> (go_error + 'a) \<times> 'c tool_world"

definition on_chain :: "('c \<Rightarrow> 'a \<times> 'c) \<Rightarrow> 'c tool_world \<Rightarrow> 'a \<times> 'c tool_world" where
  "on_chain f w = (case f (tw_chain w) of (r, c) \<Rightarrow> (r, w\<lparr>tw_chain := c\<rparr>))"

text \<open>\<open>if err != nil\<close>: the error is reworded and returned, else the rest runs on the value.\<close>

definition attempt :: "('c, 'a) tool_op \<Rightarrow> (go_error \<Rightarrow> go_error) \<Rightarrow> ('a \<Rightarrow> ('c, 'b) tool_op) \<Rightarrow> ('c, 'b) tool_op" where
  "attempt m wrap k w = (case m w of (Inl err, w') \<Rightarrow> (Inl (wrap err), w') | (Inr a, w') \<Rightarrow> k a w')"

definition tool_return :: "'a \<Rightarrow> ('c, 'a) tool_op" where
  "tool_return a w = (Inr a, w)"

definition tool_fail :: "go_error \<Rightarrow> ('c, 'a) tool_op" where
  "tool_fail err w = (Inl err, w)"

definition tool_value :: "go_error + 'a \<Rightarrow> ('c, 'a) tool_op" where
  "tool_value r w = (r, w)"

definition transact :: "('k, 'c) tools_chain \<Rightarrow> transactor \<Rightarrow> contract_call \<Rightarrow> ('c, hash) tool_op" where
  "transact E opts call w = (case tc_Transact E opts call (tw_chain w) of
     (Inl err, c) \<Rightarrow> (Inl err, w\<lparr>tw_chain := c\<rparr>)
   | (Inr tx, c) \<Rightarrow> (Inr tx, w\<lparr>tw_chain := c, tw_sent := tw_sent w @ [call]\<rparr>))"

text \<open>\<open>os.ReadFile\<close>, \<open>os.WriteFile\<close> and \<open>os.Remove\<close>; None is a file that does not exist.\<close>

definition tool_ReadFile :: "('k, 'c) tools_chain \<Rightarrow> string \<Rightarrow> 'c tool_world \<Rightarrow> (string option) + bytes" where
  "tool_ReadFile E path w = (case gm_get (tw_files w) path of
     None \<Rightarrow> Inl None
   | Some data \<Rightarrow> (case tc_ReadError E path (tw_chain w) of Some err \<Rightarrow> Inl (Some err) | None \<Rightarrow> Inr data))"

definition tool_WriteFile :: "('k, 'c) tools_chain \<Rightarrow> string \<Rightarrow> bytes \<Rightarrow> 'c tool_world \<Rightarrow> string option \<times> 'c tool_world" where
  "tool_WriteFile E path data w = (case tc_WriteError E path (tw_chain w) of
     Some err \<Rightarrow> (Some err, w)
   | None \<Rightarrow> (None, w\<lparr>tw_files := gm_put path data (tw_files w)\<rparr>))"

definition tool_Remove :: "('k, 'c) tools_chain \<Rightarrow> string \<Rightarrow> 'c tool_world \<Rightarrow> 'c tool_world" where
  "tool_Remove E path w = (if tc_RemoveFails E path (tw_chain w) then w else w\<lparr>tw_files := gm_del path (tw_files w)\<rparr>)"

definition tool_Sleep :: "('k, 'c) tools_chain \<Rightarrow> int \<Rightarrow> 'c tool_world \<Rightarrow> 'c tool_world" where
  "tool_Sleep E d w = w\<lparr>tw_chain := tc_Sleep E d (tw_chain w)\<rparr>"

text \<open>An operation that is followed by another one when it fails, for its effect only.\<close>

definition on_failure :: "('c, 'a) tool_op \<Rightarrow> ('c tool_world \<Rightarrow> 'b \<times> 'c tool_world) \<Rightarrow> ('c, 'a) tool_op" where
  "on_failure m d w = (case m w of
     (Inl err, w') \<Rightarrow> (Inl err, snd (d w')) | (Inr a, w') \<Rightarrow> (Inr a, w'))"

text \<open>\<open>if err := check; err != nil\<close>: a check of the \<open>validate\<close> package.\<close>

definition require :: "('c tool_world \<Rightarrow> string option) \<Rightarrow> ('c, unit) tool_op" where
  "require chk w = (case chk w of Some msg \<Rightarrow> (Inl (Errorf msg), w) | None \<Rightarrow> (Inr (), w))"

section \<open>Structs from JSON\<close>

text \<open>The values of the members that set a field, in order; each must decode, the last one stays.\<close>

definition field_values :: "bytes list \<Rightarrow> (bytes \<times> json) list \<Rightarrow> bytes \<Rightarrow> json list" where
  "field_values names kvs n =
     map snd (filter (\<lambda>(k, v). List.find (\<lambda>m. fold_key m = fold_key k) names = Some n) kvs)"

fun last_decoded :: "('a \<Rightarrow> json \<Rightarrow> 'a option) \<Rightarrow> 'a \<Rightarrow> json list \<Rightarrow> 'a option" where
  "last_decoded dec d [] = Some d"
| "last_decoded dec d (v # vs) = (case dec d v of None \<Rightarrow> None | Some x \<Rightarrow> last_decoded dec x vs)"

definition dec_string :: "string \<Rightarrow> json \<Rightarrow> string option" where
  "dec_string d v = (case v of JStr s \<Rightarrow> Some s | JNull \<Rightarrow> Some d | _ \<Rightarrow> None)"

text \<open>A type with its own unmarshaller, which wants a string.\<close>

definition dec_text :: "(string \<Rightarrow> 'a option) \<Rightarrow> 'a \<Rightarrow> json \<Rightarrow> 'a option" where
  "dec_text of_text d v = (case v of JStr s \<Rightarrow> of_text s | _ \<Rightarrow> None)"

section \<open>The shape of a run\<close>

text \<open>An operation that leaves the files alone and broadcasts at most \<open>n\<close> calls, each in \<open>P\<close>.\<close>

definition sends :: "nat \<Rightarrow> (contract_call \<Rightarrow> bool) \<Rightarrow> 'c tool_world \<Rightarrow> 'c tool_world \<Rightarrow> bool" where
  "sends n P w w' \<longleftrightarrow> tw_files w' = tw_files w
     \<and> (\<exists>new. tw_sent w' = tw_sent w @ new \<and> length new \<le> n \<and> list_all P new)"

definition op_sends :: "nat \<Rightarrow> (contract_call \<Rightarrow> bool) \<Rightarrow> ('c tool_world \<Rightarrow> 'a \<times> 'c tool_world) \<Rightarrow> bool" where
  "op_sends n P m \<longleftrightarrow> (\<forall>w. sends n P w (snd (m w)))"

named_theorems op_sends_intros

lemma sends_refl: "sends n P w w"
  by (simp add: sends_def)

lemma sends_trans: "sends m P w w' \<Longrightarrow> sends n P w' w'' \<Longrightarrow> sends (m + n) P w w''"
  unfolding sends_def by auto

lemma op_sends_attempt: "op_sends m P f \<Longrightarrow> (\<And>a. op_sends n P (k a)) \<Longrightarrow> op_sends (m + n) P (attempt f wrap k)"
  unfolding op_sends_def
proof (intro allI)
  fix w
  assume f: "\<forall>w. sends m P w (snd (f w))" and k: "\<And>a. \<forall>w. sends n P w (snd (k a w))"
  show "sends (m + n) P w (snd (attempt f wrap k w))"
  proof (cases "f w")
    case (Pair r w')
    then have "sends m P w w'" using f [rule_format, of w] by simp
    then show ?thesis
      using Pair k sends_trans [of m P w w' n] sends_refl [of n P w']
      by (auto simp: attempt_def split: sum.split)
  qed
qed

lemma op_sends_first [op_sends_intros]: "op_sends 0 P f \<Longrightarrow> (\<And>a. op_sends n P (k a)) \<Longrightarrow> op_sends n P (attempt f wrap k)"
  using op_sends_attempt [of 0 P f n k wrap] by simp

lemma op_sends_last: "op_sends n P f \<Longrightarrow> (\<And>a. op_sends 0 P (k a)) \<Longrightarrow> op_sends n P (attempt f wrap k)"
  using op_sends_attempt [of n P f 0 k wrap] by simp

lemma op_sends_on_chain [op_sends_intros]: "op_sends n P (on_chain f)"
  by (simp add: op_sends_def sends_def on_chain_def split: prod.split)

lemma op_sends_simple [op_sends_intros]: "op_sends n P (tool_return a)" "op_sends n P (tool_fail err)"
    "op_sends n P (tool_value r)"
  by (simp_all add: op_sends_def tool_return_def tool_fail_def tool_value_def sends_refl)

lemma op_sends_transact: "P call \<Longrightarrow> op_sends 1 P (transact E opts call)"
  by (auto simp: op_sends_def sends_def transact_def split: prod.split sum.split)

lemma op_sends_sleep: "sends n P w w' \<Longrightarrow> sends n P w (tool_Sleep E d w')"
  by (simp add: sends_def tool_Sleep_def)

lemma op_sends_if [op_sends_intros]: "(c \<Longrightarrow> op_sends n P f) \<Longrightarrow> (\<not> c \<Longrightarrow> op_sends n P g) \<Longrightarrow> op_sends n P (if c then f else g)"
  by simp

lemma op_sends_prod [op_sends_intros]: "(\<And>a b. op_sends n P (f a b)) \<Longrightarrow> op_sends n P (case x of (a, b) \<Rightarrow> f a b)"
  by (simp split: prod.split)

lemma op_sends_transact_attempt [op_sends_intros]:
  "P call \<Longrightarrow> (\<And>a. op_sends 0 P (k a)) \<Longrightarrow> op_sends 1 P (attempt (transact E opts call) wrap k)"
  by (blast intro: op_sends_last op_sends_transact)

lemma op_sends_on_failure [op_sends_intros]:
  assumes "op_sends n P m" and "op_sends 0 P d"
  shows "op_sends n P (on_failure m d)"
proof -
  have "sends n P w (snd (on_failure m d w))" for w
  proof (cases "m w")
    case (Pair r w')
    have "sends n P w w'" using assms(1) Pair unfolding op_sends_def by (metis snd_conv)
    moreover have "sends 0 P w' (snd (d w'))" using assms(2) unfolding op_sends_def by blast
    ultimately have "sends n P w w'" "sends 0 P w' (snd (d w'))" .
    then show ?thesis using Pair sends_trans [of n P w w' 0] by (auto simp: on_failure_def split: sum.split)
  qed
  then show ?thesis by (simp add: op_sends_def)
qed

lemma op_sends_transact_on_failure [op_sends_intros]:
  "P call \<Longrightarrow> op_sends 0 P d \<Longrightarrow> (\<And>a. op_sends 0 P (k a))
    \<Longrightarrow> op_sends 1 P (attempt (on_failure (transact E opts call) d) wrap k)"
  by (rule op_sends_last [OF op_sends_on_failure [OF op_sends_transact]])

lemma op_sends_cases [op_sends_intros]:
  "(\<And>a. op_sends n P (f a)) \<Longrightarrow> (\<And>b. op_sends n P (g b)) \<Longrightarrow> op_sends n P (case v of Inl a \<Rightarrow> f a | Inr b \<Rightarrow> g b)"
  "op_sends n P m \<Longrightarrow> (\<And>b. op_sends n P (g b)) \<Longrightarrow> op_sends n P (case p of None \<Rightarrow> m | Some b \<Rightarrow> g b)"
  by (simp_all split: sum.split option.split)

lemma op_sends_require [op_sends_intros]: "op_sends n P (require chk)"
  by (auto simp: op_sends_def sends_def require_def split: option.split)

lemma op_sends_run: "op_sends n P m \<Longrightarrow> sends n P w (snd (m w))"
  by (simp add: op_sends_def)

lemma op_sendsD: "op_sends n P m \<Longrightarrow> m w = (r, w') \<Longrightarrow> sends n P w w'"
  unfolding op_sends_def by (metis snd_conv)

lemma attempt_cases:
  "attempt m wrap k w = (r, w'') \<Longrightarrow> (\<exists>err. m w = (Inl err, w'') \<and> r = Inl (wrap err))
    \<or> (\<exists>a w'. m w = (Inr a, w') \<and> k a w' = (r, w''))"
  by (auto simp: attempt_def split: prod.splits sum.splits)

section \<open>Weakest preconditions on the broadcast calls\<close>

text \<open>\<open>calls F S m h\<close>: after the calls \<open>h\<close>, the operation extends them to a list in \<open>F\<close> if it fails and
  in \<open>S a\<close> if it returns \<open>a\<close>. One rule per combinator; they are applied backwards.\<close>

definition calls :: "(contract_call list \<Rightarrow> bool) \<Rightarrow> ('a \<Rightarrow> contract_call list \<Rightarrow> bool) \<Rightarrow> ('c, 'a) tool_op
    \<Rightarrow> contract_call list \<Rightarrow> bool" where
  "calls F S m h \<longleftrightarrow> (\<forall>w r w'. m w = (r, w') \<longrightarrow> (\<exists>new. tw_sent w' = tw_sent w @ new
     \<and> (case r of Inl _ \<Rightarrow> F (h @ new) | Inr a \<Rightarrow> S a (h @ new))))"

text \<open>A state of the chain in which a query answers \<open>a\<close>.\<close>

definition answered :: "('c \<Rightarrow> (go_error + 'a) \<times> 'c) \<Rightarrow> 'a \<Rightarrow> bool" where
  "answered f a \<longleftrightarrow> (\<exists>c. fst (f c) = Inr a)"

named_theorems calls_rules

lemma callsD: "calls F S m [] \<Longrightarrow> m w = (r, w') \<Longrightarrow>
    \<exists>new. tw_sent w' = tw_sent w @ new \<and> (case r of Inl _ \<Rightarrow> F new | Inr a \<Rightarrow> S a new)"
  unfolding calls_def by (metis append_Nil)

lemma calls_attempt [calls_rules]:
  assumes "calls F (\<lambda>a. calls F S (k a)) m h"
  shows "calls F S (attempt m wrap k) h"
  unfolding calls_def
proof (intro allI impI)
  fix w r w''
  assume "attempt m wrap k w = (r, w'')"
  from attempt_cases [OF this]
  show "\<exists>new. tw_sent w'' = tw_sent w @ new \<and> (case r of Inl _ \<Rightarrow> F (h @ new) | Inr a \<Rightarrow> S a (h @ new))"
  proof (elim disjE exE conjE)
    fix err
    assume "m w = (Inl err, w'')" and "r = Inl (wrap err)"
    then show ?thesis using assms unfolding calls_def by fastforce
  next
    fix a w'
    assume m: "m w = (Inr a, w')" and k: "k a w' = (r, w'')"
    from m obtain x where x: "tw_sent w' = tw_sent w @ x" "calls F S (k a) (h @ x)"
      using assms unfolding calls_def [of _ _ m] by fastforce
    from x(2) k obtain y where "tw_sent w'' = tw_sent w' @ y"
        "case r of Inl _ \<Rightarrow> F ((h @ x) @ y) | Inr a \<Rightarrow> S a ((h @ x) @ y)"
      unfolding calls_def by blast
    with x(1) show ?thesis by (intro exI [of _ "x @ y"]) (cases r; simp)
  qed
qed

lemma calls_transact [calls_rules]:
  "F h \<Longrightarrow> (\<And>tx. S tx (h @ [call])) \<Longrightarrow> calls F S (transact E opts call) h"
  by (auto simp: calls_def transact_def split: prod.splits sum.splits)

lemma calls_quiet: "op_sends 0 P m \<Longrightarrow> F h \<Longrightarrow> (\<And>a. S a h) \<Longrightarrow> calls F S m h"
  unfolding calls_def by (auto dest!: op_sendsD simp: sends_def split: sum.splits)

lemma calls_quiet_result:
  "op_sends 0 P m \<Longrightarrow> F h \<Longrightarrow> (\<And>a w w'. m w = (Inr a, w') \<Longrightarrow> S a h) \<Longrightarrow> calls F S m h"
  unfolding calls_def by (auto dest!: op_sendsD simp: sends_def split: sum.splits)

text \<open>The result of the run may be used as well.\<close>

lemma calls_result:
  assumes "calls F S m h" and "\<And>x. F x \<Longrightarrow> F' x"
    and "\<And>a x w w'. S a x \<Longrightarrow> m w = (Inr a, w') \<Longrightarrow> S' a x"
  shows "calls F' S' m h"
  unfolding calls_def
proof (intro allI impI)
  fix w r w'
  assume run: "m w = (r, w')"
  from assms(1) run obtain new where "tw_sent w' = tw_sent w @ new"
      "case r of Inl _ \<Rightarrow> F (h @ new) | Inr a \<Rightarrow> S a (h @ new)"
    unfolding calls_def by blast
  then show "\<exists>new. tw_sent w' = tw_sent w @ new \<and> (case r of Inl _ \<Rightarrow> F' (h @ new) | Inr a \<Rightarrow> S' a (h @ new))"
    using assms(2,3) run by (intro exI [of _ new]) (cases r; simp)
qed

lemma calls_value [calls_rules]:
  "F h \<Longrightarrow> (\<And>a. S a h) \<Longrightarrow> calls F S (tool_value v) h"
  "S b h \<Longrightarrow> calls F S (tool_return b) h"
  "F h \<Longrightarrow> calls F S (tool_fail err) h"
  by (auto simp: calls_def tool_value_def tool_return_def tool_fail_def split: sum.splits)

lemma calls_on_chain [calls_rules]:
  assumes "F h" and "\<And>a. answered f a \<Longrightarrow> S a h"
  shows "calls F S (on_chain f) h"
  unfolding calls_def
proof (intro allI impI)
  fix w r w'
  assume run: "on_chain f w = (r, w')"
  obtain c where c: "f (tw_chain w) = (r, c)" "w' = w\<lparr>tw_chain := c\<rparr>"
    using run by (auto simp: on_chain_def split: prod.splits)
  have "answered f a" if "r = Inr a" for a
    using c(1) that unfolding answered_def by (metis fst_conv)
  then show "\<exists>new. tw_sent w' = tw_sent w @ new \<and> (case r of Inl _ \<Rightarrow> F (h @ new) | Inr a \<Rightarrow> S a (h @ new))"
    using assms c(2) by (intro exI [of _ "[]"]) (simp split: sum.split)
qed

lemma calls_on_failure [calls_rules]:
  assumes m: "calls F S m h" and d: "op_sends 0 (\<lambda>_. True) d"
  shows "calls F S (on_failure m d) h"
  unfolding calls_def
proof (intro allI impI)
  fix w r w'
  assume run: "on_failure m d w = (r, w')"
  obtain q w1 where q: "m w = (q, w1)" by fastforce
  have "sends 0 (\<lambda>_. True) w1 (snd (d w1))" using d unfolding op_sends_def by blast
  then have "tw_sent (snd (d w1)) = tw_sent w1" by (simp add: sends_def)
  with run q m show "\<exists>new. tw_sent w' = tw_sent w @ new \<and> (case r of Inl _ \<Rightarrow> F (h @ new) | Inr a \<Rightarrow> S a (h @ new))"
    unfolding calls_def by (cases q) (fastforce simp: on_failure_def)+
qed

lemma calls_if [calls_rules]:
  "(c \<Longrightarrow> calls F S f h) \<Longrightarrow> (\<not> c \<Longrightarrow> calls F S g h) \<Longrightarrow> calls F S (if c then f else g) h"
  by simp

lemma calls_prod [calls_rules]:
  "(\<And>a b. x = (a, b) \<Longrightarrow> calls F S (f a b) h) \<Longrightarrow> calls F S (case x of (a, b) \<Rightarrow> f a b) h"
  by (simp split: prod.split)

lemma calls_mono:
  "calls F S m h \<Longrightarrow> (\<And>x. F x \<Longrightarrow> F' x) \<Longrightarrow> (\<And>a x. S a x \<Longrightarrow> S' a x) \<Longrightarrow> calls F' S' m h"
  unfolding calls_def
proof (intro allI impI)
  fix w r w'
  assume all: "\<forall>w r w'. m w = (r, w') \<longrightarrow> (\<exists>new. tw_sent w' = tw_sent w @ new
      \<and> (case r of Inl _ \<Rightarrow> F (h @ new) | Inr a \<Rightarrow> S a (h @ new)))"
    and F: "\<And>x. F x \<Longrightarrow> F' x" and S: "\<And>a x. S a x \<Longrightarrow> S' a x" and "m w = (r, w')"
  then obtain new where "tw_sent w' = tw_sent w @ new" "case r of Inl _ \<Rightarrow> F (h @ new) | Inr a \<Rightarrow> S a (h @ new)"
    by blast
  then show "\<exists>new. tw_sent w' = tw_sent w @ new \<and> (case r of Inl _ \<Rightarrow> F' (h @ new) | Inr a \<Rightarrow> S' a (h @ new))"
    using F S by (intro exI [of _ new]) (cases r; simp)
qed

end
