(* ===== verification/Support.thy ===== *)
theory Support
  imports Tools_Env
begin

text \<open>
  The set-up every tool shares: \<open>tools/pkg/configs/configs.go\<close> (constants and the address file),
  \<open>tools/pkg/support/support.go\<close> (keys, bindings, waiting for a transaction) and
  \<open>tools/pkg/fccutils/revert.go\<close> (the reason of a revert).
\<close>

section \<open>configs\<close>

definition ExtensionProxyURL :: string where
  "ExtensionProxyURL = ''http://localhost:6664''"

definition ChainNodeURL :: string where
  "ChainNodeURL = ''http://127.0.0.1:8545''"

definition AddressesFile :: string where
  "AddressesFile = ''../docker/sim_dump/deployed-addresses.json''"

definition ExtConfigurationPort :: int where "ExtConfigurationPort = 5501"
definition ExtProxyInternalPort :: int where "ExtProxyInternalPort = 6663"
definition ExtensionServerPort :: int where "ExtensionServerPort = 7701"

text \<open>\<open>init\<close>: None is the panic of a key that cannot be read.\<close>

definition PrvWithFunds :: "('k, 'c) tools_chain \<Rightarrow> 'k option" where
  "PrvWithFunds E = (case tc_HexToECDSA E ''804b01a8c27a65cc694a867be76edae3ccce7a7161cda1f67a8349df696d2207'' of
     Inl _ \<Rightarrow> None | Inr k \<Rightarrow> Some k)"

section \<open>Addresses\<close>

record Addresses =
  FlareSystemManager :: address
  Fdc2Hub :: address
  FlareTeeManager :: address

definition address_keys :: "string list" where
  "address_keys = [''FlareSystemsManager'', ''Fdc2Hub'', ''FlareTeeManager'']"

definition zero_addresses :: Addresses where
  "zero_addresses = \<lparr>FlareSystemManager = 0, Fdc2Hub = 0, FlareTeeManager = 0\<rparr>"

text \<open>\<open>json.Unmarshal\<close> into the struct: an object of addresses under their tags.\<close>

definition addresses_of_json :: "('k, 'c) tools_chain \<Rightarrow> json \<Rightarrow> Addresses option" where
  "addresses_of_json E v = (case v of
     JObj kvs \<Rightarrow>
       (case (last_decoded (dec_text (tc_UnmarshalAddress E)) 0 (field_values address_keys kvs ''FlareSystemsManager''),
              last_decoded (dec_text (tc_UnmarshalAddress E)) 0 (field_values address_keys kvs ''Fdc2Hub''),
              last_decoded (dec_text (tc_UnmarshalAddress E)) 0 (field_values address_keys kvs ''FlareTeeManager'')) of
          (Some a, Some b, Some c) \<Rightarrow> Some \<lparr>FlareSystemManager = a, Fdc2Hub = b, FlareTeeManager = c\<rparr>
        | _ \<Rightarrow> None)
   | JNull \<Rightarrow> Some zero_addresses
   | _ \<Rightarrow> None)"

definition ReadAddresses :: "('k, 'c) tools_chain \<Rightarrow> string \<Rightarrow> 'c tool_world \<Rightarrow> Addresses option" where
  "ReadAddresses E path w = (case tool_ReadFile E path w of
     Inl _ \<Rightarrow> None
   | Inr data \<Rightarrow> (case json_whole data of None \<Rightarrow> None | Some v \<Rightarrow> addresses_of_json E v))"

text \<open>The entries of the deployment dump.\<close>

record RawContract =
  rawName :: string
  rawContractName :: string
  rawAddress :: string

definition raw_contract_of_json :: "json \<Rightarrow> RawContract option" where
  "raw_contract_of_json v = (case string_fields [''name'', ''contractName'', ''address''] v of
     None \<Rightarrow> None
   | Some f \<Rightarrow> Some \<lparr>rawName = f ''name'', rawContractName = f ''contractName'', rawAddress = f ''address''\<rparr>)"

fun raw_contracts :: "json list \<Rightarrow> RawContract list option" where
  "raw_contracts [] = Some []"
| "raw_contracts (v # vs) = (case (raw_contract_of_json v, raw_contracts vs) of
     (Some c, Some cs) \<Rightarrow> Some (c # cs) | _ \<Rightarrow> None)"

text \<open>\<open>fieldMap\<close>: the destination of a name is the field with that tag.\<close>

definition set_address :: "string \<Rightarrow> address \<Rightarrow> Addresses \<Rightarrow> Addresses" where
  "set_address k a addrs =
     (if k = ''FlareSystemsManager'' then addrs\<lparr>FlareSystemManager := a\<rparr>
      else if k = ''Fdc2Hub'' then addrs\<lparr>Fdc2Hub := a\<rparr>
      else if k = ''FlareTeeManager'' then addrs\<lparr>FlareTeeManager := a\<rparr>
      else addrs)"

fun assign_addresses :: "('k, 'c) tools_chain \<Rightarrow> RawContract list \<Rightarrow> Addresses \<Rightarrow> Addresses" where
  "assign_addresses E [] addrs = addrs"
| "assign_addresses E (c # cs) addrs =
     assign_addresses E cs (set_address (rawName c) (tc_HexToAddress E (rawAddress c)) addrs)"

definition ParseAddresses :: "('k, 'c) tools_chain \<Rightarrow> string \<Rightarrow> 'c tool_world \<Rightarrow> go_error + Addresses" where
  "ParseAddresses E path w = (case tool_ReadFile E path w of
     Inl None \<Rightarrow> Inl (Errorf (''open '' @ path @ '': no such file or directory''))
   | Inl (Some err) \<Rightarrow> Inl (Errorf err)
   | Inr data \<Rightarrow> (case json_whole data of
       None \<Rightarrow> Inl (Errorf ''invalid JSON'')
     | Some JNull \<Rightarrow> Inr zero_addresses
     | Some (JArr vs) \<Rightarrow> (case raw_contracts vs of
         None \<Rightarrow> Inl (Errorf ''cannot unmarshal'')
       | Some raw \<Rightarrow> Inr (assign_addresses E raw zero_addresses))
     | Some _ \<Rightarrow> Inl (Errorf ''cannot unmarshal'')))"

section \<open>Support\<close>

text \<open>A binding is the address it is bound to.\<close>

record 'k Support =
  Prv :: 'k
  FlareSystemManagerBinding :: address
  Fdc2HubBinding :: address
  TeeMachineRegistry :: address
  TeeWalletProjectManager :: address
  TeeWalletManager :: address
  TeeWalletKeyManager :: address
  TeeVerification :: address
  TeeExtensionRegistry :: address
  TeeOwnerAllowlist :: address
  SupportAddresses :: Addresses
  SupportChainID :: int

text \<open>\<open>godotenv.Load\<close> has run: \<open>getenv\<close> is the environment after it.\<close>

definition DefaultPrivateKey :: "('k, 'c) tools_chain \<Rightarrow> (string \<Rightarrow> string) \<Rightarrow> 'k \<Rightarrow> go_error + 'k" where
  "DefaultPrivateKey E getenv prvWithFunds = (let privKeyString = getenv ''DEPLOYMENT_PRIVATE_KEY'' in
     if privKeyString = [] then Inr prvWithFunds
     else (let digits = (if HasPrefix privKeyString ''0x'' \<or> HasPrefix privKeyString ''0X''
                         then drop 2 privKeyString else privKeyString) in
       case tc_HexToECDSA E digits of Inl err \<Rightarrow> Inl (reworded [] err) | Inr k \<Rightarrow> Inr k))"

fun bind_all :: "('k, 'c) tools_chain \<Rightarrow> (string \<times> address) list \<Rightarrow> go_error option" where
  "bind_all E [] = None"
| "bind_all E ((contract, addr) # bs) = (case tc_Bind E contract addr of
     Some err \<Rightarrow> Some err | None \<Rightarrow> bind_all E bs)"

definition NewSupport :: "('k, 'c) tools_chain \<Rightarrow> 'k \<Rightarrow> Addresses \<Rightarrow> ('c, 'k Support) tool_op" where
  "NewSupport E prv addresses w = (let diamond = FlareTeeManager addresses in
     case bind_all E [(''MachineManager'', diamond), (''WalletManager'', diamond), (''WalletKeyManager'', diamond),
         (''WalletProjectManager'', diamond), (''FlareSystemsManager'', FlareSystemManager addresses),
         (''Fdc2Hub'', Fdc2Hub addresses), (''Verification'', diamond), (''ExtensionManager'', diamond),
         (''OwnerAllowlist'', diamond)] of
       Some err \<Rightarrow> tool_fail err w
     | None \<Rightarrow> attempt (on_chain (tc_ChainID E)) id (\<lambda>chainID. tool_return
         \<lparr>Prv = prv, FlareSystemManagerBinding = FlareSystemManager addresses, Fdc2HubBinding = Fdc2Hub addresses,
          TeeMachineRegistry = diamond, TeeWalletProjectManager = diamond, TeeWalletManager = diamond,
          TeeWalletKeyManager = diamond, TeeVerification = diamond, TeeExtensionRegistry = diamond,
          TeeOwnerAllowlist = diamond, SupportAddresses = addresses, SupportChainID = chainID\<rparr>) w)"

definition DefaultSupport :: "('k, 'c) tools_chain \<Rightarrow> (string \<Rightarrow> string) \<Rightarrow> 'k \<Rightarrow> string \<Rightarrow> string
    \<Rightarrow> ('c, 'k Support) tool_op" where
  "DefaultSupport E getenv prvWithFunds path chainNodeURL w =
     (case (case ReadAddresses E path w of Some addr \<Rightarrow> Inr addr | None \<Rightarrow> ParseAddresses E path w) of
        Inl err \<Rightarrow> tool_fail (reworded [] err) w
      | Inr addr \<Rightarrow> (case tc_Dial E chainNodeURL of
          Some err \<Rightarrow> tool_fail (reworded [] err) w
        | None \<Rightarrow> (case DefaultPrivateKey E getenv prvWithFunds of
            Inl err \<Rightarrow> tool_fail err w
          | Inr privKey \<Rightarrow> NewSupport E privKey addr w)))"

section \<open>Waiting for a transaction\<close>

definition error_data_string :: "go_error \<Rightarrow> string option" where
  "error_data_string err = (case err_Data err of Some (DataString s) \<Rightarrow> Some s | _ \<Rightarrow> None)"

definition decodeRevertFromError :: "('k, 'c) tools_chain \<Rightarrow> go_error \<Rightarrow> string" where
  "decodeRevertFromError E err = (case error_data_string err of
     None \<Rightarrow> []
   | Some hexStr \<Rightarrow> (case hex_decode (TrimPrefix hexStr ''0x'') of
       None \<Rightarrow> []
     | Some decoded \<Rightarrow> (case tc_UnpackRevert E decoded of Some reason \<Rightarrow> reason | None \<Rightarrow> [])))"

definition getFailingMessage :: "('k, 'c) tools_chain \<Rightarrow> hash \<Rightarrow> ('c, string) tool_op" where
  "getFailingMessage E h =
     attempt (on_chain (tc_TransactionByHash E h)) (reworded []) (\<lambda>tx.
     attempt (tool_value (tc_Sender E tx)) (reworded []) (\<lambda>from_addr w.
     (case on_chain (tc_CallContract E \<lparr>cm_From = from_addr, cm_To = rt_To tx, cm_Gas = rt_Gas tx,
         cm_GasPrice = Some (rt_GasPrice tx), cm_Value = Some (rt_Value tx), cm_Data = rt_Data tx\<rparr>) w of
        (Inl err, w') \<Rightarrow> (let reason = decodeRevertFromError E err in
           (Inr (if reason \<noteq> [] then reason else err_Error err), w'))
      | (Inr res, w') \<Rightarrow> (case tc_UnpackRevert E res of
           Some reason \<Rightarrow> (Inr reason, w')
         | None \<Rightarrow> if 0 < length res then (Inr (''0x'' @ hex_encode res), w')
             else (Inr ''unknown revert reason'', w')))))"

definition minutes_ns :: "int \<Rightarrow> int" where
  "minutes_ns n = n * 60 * second_ns"

definition CheckTx :: "('k, 'c) tools_chain \<Rightarrow> hash \<Rightarrow> ('c, receipt) tool_op" where
  "CheckTx E tx =
     attempt (on_chain (tc_WaitMined E (Some (minutes_ns 2)) tx))
       (reworded (''transaction not mined within 2 minutes (tx: '' @ tc_HashHex E tx @ ''): '')) (\<lambda>rc.
     if rc_Status rc = 0
     then attempt (getFailingMessage E tx) id (\<lambda>reason. tool_fail (Errorf (''error: Transaction fail: '' @ reason)))
     else tool_return rc)"

section \<open>The reason of a revert\<close>

definition decodeRevertHex :: "('k, 'c) tools_chain \<Rightarrow> string \<Rightarrow> string" where
  "decodeRevertHex E s = (let hexStr = TrimPrefix s ''0x'' in
     case hex_decode hexStr of
       None \<Rightarrow> []
     | Some decoded \<Rightarrow> if length decoded < 4 then []
         else (case tc_UnpackRevert E decoded of Some reason \<Rightarrow> reason | None \<Rightarrow> ''0x'' @ hexStr))"

definition DecodeRevertReason :: "('k, 'c) tools_chain \<Rightarrow> go_error \<Rightarrow> string" where
  "DecodeRevertReason E err = (case error_data_string err of None \<Rightarrow> [] | Some hexStr \<Rightarrow> decodeRevertHex E hexStr)"

definition SimulateAndDecodeRevert :: "('k, 'c) tools_chain \<Rightarrow> address \<Rightarrow> address \<Rightarrow> int option \<Rightarrow> bytes
    \<Rightarrow> 'c tool_world \<Rightarrow> string \<times> 'c tool_world" where
  "SimulateAndDecodeRevert E from_addr to_addr value data w =
     (case on_chain (tc_CallContract E \<lparr>cm_From = from_addr, cm_To = Some to_addr, cm_Gas = 0, cm_GasPrice = None,
         cm_Value = value, cm_Data = data\<rparr>) w of
        (Inl err, w') \<Rightarrow> (let reason = DecodeRevertReason E err in
          (if reason \<noteq> [] then reason else err_Error err, w'))
      | (Inr result, w') \<Rightarrow> (if 4 \<le> length result then decodeRevertHex E (hex_encode result) else [], w'))"

text \<open>The set-up broadcasts nothing and leaves the files alone.\<close>

lemma op_sends_NewSupport [op_sends_intros]: "op_sends n P (NewSupport E k a)"
proof -
  have "sends n P w (snd (NewSupport E k a w))" for w
    by (auto simp: NewSupport_def Let_def tool_fail_def attempt_def on_chain_def tool_return_def sends_def
        split: option.split prod.split sum.split)
  then show ?thesis by (simp add: op_sends_def)
qed

lemma op_sends_DefaultSupport [op_sends_intros]: "op_sends n P (DefaultSupport E g k path url)"
proof -
  have "sends n P w (snd (DefaultSupport E g k path url w))" for w
    by (auto simp: DefaultSupport_def tool_fail_def sends_refl intro: op_sends_run [OF op_sends_NewSupport]
        split: option.split sum.split)
  then show ?thesis by (simp add: op_sends_def)
qed

end
