(* ===== verification/Tee_Calls.thy ===== *)
theory Tee_Calls
  imports Support
begin

text \<open>
  Talking to a TEE node and its proxy: \<open>tools/pkg/fccutils/tee_calls.go\<close>, \<open>common.go\<close> and
  \<open>encoding.go\<close>. The types and decoders of the tee-node and flare-common modules, and the event
  parsers of the contract bindings, are the fields of \<open>tee_lib\<close>. The two \<open>Require\<close> functions and
  \<open>FatalWithCause\<close> end the process and are part of the commands that call them.
\<close>

text \<open>What the tools read of a \<open>SignedTeeInfoResponse\<close>.\<close>

record tee_info =
  ti_PublicKey :: bytes
  ti_MachineExtensionID :: hash
  ti_MachineInitialOwner :: address
  ti_MachineCodeHash :: hash
  ti_MachinePlatform :: hash
  ti_MachineKeyX :: bytes
  ti_MachineKeyY :: bytes
  ti_Attestation :: string
  ti_DataSignature :: bytes
  ti_ProxySignature :: bytes

record prove_response =
  pr_ResponseHeader :: bytes
  pr_RequestBody :: bytes
  pr_ResponseBody :: bytes
  pr_Signatures :: bytes

text \<open>The action result of an \<open>ActionResponse\<close>.\<close>

record action_result =
  ar_Status :: uint8
  ar_Log :: string
  ar_Data :: bytes

record tee_lib =
  tl_DecodeTeeInfo :: "bytes \<Rightarrow> string + tee_info"
  tl_DecodeActionResponse :: "bytes \<Rightarrow> string + action_result"
  tl_ParsePubKey :: "bytes \<Rightarrow> string + bytes"
  tl_PubkeyToAddress :: "bytes \<Rightarrow> address"
  tl_TeeInfoHash :: "tee_info \<Rightarrow> string + bytes"
  tl_TextHash :: "bytes \<Rightarrow> bytes"
  tl_SigToPub :: "bytes \<Rightarrow> bytes \<Rightarrow> string + bytes"
  tl_ParseClaims :: "string \<Rightarrow> string + bytes"
  tl_ClaimsCodeHash :: "bytes \<Rightarrow> string + hash"
  tl_ClaimsPlatform :: "bytes \<Rightarrow> string + hash"
  tl_MarshalProxyURL :: "string \<Rightarrow> string + bytes"
  tl_MarshalInitialOwner :: "address \<Rightarrow> string + bytes"
  tl_MarshalExtensionID :: "hash \<Rightarrow> string + bytes"
  tl_SignatureRSVtoVRS :: "bytes \<Rightarrow> bytes"
  tl_TeeAttestationRequested :: "bytes \<Rightarrow> string + hash"
  tl_TeeInstructionsSent :: "bytes \<Rightarrow> string + hash"
  tl_TeeExtensionRegistered :: "bytes \<Rightarrow> string + int"
  tl_TeeExtensionContractsSet :: "bytes \<Rightarrow> string + unit"
  tl_AllowedTeeMachineOwnersAdded :: "bytes \<Rightarrow> string + unit"
  tl_AllowedTeeWalletProjectOwnersAdded :: "bytes \<Rightarrow> string + unit"
  tl_OrderPlaced :: "bytes \<Rightarrow> string + int"
  tl_UnmarshalProveResponse :: "bytes \<Rightarrow> string + prove_response"
  tl_DecodeResponseHeader :: "bytes \<Rightarrow> string + bytes"
  tl_DecodeRequest :: "bytes \<Rightarrow> string + availability_request"
  tl_DecodeResponse :: "bytes \<Rightarrow> string + availability_response"
  tl_EVMType :: hash

text \<open>A result of the library as an operation, its error reworded.\<close>

definition lib_value :: "string + 'a \<Rightarrow> ('c, 'a) tool_op" where
  "lib_value r = tool_value (case r of Inl m \<Rightarrow> Inl (Errorf m) | Inr a \<Rightarrow> Inr a)"

definition StatusOK_int :: int where
  "StatusOK_int = 200"

definition repeats :: nat where
  "repeats = 15"

definition TeeInfo :: "('k, 'c) tools_chain \<Rightarrow> tee_lib \<Rightarrow> string \<Rightarrow> ('c, tee_info) tool_op" where
  "TeeInfo E L nodeURL =
     attempt (on_chain (tc_HttpGet E (nodeURL @ ''/info''))) (reworded []) (\<lambda>(status, body).
     lib_value (tl_DecodeTeeInfo L body))"

definition CodeHashAndPlatform :: "tee_lib \<Rightarrow> string \<Rightarrow> ('c, hash \<times> hash) tool_op" where
  "CodeHashAndPlatform L attestationString =
     attempt (lib_value (tl_ParseClaims L attestationString)) (reworded []) (\<lambda>claims.
     attempt (lib_value (tl_ClaimsCodeHash L claims)) (reworded []) (\<lambda>codeHash.
     attempt (lib_value (tl_ClaimsPlatform L claims)) (reworded []) (\<lambda>platform.
     tool_return (codeHash, platform))))"

definition TeeProxyId :: "tee_lib \<Rightarrow> tee_info \<Rightarrow> ('c, address \<times> address) tool_op" where
  "TeeProxyId L teeInfo =
     attempt (lib_value (tl_ParsePubKey L (ti_PublicKey teeInfo))) (reworded []) (\<lambda>pubKey.
     attempt (lib_value (tl_TeeInfoHash L teeInfo)) (reworded []) (\<lambda>h.
     attempt (lib_value (tl_SigToPub L (tl_TextHash L h) (ti_ProxySignature teeInfo))) (reworded []) (\<lambda>proxyPubKey.
     tool_return (tl_PubkeyToAddress L pubKey, tl_PubkeyToAddress L proxyPubKey))))"

definition GetTeeProxyID :: "('k, 'c) tools_chain \<Rightarrow> tee_lib \<Rightarrow> string \<Rightarrow> ('c, address \<times> address) tool_op" where
  "GetTeeProxyID E L proxyURL = attempt (TeeInfo E L proxyURL) id (TeeProxyId L)"

section \<open>Polling for a result\<close>

text \<open>The loop: it stops at an answer with status 200, and sleeps two seconds after any other.\<close>

definition action_url :: "('k, 'c) tools_chain \<Rightarrow> string \<Rightarrow> hash \<Rightarrow> string" where
  "action_url E nodeURL actionID = nodeURL @ ''/action/result/'' @ tc_HashHex E actionID"

definition answer_ok :: "go_error + (int \<times> bytes) \<Rightarrow> bool" where
  "answer_ok r \<longleftrightarrow> (case r of Inl _ \<Rightarrow> False | Inr (status, _) \<Rightarrow> status = StatusOK_int)"

fun poll_action :: "('k, 'c) tools_chain \<Rightarrow> string \<Rightarrow> nat \<Rightarrow> (go_error + (int \<times> bytes))
    \<Rightarrow> 'c tool_world \<Rightarrow> (go_error + (int \<times> bytes)) \<times> 'c tool_world" where
  "poll_action E url 0 r w = (r, w)"
| "poll_action E url (Suc n) r w = (case on_chain (tc_HttpGet E url) w of (r', w') \<Rightarrow>
     if answer_ok r' then (r', w') else poll_action E url n r' (tool_Sleep E (2 * second_ns) w'))"

definition ActionResult_call :: "('k, 'c) tools_chain \<Rightarrow> tee_lib \<Rightarrow> string \<Rightarrow> hash \<Rightarrow> ('c, action_result) tool_op" where
  "ActionResult_call E L nodeURL actionID =
     attempt (poll_action E (action_url E nodeURL actionID) repeats (Inl (Errorf []))) (reworded []) (\<lambda>(status, body).
     if status \<noteq> StatusOK_int then tool_fail (Errorf (''action result status not ok, got: '' @ format_int status))
     else attempt (lib_value (tl_DecodeActionResponse L body)) (reworded []) tool_return)"

section \<open>Configuring a node\<close>

definition post_config :: "('k, 'c) tools_chain \<Rightarrow> string \<Rightarrow> string + bytes \<Rightarrow> ('c, unit) tool_op" where
  "post_config E url body =
     attempt (lib_value body) id (\<lambda>b.
     attempt (on_chain (tc_HttpPost E url b)) id (\<lambda>status.
     if status \<noteq> StatusOK_int then tool_fail (Errorf (''unexpected status code: '' @ format_int status))
     else tool_return ()))"

definition SetProxyUrl :: "('k, 'c) tools_chain \<Rightarrow> tee_lib \<Rightarrow> int \<Rightarrow> int \<Rightarrow> ('c, unit) tool_op" where
  "SetProxyUrl E L configurationPort proxyPort =
     post_config E (''http://localhost:'' @ format_int configurationPort @ ''/proxy'')
       (tl_MarshalProxyURL L (''http://localhost:'' @ format_int proxyPort))"

definition SetInitialOwner :: "('k, 'c) tools_chain \<Rightarrow> tee_lib \<Rightarrow> int \<Rightarrow> address \<Rightarrow> ('c, unit) tool_op" where
  "SetInitialOwner E L configurationPort ownerAddress =
     post_config E (''http://localhost:'' @ format_int configurationPort @ ''/initial-owner'')
       (tl_MarshalInitialOwner L ownerAddress)"

definition SetExtensionID :: "('k, 'c) tools_chain \<Rightarrow> tee_lib \<Rightarrow> int \<Rightarrow> hash \<Rightarrow> ('c, unit) tool_op" where
  "SetExtensionID E L configurationPort extensionID =
     post_config E (''http://localhost:'' @ format_int configurationPort @ ''/extension-id'')
       (tl_MarshalExtensionID L extensionID)"

section \<open>Attested code\<close>

text \<open>\<open>common.HexToHash\<close> of the two constants.\<close>

definition TestPlatform :: hash where
  "TestPlatform = 0x544553545f504c4154464f524d00000000000000000000000000000000000000"

definition TeeCodeHash :: hash where
  "TeeCodeHash = 0x194844cf417dde867073e5ab7199fa4d21fd82b5dbe2bdea8b3d7fc18d10fdc2"

definition GetCodeHashAndPlatform :: "('k, 'c) tools_chain \<Rightarrow> tee_lib \<Rightarrow> (string \<Rightarrow> string) \<Rightarrow> tee_info
    \<Rightarrow> ('c, hash \<times> hash) tool_op" where
  "GetCodeHashAndPlatform E L getenv teeInfo =
     attempt (if getenv ''SIMULATED_TEE'' = ''true'' then tool_return (TeeCodeHash, TestPlatform)
              else CodeHashAndPlatform L (ti_Attestation teeInfo)) id (\<lambda>(codeHash, platform).
     if codeHash \<noteq> ti_MachineCodeHash teeInfo
     then tool_fail (Errorf (''code hashes do not match: '' @ tc_HashHex E codeHash @ '', ''
       @ tc_HashHex E (ti_MachineCodeHash teeInfo)))
     else if platform \<noteq> ti_MachinePlatform teeInfo
     then tool_fail (Errorf (''platforms do not matc: '' @ tc_HashHex E platform @ '', ''
       @ tc_HashHex E (ti_MachinePlatform teeInfo)))
     else tool_return (codeHash, platform))"

text \<open>A conversion of arrays of the same bytes.\<close>

definition HashArrayToBytes32Array :: "hash list \<Rightarrow> hash list" where
  "HashArrayToBytes32Array hashes = map id hashes"

section \<open>What the calls leave alone\<close>

lemma op_sends_lib [op_sends_intros]: "op_sends n P (lib_value r)"
  by (simp add: lib_value_def op_sends_intros)

lemma op_sends_failing [op_sends_intros]: "op_sends n P (getFailingMessage E h)"
  unfolding getFailingMessage_def
  by (intro op_sends_intros)
    (auto simp: op_sends_def sends_def on_chain_def Let_def split: prod.split sum.split option.split)

lemma op_sends_CheckTx [op_sends_intros]: "op_sends n P (CheckTx E tx)"
  unfolding CheckTx_def by (intro op_sends_intros)

lemma op_sends_poll: "op_sends n P (poll_action E url k r)"
proof (induction k arbitrary: r)
  case 0
  then show ?case by (simp add: op_sends_def sends_refl)
next
  case (Suc k)
  have "sends n P w (snd (poll_action E url (Suc k) r w))" for w
  proof (cases "on_chain (tc_HttpGet E url) w")
    case (Pair r' w')
    then have w': "tw_files w' = tw_files w" "tw_sent w' = tw_sent w"
      by (auto simp: on_chain_def split: prod.splits)
    moreover have "sends n P (tool_Sleep E (2 * second_ns) w')
        (snd (poll_action E url k r' (tool_Sleep E (2 * second_ns) w')))"
      using Suc unfolding op_sends_def by blast
    ultimately show ?thesis using Pair by (simp add: sends_def tool_Sleep_def)
  qed
  then show ?case by (simp add: op_sends_def)
qed

lemma op_sends_ActionResult [op_sends_intros]: "op_sends n P (ActionResult_call E L url h)"
  unfolding ActionResult_call_def by (intro op_sends_intros op_sends_poll)

lemma op_sends_TeeProxyId [op_sends_intros]: "op_sends n P (TeeProxyId L teeInfo)"
  unfolding TeeProxyId_def by (intro op_sends_intros)

end
