(* ===== verification/Revert_Diag.thy ===== *)
theory Revert_Diag
  imports Tee_Calls
begin

text \<open>
  The diagnosis of a reverted availability check: \<open>tools/pkg/fccutils/diag.go\<close>. The value of the
  function is the text it logs last; its only effect is one more call of the node. The custom
  errors of a contract are a list of name, identifier and argument printer, in the order in which
  this run visits them.
\<close>

definition extractRevertData :: "('k, 'c) tools_chain \<Rightarrow> go_error \<Rightarrow> bytes" where
  "extractRevertData E err = (case err_Data err of
     Some (DataString d) \<Rightarrow> tc_FromHex E d
   | Some (DataBytes d) \<Rightarrow> d
   | _ \<Rightarrow> [])"

text \<open>The selector of \<open>Error(string)\<close>.\<close>

definition error_selector :: bytes where
  "error_selector = [byte 0x08, byte 0xc3, byte 0x79, byte 0xa0]"

fun find_custom_error :: "('k, 'c) tools_chain \<Rightarrow> bytes \<Rightarrow> string list
    \<Rightarrow> (string \<times> string \<times> (bytes \<Rightarrow> string + string)) option" where
  "find_custom_error E selector [] = None"
| "find_custom_error E selector (src # srcs) = (case tc_CustomErrors E src of
     None \<Rightarrow> find_custom_error E selector srcs
   | Some errs \<Rightarrow> (case List.find (\<lambda>(n, i, u). take 4 i = selector) errs of
       Some (n, i, u) \<Rightarrow> Some (src, n, u)
     | None \<Rightarrow> find_custom_error E selector srcs))"

definition error_string :: "('k, 'c) tools_chain \<Rightarrow> bytes \<Rightarrow> string option" where
  "error_string E revertData =
     (if take 4 revertData = error_selector then tc_UnpackRevert E revertData else None)"

definition diag_sources :: "string list" where
  "diag_sources = [''Verification'', ''Fdc2Hub'', ''MachineManager'', ''ExtensionManager'']"

definition diag_text :: "('k, 'c) tools_chain \<Rightarrow> go_error \<Rightarrow> string" where
  "diag_text E callErr = (let revertData = extractRevertData E callErr; selector = take 4 revertData in
     if length revertData = 0 then ''diag: eth_call error has no revert data: '' @ err_Error callErr
     else if length revertData < 4
     then ''diag: revert data too short to contain a selector: 0x'' @ hex_encode revertData
     else (case error_string E revertData of
       Some reason \<Rightarrow> ''diag: revert reason (string): '' @ Quote (tc_IsPrint E) reason
     | None \<Rightarrow> (case find_custom_error E selector diag_sources of
         Some (src, n, unpack) \<Rightarrow> (case unpack (drop 4 revertData) of
           Inl err \<Rightarrow> ''diag: revert -> '' @ src @ ''.'' @ n @ '' (arg unpack failed: '' @ err @ '') data=0x''
             @ hex_encode revertData
         | Inr args \<Rightarrow> ''diag: revert -> '' @ src @ ''.'' @ n @ ''('' @ args @ '')'')
       | None \<Rightarrow> ''diag: revert with unknown selector 0x'' @ hex_encode selector @ ''; full data: 0x''
           @ hex_encode revertData)))"

definition diagAvailabilityCheckRevert :: "('k, 'c) tools_chain \<Rightarrow> 'k Support \<Rightarrow> transactor \<Rightarrow> address \<Rightarrow> hash
    \<Rightarrow> address \<Rightarrow> address \<Rightarrow> address \<Rightarrow> 'c tool_world \<Rightarrow> string \<times> 'c tool_world" where
  "diagAvailabilityCheckRevert E s opts teeID instructionID externalTeeID proofOwner claimBack w =
     (case tc_PackFacet E (RequestAvailabilityCheck teeID instructionID externalTeeID proofOwner claimBack) of
        Inl err \<Rightarrow> (''diag: '' @ err, w)
      | Inr calldata \<Rightarrow>
          (case on_chain (tc_CallContract E \<lparr>cm_From = tc_KeyAddress E (Prv s),
              cm_To = Some (FlareTeeManager (SupportAddresses s)), cm_Gas = 0, cm_GasPrice = None,
              cm_Value = op_Value opts, cm_Data = calldata\<rparr>) w of
             (Inr _, w') \<Rightarrow> (''diag: eth_call unexpectedly succeeded '' @ em_dash
               @ '' revert may be tx-time/gas-related'', w')
           | (Inl callErr, w') \<Rightarrow> (diag_text E callErr, w')))"

lemma op_sends_diag [op_sends_intros]: "op_sends n P (diagAvailabilityCheckRevert E s opts a b c d e)"
  by (auto simp: op_sends_def sends_def diagAvailabilityCheckRevert_def on_chain_def
      split: sum.split prod.split)

end
