(* ===== verification/Registration.thy ===== *)
theory Registration
  imports Revert_Diag
begin

text \<open>
  Registering a TEE machine: \<open>tools/pkg/fccutils/registration.go\<close>. The flow has four steps, named
  by letters: \<open>r\<close> pre-registration, \<open>R\<close> a new attestation request, \<open>a\<close> the availability check,
  \<open>p\<close> the promotion to production. A state file records the completed steps, so that a run that
  failed can be resumed.
\<close>

section \<open>The state file\<close>

record registrationState =
  CompletedSteps :: string
  TeeAttestInstructionID :: hash
  StateInstructionID :: hash

definition empty_state :: registrationState where
  "empty_state = \<lparr>CompletedSteps = [], TeeAttestInstructionID = 0, StateInstructionID = 0\<rparr>"

definition state_keys :: "string list" where
  "state_keys = [''completed_steps'', ''tee_attest_instruction_id'', ''instruction_id'']"

definition state_of_json :: "('k, 'c) tools_chain \<Rightarrow> json \<Rightarrow> registrationState option" where
  "state_of_json E v = (case v of
     JObj kvs \<Rightarrow>
       (case (last_decoded dec_string [] (field_values state_keys kvs ''completed_steps''),
              last_decoded (dec_text (tc_UnmarshalHash E)) 0 (field_values state_keys kvs ''tee_attest_instruction_id''),
              last_decoded (dec_text (tc_UnmarshalHash E)) 0 (field_values state_keys kvs ''instruction_id'')) of
          (Some a, Some b, Some c) \<Rightarrow>
            Some \<lparr>CompletedSteps = a, TeeAttestInstructionID = b, StateInstructionID = c\<rparr>
        | _ \<Rightarrow> None)
   | JNull \<Rightarrow> Some empty_state
   | _ \<Rightarrow> None)"

definition loadState :: "('k, 'c) tools_chain \<Rightarrow> string \<Rightarrow> 'c tool_world \<Rightarrow> go_error + registrationState" where
  "loadState E path w = (case tool_ReadFile E path w of
     Inl None \<Rightarrow> Inr empty_state
   | Inl (Some err) \<Rightarrow> Inl (Errorf (''failed to read state file: '' @ err))
   | Inr data \<Rightarrow> (case json_whole data of
       None \<Rightarrow> Inl (Errorf ''failed to parse state file: invalid JSON'')
     | Some v \<Rightarrow> (case state_of_json E v of
         None \<Rightarrow> Inl (Errorf ''failed to parse state file: cannot unmarshal'')
       | Some st \<Rightarrow> Inr st)))"

definition state_text :: "('k, 'c) tools_chain \<Rightarrow> registrationState \<Rightarrow> bytes" where
  "state_text E st = object_text 0 [(''completed_steps'', json_string (CompletedSteps st)),
     (''tee_attest_instruction_id'', json_string (tc_MarshalHash E (TeeAttestInstructionID st))),
     (''instruction_id'', json_string (tc_MarshalHash E (StateInstructionID st)))]"

definition saveState :: "('k, 'c) tools_chain \<Rightarrow> string \<Rightarrow> registrationState \<Rightarrow> 'c tool_world
    \<Rightarrow> go_error option \<times> 'c tool_world" where
  "saveState E path st w = (case tool_WriteFile E path (state_text E st) w of
     (Some err, w') \<Rightarrow> (Some (Errorf (''failed to write state file: '' @ err)), w')
   | (None, w') \<Rightarrow> (None, w'))"

section \<open>The transactions\<close>

definition registration_fee :: int where
  "registration_fee = 1000000000"

definition PreRegistration :: "('k, 'c) tools_chain \<Rightarrow> tee_lib \<Rightarrow> 'k Support \<Rightarrow> string \<Rightarrow> address \<Rightarrow> address
    \<Rightarrow> tee_info \<Rightarrow> ('c, hash \<times> hash) tool_op" where
  "PreRegistration E L s hostURL teeID proxyID teeInfo =
     attempt (tool_value (tc_NewTransactor E (Prv s) (SupportChainID s))) (reworded []) (\<lambda>opts0.
     (let opts = opts0\<lparr>op_Value := Some registration_fee\<rparr>;
          data = \<lparr>md_ExtensionId = uint (ti_MachineExtensionID teeInfo), md_InitialOwner = ti_MachineInitialOwner teeInfo,
            md_CodeHash = ti_MachineCodeHash teeInfo, md_Platform = ti_MachinePlatform teeInfo,
            md_PublicKeyX = ti_MachineKeyX teeInfo, md_PublicKeyY = ti_MachineKeyY teeInfo\<rparr> in
      if length (ti_DataSignature teeInfo) \<noteq> 65 then tool_fail (Errorf ''signature error'')
      else (let sigVRS = tl_SignatureRSVtoVRS L (ti_DataSignature teeInfo);
          sig = \<lparr>sig_V = of_nat (code (sigVRS ! 0)), sig_R = take 32 (drop 1 sigVRS), sig_S = take 32 (drop 33 sigVRS)\<rparr>;
          claimBack = tc_KeyAddress E (Prv s) in
        attempt (transact E opts (MachineRegister data sig proxyID hostURL claimBack)) (reworded ''error: '') (\<lambda>tx.
        attempt (CheckTx E tx) id (\<lambda>rc.
        if length (rc_Logs rc) < 2 then tool_fail (Errorf ''unexpected logs, this should not happen'')
        else attempt (lib_value (tl_TeeAttestationRequested L (rc_Logs rc ! 1)))
               (reworded ''failed to parse TeeAttestationRequested event: '') (\<lambda>challenge.
             attempt (lib_value (tl_TeeInstructionsSent L (rc_Logs rc ! 0)))
               (reworded ''failed to parse TeeInstructionsSent event: '') (\<lambda>instructionID.
             tool_return (challenge, instructionID))))))))"

definition RequestTeeAttestation :: "('k, 'c) tools_chain \<Rightarrow> tee_lib \<Rightarrow> 'k Support \<Rightarrow> address \<Rightarrow> ('c, hash) tool_op" where
  "RequestTeeAttestation E L s teeID =
     attempt (tool_value (tc_NewTransactor E (Prv s) (SupportChainID s))) (reworded []) (\<lambda>opts0.
     attempt (transact E (opts0\<lparr>op_Value := Some registration_fee\<rparr>)
       (RequestTeeAttestationCall teeID (tc_KeyAddress E (Prv s)))) (reworded ''error: '') (\<lambda>tx.
     attempt (CheckTx E tx) id (\<lambda>rc.
     if length (rc_Logs rc) < 2 then tool_fail (Errorf ''unexpected logs, this should not happen'')
     else attempt (lib_value (tl_TeeInstructionsSent L (rc_Logs rc ! 0)))
            (reworded ''failed to parse TeeInstructionsSent event: '') tool_return)))"

definition RequestFTDCAvailabilityCheck :: "('k, 'c) tools_chain \<Rightarrow> tee_lib \<Rightarrow> 'k Support \<Rightarrow> address \<Rightarrow> address \<Rightarrow> hash
    \<Rightarrow> ('c, hash) tool_op" where
  "RequestFTDCAvailabilityCheck E L s teeID externalTeeID teeAttestInstructionID =
     attempt (tool_value (tc_NewTransactor E (Prv s) (SupportChainID s))) (reworded []) (\<lambda>opts0.
     (let claimBack = tc_KeyAddress E (Prv s) in
     (let opts = opts0\<lparr>op_Value := Some registration_fee\<rparr> in
     attempt (on_failure (transact E opts
         (RequestAvailabilityCheck teeID teeAttestInstructionID externalTeeID claimBack claimBack))
       (diagAvailabilityCheckRevert E s opts teeID teeAttestInstructionID externalTeeID claimBack claimBack)) (reworded []) (\<lambda>tx.
     attempt (CheckTx E tx) (reworded []) (\<lambda>rc.
     if length (rc_Logs rc) = 0 then tool_fail (Errorf ''no logs found in receipt'')
     else attempt (lib_value (tl_TeeInstructionsSent L (rc_Logs rc ! 0)))
            (reworded ''failed to parse TeeInstructionsSent event: '') tool_return)))))"

definition GetFTDCAvailabilityCheckResult :: "('k, 'c) tools_chain \<Rightarrow> tee_lib \<Rightarrow> string \<Rightarrow> hash
    \<Rightarrow> ('c, availability_proof) tool_op" where
  "GetFTDCAvailabilityCheckResult E L hostURL instructionId =
     attempt (ActionResult_call E L hostURL instructionId) id (\<lambda>response.
     attempt (lib_value (tl_UnmarshalProveResponse L (ar_Data response))) (reworded []) (\<lambda>ftdcProof.
     attempt (lib_value (tl_DecodeResponseHeader L (pr_ResponseHeader ftdcProof))) (reworded []) (\<lambda>header.
     attempt (lib_value (tl_DecodeRequest L (pr_RequestBody ftdcProof))) (reworded []) (\<lambda>request.
     attempt (lib_value (tl_DecodeResponse L (pr_ResponseBody ftdcProof))) (reworded []) (\<lambda>response.
     tool_return \<lparr>pf_Signatures = pr_Signatures ftdcProof, pf_Header = header, pf_Request = request,
       pf_Response = response\<rparr>)))))"

definition ToProduction :: "('k, 'c) tools_chain \<Rightarrow> 'k Support \<Rightarrow> availability_proof \<Rightarrow> ('c, unit) tool_op" where
  "ToProduction E s proof_data =
     attempt (tool_value (tc_NewTransactor E (Prv s) (SupportChainID s))) (reworded []) (\<lambda>opts.
     attempt (transact E opts (ToProductionCall proof_data)) (reworded []) (\<lambda>tx.
     attempt (CheckTx E tx) (reworded []) (\<lambda>rc.
     attempt (on_chain (tc_GetTeeMachine E (rq_TeeId (pf_Request proof_data)))) (reworded []) (\<lambda>teeId.
     if teeId \<noteq> rq_TeeId (pf_Request proof_data) then tool_fail (Errorf ''tee machine not set up correctly'')
     else tool_return ()))))"

definition AddTeeVersion :: "('k, 'c) tools_chain \<Rightarrow> 'k Support \<Rightarrow> 'k \<Rightarrow> int \<Rightarrow> hash \<Rightarrow> hash \<Rightarrow> hash \<Rightarrow> string
    \<Rightarrow> ('c, unit) tool_op" where
  "AddTeeVersion E s privKey extensionId codeHash platform governanceHash version =
     attempt (tool_value (tc_NewTransactor E privKey (SupportChainID s))) (reworded []) (\<lambda>opts.
     attempt (transact E opts (AddTeeVersionCall extensionId version codeHash [platform] governanceHash))
       (reworded ''TeeExtensionRegistry.AddTeeVersion failed: '') (\<lambda>tx.
     attempt (CheckTx E tx) (reworded []) (\<lambda>rc. tool_return ())))"

section \<open>The flow\<close>

text \<open>A failed save is only logged; every step that is asked for ends with a pause of one second.\<close>

definition record_state :: "('k, 'c) tools_chain \<Rightarrow> string \<Rightarrow> registrationState \<Rightarrow> ('c, registrationState) tool_op" where
  "record_state E path st w = (case saveState E path st w of (_, w') \<Rightarrow> (Inr st, tool_Sleep E second_ns w'))"

definition has_step :: "string \<Rightarrow> char \<Rightarrow> bool" where
  "has_step steps c \<longleftrightarrow> str_contains steps [c]"

definition machine_registered :: "go_error + address \<Rightarrow> bool" where
  "machine_registered r \<longleftrightarrow> (case r of Inl _ \<Rightarrow> False | Inr teeId \<Rightarrow> teeId \<noteq> 0)"

text \<open>The value of a step is the state and the current attestation id.\<close>

definition step_r :: "('k, 'c) tools_chain \<Rightarrow> tee_lib \<Rightarrow> 'k Support \<Rightarrow> tee_info \<Rightarrow> string \<Rightarrow> string \<Rightarrow> string
    \<Rightarrow> address \<Rightarrow> address \<Rightarrow> registrationState \<Rightarrow> ('c, registrationState \<times> hash) tool_op" where
  "step_r E L s teeInfo hostURL command path teeID proxyID st w =
     (if \<not> has_step command (CHR ''r'') then (Inr (st, 0), w)
      else if has_step (CompletedSteps st) (CHR ''r'')
        then (Inr (st, TeeAttestInstructionID st), tool_Sleep E second_ns w)
      else (case on_chain (tc_GetTeeMachine E teeID) w of (r, w1) \<Rightarrow>
        attempt (if machine_registered r then tool_return 0
                 else attempt (PreRegistration E L s hostURL teeID proxyID teeInfo) id (\<lambda>(_, i). tool_return i)) id
          (\<lambda>i. attempt (record_state E path (st\<lparr>CompletedSteps := CompletedSteps st @ ''r'', TeeAttestInstructionID := i\<rparr>)) id
            (\<lambda>st'. tool_return (st', i))) w1))"

definition step_R :: "('k, 'c) tools_chain \<Rightarrow> tee_lib \<Rightarrow> 'k Support \<Rightarrow> string \<Rightarrow> string \<Rightarrow> address
    \<Rightarrow> registrationState \<times> hash \<Rightarrow> ('c, registrationState \<times> hash) tool_op" where
  "step_R E L s command path teeID sti w = (case sti of (st, i) \<Rightarrow>
     if \<not> has_step command (CHR ''R'') then (Inr (st, i), w)
     else if has_step (CompletedSteps st) (CHR ''R'')
       then (Inr (st, TeeAttestInstructionID st), tool_Sleep E second_ns w)
     else attempt (RequestTeeAttestation E L s teeID) id (\<lambda>i'.
       attempt (record_state E path (st\<lparr>CompletedSteps := CompletedSteps st @ ''R'', TeeAttestInstructionID := i'\<rparr>)) id
         (\<lambda>st'. tool_return (st', i'))) w)"

definition step_a :: "('k, 'c) tools_chain \<Rightarrow> tee_lib \<Rightarrow> 'k Support \<Rightarrow> address \<Rightarrow> string \<Rightarrow> string \<Rightarrow> string \<Rightarrow> address
    \<Rightarrow> registrationState \<times> hash \<Rightarrow> ('c, hash) tool_op" where
  "step_a E L s ftdcTee command instructionIDstring path teeID sti w = (case sti of (st, i) \<Rightarrow>
     if \<not> has_step command (CHR ''a'') then (Inr (tc_HexToHash E instructionIDstring), w)
     else if has_step (CompletedSteps st) (CHR ''a'')
       then (Inr (StateInstructionID st), tool_Sleep E second_ns w)
     else attempt (RequestFTDCAvailabilityCheck E L s teeID ftdcTee i) id (\<lambda>j.
       attempt (record_state E path (st\<lparr>CompletedSteps := CompletedSteps st @ ''a'', StateInstructionID := j\<rparr>)) id
         (\<lambda>_. tool_return j)) w)"

definition step_p :: "('k, 'c) tools_chain \<Rightarrow> tee_lib \<Rightarrow> 'k Support \<Rightarrow> string \<Rightarrow> string \<Rightarrow> hash \<Rightarrow> ('c, unit) tool_op" where
  "step_p E L s ftdcTeeURL command instructionID =
     (if has_step command (CHR ''p'')
      then attempt (GetFTDCAvailabilityCheckResult E L ftdcTeeURL instructionID) id (ToProduction E s)
      else tool_return ())"

definition RegisterNode :: "('k, 'c) tools_chain \<Rightarrow> tee_lib \<Rightarrow> 'k Support \<Rightarrow> tee_info \<Rightarrow> string \<Rightarrow> string \<Rightarrow> address
    \<Rightarrow> string \<Rightarrow> string \<Rightarrow> string \<Rightarrow> ('c, unit) tool_op" where
  "RegisterNode E L s teeInfo hostURL ftdcTeeURL ftdcTee command instructionIDstring path =
     attempt (TeeProxyId L teeInfo) id (\<lambda>(teeID, proxyID) w.
     case loadState E path w of
       Inl err \<Rightarrow> (Inl err, w)
     | Inr st \<Rightarrow>
         attempt (step_r E L s teeInfo hostURL command path teeID proxyID st) id (\<lambda>sti.
         attempt (step_R E L s command path teeID sti) id (\<lambda>sti'.
         attempt (step_a E L s ftdcTee command instructionIDstring path teeID sti') id (\<lambda>instructionID.
         attempt (step_p E L s ftdcTeeURL command instructionID) id (\<lambda>_ w'.
         (Inr (), tool_Remove E path w'))))) w)"

end
