(* ===== verification/Tools_Demo.thy ===== *)
theory Tools_Demo
  imports Tee_Calls
begin

text \<open>
  A small world in which the tools run: a chain that is a counter of the transactions it mined, a
  proxy that answers every request, and a library whose parsers accept everything.
\<close>

definition demo_tools :: "(unit, nat) tools_chain" where
  "demo_tools = \<lparr>tc_NewTransactor = (\<lambda>_ i. Inr \<lparr>op_From = 7, op_ChainID = i, op_Value = None\<rparr>),
     tc_Transact = (\<lambda>_ _ c. (Inr (of_nat c), Suc c)),
     tc_WaitMined = (\<lambda>_ h c. (Inr \<lparr>rc_Status = 1, rc_Logs = [''i'', ''c''], rc_TxHash = h\<rparr>, c)),
     tc_TransactionByHash = (\<lambda>_ c. (Inl (Errorf ''not found''), c)),
     tc_Sender = (\<lambda>_. Inr 7), tc_CallContract = (\<lambda>_ c. (Inr [], c)), tc_ChainID = (\<lambda>c. (Inr 114, c)),
     tc_Dial = (\<lambda>_. None), tc_Bind = (\<lambda>_ _. None), tc_GetTeeMachine = (\<lambda>a c. (Inr (if c = 0 then 0 else a), c)),
     tc_IsAllowedTeeMachineOwner = (\<lambda>_ _ c. (Inr (c > 1), c)),
     tc_IsAllowedTeeWalletProjectOwner = (\<lambda>_ _ c. (Inr (c > 2), c)),
     tc_IsKeyTypeSupported = (\<lambda>_ _ c. (Inr (c > 3), c)), tc_Sleep = (\<lambda>_ c. c),
     tc_HttpGet = (\<lambda>_ c. (Inr (200, ''body''), c)), tc_HttpPost = (\<lambda>_ _ c. (Inr 200, c)),
     tc_ReadError = (\<lambda>_ _. None), tc_WriteError = (\<lambda>_ _. None), tc_RemoveFails = (\<lambda>_ _. False), tc_UnpackRevert = (\<lambda>_. None),
     tc_HashHex = (\<lambda>h. format_nat (unat h)), tc_HexToHash = (\<lambda>_. 0),
     tc_MarshalHash = (\<lambda>h. format_nat (unat h)), tc_UnmarshalHash = (\<lambda>s. Some (word_of_int (digits_val 0 s))),
     tc_UnmarshalAddress = (\<lambda>_. Some 5), tc_HexToAddress = (\<lambda>_. 5), tc_AddressHex = (\<lambda>_. ''0x05''),
     tc_HexToECDSA = (\<lambda>_. Inr ()), tc_KeyAddress = (\<lambda>_. 7),
     tc_ContractAddress = (\<lambda>h. 100 + ucast h), tc_RegistryABI = None, tc_PackRegistry = (\<lambda>_. Inr []),
     tc_UnpackRegistry = (\<lambda>_. Inr (Inr 11)), tc_PackVault = (\<lambda>_. Some []),
     tc_PackFacet = (\<lambda>_. Inr []), tc_CustomErrors = (\<lambda>_. None), tc_FromHex = (\<lambda>_. []), tc_IsPrint = (\<lambda>_. True),
     tc_IsCodeHashPlatformSupported = (\<lambda>_ _ _ c. (Inr (c > 0), c)), tc_InstructionFee = (\<lambda>_ c. (Inr 5, c)),
     tc_Client = (\<lambda>_. \<lparr>ec_CodeAt = (\<lambda>_. Inr ''x''), ec_BalanceAt = (\<lambda>_. Inr (10 ^ 18)), ec_ChainID = Inr 114\<rparr>),
     tc_Registry = (\<lambda>_ _. \<lparr>er_ExtensionsCounter = Inr 2, er_InstructionsSender = (\<lambda>_. Inr 5),
       er_IsKeyTypeSupported = (\<lambda>_ _. Inr True)\<rparr>),
     tc_Allowlist = (\<lambda>_ _. \<lparr>al_IsAllowedTeeMachineOwner = (\<lambda>_ _. Inr True)\<rparr>)\<rparr>"

definition demo_info :: tee_info where
  "demo_info = \<lparr>ti_PublicKey = ''k'', ti_MachineExtensionID = 1, ti_MachineInitialOwner = 7,
     ti_MachineCodeHash = TeeCodeHash, ti_MachinePlatform = TestPlatform, ti_MachineKeyX = ''x'', ti_MachineKeyY = ''y'',
     ti_Attestation = [], ti_DataSignature = replicate 65 (CHR ''s''), ti_ProxySignature = ''p''\<rparr>"

definition demo_request :: availability_request where
  "demo_request = \<lparr>rq_TeeId = 9, rq_Rest = []\<rparr>"

definition demo_response :: availability_response where
  "demo_response = \<lparr>rs_Status = 0, rs_TeeTimestamp = 0, rs_CodeHash = 0, rs_Platform = 0,
     rs_InitialSigningPolicyId = 0, rs_LastSigningPolicyId = 0, rs_State = []\<rparr>"

definition demo_lib :: tee_lib where
  "demo_lib = \<lparr>tl_DecodeTeeInfo = (\<lambda>_. Inr demo_info), tl_DecodeActionResponse = (\<lambda>b. Inr \<lparr>ar_Status = 1, ar_Log = [], ar_Data = b\<rparr>),
     tl_ParsePubKey = (\<lambda>k. Inr k), tl_PubkeyToAddress = (\<lambda>k. if k = ''k'' then 9 else 8),
     tl_TeeInfoHash = (\<lambda>_. Inr []), tl_TextHash = id, tl_SigToPub = (\<lambda>_ s. Inr s),
     tl_ParseClaims = (\<lambda>_. Inl ''no token''), tl_ClaimsCodeHash = (\<lambda>_. Inr 0), tl_ClaimsPlatform = (\<lambda>_. Inr 0),
     tl_MarshalProxyURL = (\<lambda>_. Inr []), tl_MarshalInitialOwner = (\<lambda>_. Inr []), tl_MarshalExtensionID = (\<lambda>_. Inr []),
     tl_SignatureRSVtoVRS = id, tl_TeeAttestationRequested = (\<lambda>_. Inr 3), tl_TeeInstructionsSent = (\<lambda>_. Inr 4),
     tl_TeeExtensionRegistered = (\<lambda>_. Inr 1), tl_TeeExtensionContractsSet = (\<lambda>_. Inr ()),
     tl_AllowedTeeMachineOwnersAdded = (\<lambda>_. Inr ()), tl_AllowedTeeWalletProjectOwnersAdded = (\<lambda>_. Inr ()),
     tl_OrderPlaced = (\<lambda>l. if l = ''i'' then Inl ''other event'' else Inr 6),
     tl_UnmarshalProveResponse = (\<lambda>_. Inr \<lparr>pr_ResponseHeader = [], pr_RequestBody = [], pr_ResponseBody = [], pr_Signatures = []\<rparr>),
     tl_DecodeResponseHeader = (\<lambda>_. Inr []), tl_DecodeRequest = (\<lambda>_. Inr demo_request),
     tl_DecodeResponse = (\<lambda>_. Inr demo_response), tl_EVMType = 2\<rparr>"

definition demo_addresses :: Addresses where
  "demo_addresses = \<lparr>FlareSystemManager = 1, Fdc2Hub = 2, FlareTeeManager = 5\<rparr>"

definition demo_support :: "unit Support" where
  "demo_support = \<lparr>Prv = (), FlareSystemManagerBinding = 1, Fdc2HubBinding = 2, TeeMachineRegistry = 5,
     TeeWalletProjectManager = 5, TeeWalletManager = 5, TeeWalletKeyManager = 5, TeeVerification = 5,
     TeeExtensionRegistry = 5, TeeOwnerAllowlist = 5, SupportAddresses = demo_addresses, SupportChainID = 114\<rparr>"

definition demo_world :: "nat tool_world" where
  "demo_world = \<lparr>tw_chain = 0, tw_files = [], tw_sent = []\<rparr>"

text \<open>The small world with an address file, and what the set-up makes of it.\<close>

definition demo_env :: "unit tool_env" where
  "demo_env = \<lparr>te_Getenv = (\<lambda>_. []), te_ReadFile = (\<lambda>_. Inl []), te_NotExist = (\<lambda>_. True), te_Dial = (\<lambda>_. False),
     te_HttpGet = (\<lambda>_. Inr 200), te_IsPrint = (\<lambda>_. True), te_AddressHex = (\<lambda>_. ''0x''), te_HexToAddress = (\<lambda>_. 5),
     te_KeyAddress = (\<lambda>_. 7), te_EVMType = []\<rparr>"

definition demo_files :: "nat tool_world" where
  "demo_files = demo_world\<lparr>tw_files := [(''a'', CHR ''{'' # json_field ''FlareTeeManager'' (quoted ''x'') @ ''}'')]\<rparr>"

definition demo_deployer :: "unit Support" where
  "demo_deployer = \<lparr>Prv = (), FlareSystemManagerBinding = 0, Fdc2HubBinding = 0, TeeMachineRegistry = 5,
     TeeWalletProjectManager = 5, TeeWalletManager = 5, TeeWalletKeyManager = 5, TeeVerification = 5,
     TeeExtensionRegistry = 5, TeeOwnerAllowlist = 5,
     SupportAddresses = \<lparr>FlareSystemManager = 0, Fdc2Hub = 0, FlareTeeManager = 5\<rparr>, SupportChainID = 114\<rparr>"

lemma demo_read: "ReadAddresses demo_tools ''a'' demo_files = Some (SupportAddresses demo_deployer)"
  by code_simp

lemma demo_default: "DefaultSupport demo_tools (te_Getenv demo_env) () ''a'' ''u'' demo_files = (Inr demo_deployer, demo_files)"
  unfolding DefaultSupport_def demo_read
  by (simp add: DefaultPrivateKey_def NewSupport_def attempt_def on_chain_def tool_return_def
      demo_tools_def demo_deployer_def demo_env_def demo_files_def demo_world_def)

end
