(* ===== verification/Registration_Resume.thy ===== *)
theory Registration_Resume
  imports Registration Tools_Demo
begin

text \<open>
  Resuming a registration: the state file reads back what was saved, a recorded step is not sent
  again, and a run that fails has recorded every step but the one it failed in.
\<close>

section \<open>The state file reads back\<close>

text \<open>The texts of hashes are ASCII and read back.\<close>

definition hashes_ok :: "('k, 'c) tools_chain \<Rightarrow> bool" where
  "hashes_ok E \<longleftrightarrow> (\<forall>h. list_all (\<lambda>c. code c < 128) (tc_MarshalHash E h)
     \<and> tc_UnmarshalHash E (tc_MarshalHash E h) = Some h)"

definition files_ok :: "('k, 'c) tools_chain \<Rightarrow> string \<Rightarrow> bool" where
  "files_ok E path \<longleftrightarrow> (\<forall>c. tc_ReadError E path c = None \<and> tc_WriteError E path c = None \<and> \<not> tc_RemoveFails E path c)"

definition steps_ok :: "string \<Rightarrow> bool" where
  "steps_ok steps \<longleftrightarrow> set steps \<subseteq> set ''rRa''"

lemma steps_ascii: "steps_ok steps \<Longrightarrow> to_valid_utf8 steps = steps"
proof (rule to_valid_plain)
  assume "steps_ok steps"
  moreover have "code c < 128" if "c \<in> set ''rRa''" for c using that by (auto simp: code_def)
  ultimately show "list_all (\<lambda>c. code c < 128) steps" unfolding steps_ok_def list_all_iff by blast
qed

lemma fold_state_keys: "fold_key ''completed_steps'' = ''COMPLETED_STEPS''"
  "fold_key ''tee_attest_instruction_id'' = ''TEE_ATTEST_INSTRUCTION_ID''"
  "fold_key ''instruction_id'' = ''INSTRUCTION_ID''"
  by code_simp+

lemma state_field_values:
  "field_values state_keys [(''completed_steps'', a), (''tee_attest_instruction_id'', b), (''instruction_id'', c)]
     ''completed_steps'' = [a]"
  "field_values state_keys [(''completed_steps'', a), (''tee_attest_instruction_id'', b), (''instruction_id'', c)]
     ''tee_attest_instruction_id'' = [b]"
  "field_values state_keys [(''completed_steps'', a), (''tee_attest_instruction_id'', b), (''instruction_id'', c)]
     ''instruction_id'' = [c]"
  by (simp_all add: field_values_def state_keys_def fold_state_keys del: fold_key.simps)

lemma parse_state_text:
  "parse_value (json_fuel (state_text E st)) (state_text E st) = Some (JObj
     [(''completed_steps'', JStr (to_valid_utf8 (CompletedSteps st))),
      (''tee_attest_instruction_id'', JStr (to_valid_utf8 (tc_MarshalHash E (TeeAttestInstructionID st)))),
      (''instruction_id'', JStr (to_valid_utf8 (tc_MarshalHash E (StateInstructionID st))))], [])"
proof -
  let ?kvs = "[(''completed_steps'', json_string (CompletedSteps st)),
     (''tee_attest_instruction_id'', json_string (tc_MarshalHash E (TeeAttestInstructionID st))),
     (''instruction_id'', json_string (tc_MarshalHash E (StateInstructionID st)))]"
  let ?js = "[JStr (to_valid_utf8 (CompletedSteps st)),
      JStr (to_valid_utf8 (tc_MarshalHash E (TeeAttestInstructionID st))),
      JStr (to_valid_utf8 (tc_MarshalHash E (StateInstructionID st)))]"
  have "text_of (1 + length ?kvs + 1) (object_text 0 ?kvs) (JObj (zip (map fst ?kvs) ?js))"
    by (rule text_of_object) (simp_all add: text_of_string [simplified] plain_def code_def)
  from text_of_parse [OF this, of "[]"] show ?thesis by (simp add: state_text_def)
qed

lemma load_saved:
  assumes "hashes_ok E" and "files_ok E path" and "steps_ok (CompletedSteps st)"
    and "gm_get (tw_files w) path = Some (state_text E st)"
  shows "loadState E path w = Inr st"
proof -
  have h: "to_valid_utf8 (tc_MarshalHash E x) = tc_MarshalHash E x"
    "tc_UnmarshalHash E (tc_MarshalHash E x) = Some x" for x
    using assms(1) by (simp_all add: hashes_ok_def to_valid_plain)
  have "json_whole (state_text E st) = Some (JObj [(''completed_steps'', JStr (CompletedSteps st)),
      (''tee_attest_instruction_id'', JStr (tc_MarshalHash E (TeeAttestInstructionID st))),
      (''instruction_id'', JStr (tc_MarshalHash E (StateInstructionID st)))])"
    by (simp add: json_whole_def parse_state_text h steps_ascii [OF assms(3)] skip_ws_def)
  then show ?thesis
    using assms(2,4) by (simp add: loadState_def tool_ReadFile_def files_ok_def state_of_json_def
      state_field_values dec_string_def dec_text_def h)
qed

section \<open>What each step sends\<close>

fun step_of :: "contract_call \<Rightarrow> char option" where
  "step_of (MachineRegister _ _ _ _ _) = Some (CHR ''r'')"
| "step_of (RequestTeeAttestationCall _ _) = Some (CHR ''R'')"
| "step_of (RequestAvailabilityCheck _ _ _ _ _) = Some (CHR ''a'')"
| "step_of (ToProductionCall _) = Some (CHR ''p'')"
| "step_of _ = None"

abbreviation of_step :: "char \<Rightarrow> contract_call \<Rightarrow> bool" where
  "of_step c call \<equiv> step_of call = Some c"

lemma op_sends_PreRegistration: "op_sends 1 (of_step (CHR ''r'')) (PreRegistration E L s hostURL teeID proxyID teeInfo)"
  unfolding PreRegistration_def Let_def by (intro op_sends_intros) simp

lemma op_sends_RequestTeeAttestation: "op_sends 1 (of_step (CHR ''R'')) (RequestTeeAttestation E L s teeID)"
  unfolding RequestTeeAttestation_def by (intro op_sends_intros) simp

lemma op_sends_RequestFTDC: "op_sends 1 (of_step (CHR ''a'')) (RequestFTDCAvailabilityCheck E L s teeID x i)"
  unfolding RequestFTDCAvailabilityCheck_def Let_def by (intro op_sends_intros) simp

lemma op_sends_ToProduction: "op_sends 1 (of_step (CHR ''p'')) (ToProduction E s pf)"
  unfolding ToProduction_def by (intro op_sends_intros) simp

lemma op_sends_GetFTDC: "op_sends n P (GetFTDCAvailabilityCheckResult E L url i)"
  unfolding GetFTDCAvailabilityCheckResult_def by (intro op_sends_intros)

lemma op_sends_step_p: "op_sends 1 (of_step (CHR ''p'')) (step_p E L s url command i)"
  unfolding step_p_def by (intro op_sends_intros op_sends_GetFTDC op_sends_ToProduction)

lemma has_step_iff: "has_step steps c \<longleftrightarrow> c \<in> set steps"
  by (auto simp: has_step_def str_contains_iff in_set_conv_decomp)

text \<open>
  A step from a saved state: it broadcasts only its own call, at most once, and only when it is
  asked for and not recorded; if it fails the state file is as before, else it holds the state it
  returns, in which a call that was broadcast is recorded.
\<close>

definition step_effect :: "('k, 'c) tools_chain \<Rightarrow> string \<Rightarrow> string \<Rightarrow> char \<Rightarrow> registrationState
    \<Rightarrow> 'c tool_world \<Rightarrow> registrationState option \<Rightarrow> 'c tool_world \<Rightarrow> bool" where
  "step_effect E path command c st w res w' \<longleftrightarrow>
     (\<exists>new. tw_sent w' = tw_sent w @ new \<and> length new \<le> 1
        \<and> list_all (\<lambda>call. of_step c call \<and> c \<in> set command \<and> c \<notin> set (CompletedSteps st)) new
        \<and> (case res of
             None \<Rightarrow> loadState E path w' = Inr st
           | Some st' \<Rightarrow> loadState E path w' = Inr st' \<and> steps_ok (CompletedSteps st')
               \<and> set (CompletedSteps st) \<subseteq> set (CompletedSteps st') \<and> (new \<noteq> [] \<longrightarrow> c \<in> set (CompletedSteps st'))))"

lemma loadState_files: "files_ok E path \<Longrightarrow> tw_files w' = tw_files w \<Longrightarrow> loadState E path w' = loadState E path w"
  by (cases "gm_get (tw_files w) path") (simp_all add: loadState_def tool_ReadFile_def files_ok_def)

lemma record_state_effect:
  assumes "hashes_ok E" and "files_ok E path" and "steps_ok (CompletedSteps st)"
    and "record_state E path st w = (r, w')"
  shows "r = Inr st \<and> loadState E path w' = Inr st \<and> tw_sent w' = tw_sent w"
proof -
  have w': "r = Inr st" "gm_get (tw_files w') path = Some (state_text E st)" "tw_sent w' = tw_sent w"
    using assms(2,4) by (auto simp: record_state_def saveState_def tool_WriteFile_def files_ok_def tool_Sleep_def)
  then show ?thesis using load_saved [OF assms(1-3) w'(2)] by simp
qed

lemma sends_step:
  assumes "files_ok E path" and "loadState E path w = Inr st" and "steps_ok (CompletedSteps st)"
    and "c \<in> set command" and "c \<notin> set (CompletedSteps st)" and "sends 1 (of_step c) w w'"
  shows "step_effect E path command c st w None w'"
  using assms loadState_files [of E path w' w] by (auto simp: sends_def step_effect_def list_all_iff)

lemma sends_then_record:
  assumes ok: "hashes_ok E" "files_ok E path" and st': "steps_ok (CompletedSteps st')"
    and c: "c \<in> set command" "c \<notin> set (CompletedSteps st)"
    and sub: "insert c (set (CompletedSteps st)) \<subseteq> set (CompletedSteps st')"
    and "sends 1 (of_step c) w w1" and "record_state E path st' w1 = (r, w')"
  shows "r = Inr st' \<and> step_effect E path command c st w (Some st') w'"
  using record_state_effect [OF ok st' assms(8)] assms(7) c sub st'
  by (auto simp: sends_def step_effect_def list_all_iff)

lemma idle_effect:
  assumes "files_ok E path" and "loadState E path w = Inr st" and "steps_ok (CompletedSteps st)"
  shows "step_effect E path command c st w (Some st) w"
    and "step_effect E path command c st w (Some st) (tool_Sleep E d w)"
  using assms loadState_files [of E path "tool_Sleep E d w" w]
  by (simp_all add: step_effect_def tool_Sleep_def)

lemma step_r_effect:
  assumes ok: "hashes_ok E" "files_ok E path" and st: "loadState E path w = Inr st" "steps_ok (CompletedSteps st)"
    and run: "step_r E L s teeInfo hostURL command path teeID proxyID st w = (r, w')"
  shows "step_effect E path command (CHR ''r'') st w (case r of Inl _ \<Rightarrow> None | Inr (st', _) \<Rightarrow> Some st') w'"
proof (cases "CHR ''r'' \<in> set command \<and> CHR ''r'' \<notin> set (CompletedSteps st)")
  case False
  then show ?thesis
    using run idle_effect [OF ok(2) st] by (auto simp: step_r_def has_step_iff split: if_splits)
next
  case True
  obtain q w1 where q: "on_chain (tc_GetTeeMachine E teeID) w = (q, w1)" by fastforce
  let ?pre = "if machine_registered q then tool_return 0
     else attempt (PreRegistration E L s hostURL teeID proxyID teeInfo) id (\<lambda>(_, i). tool_return i)"
  let ?st = "\<lambda>i. st\<lparr>CompletedSteps := CompletedSteps st @ ''r'', TeeAttestInstructionID := i\<rparr>"
  have run': "attempt ?pre id (\<lambda>i. attempt (record_state E path (?st i)) id (\<lambda>st'. tool_return (st', i))) w1 = (r, w')"
    using run True by (simp add: step_r_def has_step_iff q)
  have w1: "sends 1 (of_step (CHR ''r'')) w w2" if "sends 1 (of_step (CHR ''r'')) w1 w2" for w2
    using that q by (auto simp: sends_def on_chain_def split: prod.splits)
  have pre: "op_sends 1 (of_step (CHR ''r'')) ?pre"
    by (intro op_sends_intros op_sends_last op_sends_PreRegistration)
  from attempt_cases [OF run'] show ?thesis
  proof (elim disjE exE conjE)
    fix err
    assume "?pre w1 = (Inl err, w')" and "r = Inl (id err)"
    then show ?thesis
      using sends_step [OF ok(2) st _ _ w1 [OF op_sendsD [OF pre]]] True by simp
  next
    fix i w2
    assume p: "?pre w1 = (Inr i, w2)"
      and k: "attempt (record_state E path (?st i)) id (\<lambda>st'. tool_return (st', i)) w2 = (r, w')"
    obtain r' w3 where rec: "record_state E path (?st i) w2 = (r', w3)" by fastforce
    have "r' = Inr (?st i) \<and> step_effect E path command (CHR ''r'') st w (Some (?st i)) w3"
      using sends_then_record [OF ok _ _ _ _ w1 [OF op_sendsD [OF pre p]] rec] True st(2)
      by (auto simp: steps_ok_def)
    with k rec show ?thesis by (auto simp: attempt_def tool_return_def)
  qed
qed

text \<open>A step that is one request followed by a save; \<open>f\<close> is what it returns.\<close>

lemma request_effect:
  assumes ok: "hashes_ok E" "files_ok E path" and st: "loadState E path w = Inr st" "steps_ok (CompletedSteps st)"
    and c: "c \<in> set command" "c \<notin> set (CompletedSteps st)" "c \<in> set ''rRa''"
    and req: "op_sends 1 (of_step c) req"
    and upd: "\<And>i. CompletedSteps (upd i) = CompletedSteps st @ [c]"
    and run: "attempt req id (\<lambda>i. attempt (record_state E path (upd i)) id (\<lambda>st'. tool_return (f st' i))) w = (r, w')"
  shows "case r of Inl _ \<Rightarrow> step_effect E path command c st w None w'
     | Inr y \<Rightarrow> \<exists>i. y = f (upd i) i \<and> step_effect E path command c st w (Some (upd i)) w'"
  using attempt_cases [OF run]
proof (elim disjE exE conjE)
  fix err
  assume "req w = (Inl err, w')" and "r = Inl (id err)"
  then show ?thesis using sends_step [OF ok(2) st c(1,2) op_sendsD [OF req]] by simp
next
  fix i w2
  assume p: "req w = (Inr i, w2)" and k: "attempt (record_state E path (upd i)) id (\<lambda>st'. tool_return (f st' i)) w2 = (r, w')"
  obtain r' w3 where rec: "record_state E path (upd i) w2 = (r', w3)" by fastforce
  have "r' = Inr (upd i) \<and> step_effect E path command c st w (Some (upd i)) w3"
    using sends_then_record [OF ok _ c(1,2) _ op_sendsD [OF req p] rec] st(2) c(3)
    by (auto simp: steps_ok_def upd)
  with k rec show ?thesis by (auto simp: attempt_def tool_return_def)
qed

lemma step_R_effect:
  assumes ok: "hashes_ok E" "files_ok E path" and st: "loadState E path w = Inr st" "steps_ok (CompletedSteps st)"
    and run: "step_R E L s command path teeID (st, i) w = (r, w')"
  shows "step_effect E path command (CHR ''R'') st w (case r of Inl _ \<Rightarrow> None | Inr (st', _) \<Rightarrow> Some st') w'"
proof (cases "CHR ''R'' \<in> set command \<and> CHR ''R'' \<notin> set (CompletedSteps st)")
  case False
  then show ?thesis
    using run idle_effect [OF ok(2) st] by (auto simp: step_R_def has_step_iff split: if_splits)
next
  case True
  let ?upd = "\<lambda>i'. st\<lparr>CompletedSteps := CompletedSteps st @ ''R'', TeeAttestInstructionID := i'\<rparr>"
  have "attempt (RequestTeeAttestation E L s teeID) id
      (\<lambda>i'. attempt (record_state E path (?upd i')) id (\<lambda>st'. tool_return (Pair st' i'))) w = (r, w')"
    using run True by (simp add: step_R_def has_step_iff)
  from request_effect [where f = Pair and upd = ?upd, OF ok st _ _ _ op_sends_RequestTeeAttestation _ this]
  have "case r of Inl _ \<Rightarrow> step_effect E path command (CHR ''R'') st w None w'
     | Inr y \<Rightarrow> \<exists>i. y = (?upd i, i) \<and> step_effect E path command (CHR ''R'') st w (Some (?upd i)) w'"
    using True by simp
  then show ?thesis by (auto split: sum.splits)
qed

lemma step_a_effect:
  assumes ok: "hashes_ok E" "files_ok E path" and st: "loadState E path w = Inr st" "steps_ok (CompletedSteps st)"
    and run: "step_a E L s ftdcTee command istr path teeID (st, i) w = (r, w')"
  shows "\<exists>st'. step_effect E path command (CHR ''a'') st w (case r of Inl _ \<Rightarrow> None | Inr _ \<Rightarrow> Some st') w'"
proof (cases "CHR ''a'' \<in> set command \<and> CHR ''a'' \<notin> set (CompletedSteps st)")
  case False
  then show ?thesis
    using run idle_effect [OF ok(2) st]
    by (intro exI [of _ st]) (auto simp: step_a_def has_step_iff split: if_splits)
next
  case True
  let ?upd = "\<lambda>j. st\<lparr>CompletedSteps := CompletedSteps st @ ''a'', StateInstructionID := j\<rparr>"
  have "attempt (RequestFTDCAvailabilityCheck E L s teeID ftdcTee i) id
      (\<lambda>j. attempt (record_state E path (?upd j)) id (\<lambda>st'. tool_return ((\<lambda>_ j. j) st' j))) w = (r, w')"
    using run True by (simp add: step_a_def has_step_iff)
  from request_effect [where f = "\<lambda>_ j. j" and upd = ?upd, OF ok st _ _ _ op_sends_RequestFTDC _ this]
  have "case r of Inl _ \<Rightarrow> step_effect E path command (CHR ''a'') st w None w'
     | Inr y \<Rightarrow> \<exists>i. y = (\<lambda>_ j. j) (?upd i) i \<and> step_effect E path command (CHR ''a'') st w (Some (?upd i)) w'"
    using True by simp
  then show ?thesis by (auto split: sum.splits)
qed

section \<open>A run\<close>

text \<open>The effects of consecutive steps, from a state file that holds \<open>st\<close>.\<close>

definition run_effect :: "('k, 'c) tools_chain \<Rightarrow> string \<Rightarrow> string \<Rightarrow> string \<Rightarrow> registrationState
    \<Rightarrow> 'c tool_world \<Rightarrow> bool \<Rightarrow> registrationState \<Rightarrow> 'c tool_world \<Rightarrow> bool" where
  "run_effect E path command cs st w ok st' w' \<longleftrightarrow>
     (\<exists>new. tw_sent w' = tw_sent w @ new
        \<and> list_all (\<lambda>call. \<exists>c \<in> set cs. of_step c call \<and> c \<in> set command \<and> c \<notin> set (CompletedSteps st)) new
        \<and> distinct (map step_of new)
        \<and> loadState E path w' = Inr st' \<and> steps_ok (CompletedSteps st')
        \<and> set (CompletedSteps st) \<subseteq> set (CompletedSteps st')
        \<and> (\<forall>call \<in> set (if ok then new else butlast new). \<exists>c \<in> set (CompletedSteps st'). of_step c call))"

lemma run_effect_refl:
  "loadState E path w = Inr st \<Longrightarrow> steps_ok (CompletedSteps st) \<Longrightarrow> run_effect E path command cs st w ok st w"
  by (simp add: run_effect_def)

lemma run_effect_step:
  assumes r: "run_effect E path command cs st w True st1 w1"
    and s: "step_effect E path command c st1 w1 res w2" and "c \<notin> set cs"
  shows "run_effect E path command (cs @ [c]) st w (res \<noteq> None) (case res of None \<Rightarrow> st1 | Some st2 \<Rightarrow> st2) w2"
proof -
  obtain new where new: "tw_sent w1 = tw_sent w @ new" "distinct (map step_of new)"
      "list_all (\<lambda>call. \<exists>c \<in> set cs. of_step c call \<and> c \<in> set command \<and> c \<notin> set (CompletedSteps st)) new"
      "set (CompletedSteps st) \<subseteq> set (CompletedSteps st1)" "steps_ok (CompletedSteps st1)"
      "\<forall>call \<in> set new. \<exists>c \<in> set (CompletedSteps st1). of_step c call"
    using r unfolding run_effect_def by auto
  obtain more where more: "tw_sent w2 = tw_sent w1 @ more" "length more \<le> 1"
      "list_all (\<lambda>call. of_step c call \<and> c \<in> set command \<and> c \<notin> set (CompletedSteps st1)) more"
      "case res of None \<Rightarrow> loadState E path w2 = Inr st1
       | Some st' \<Rightarrow> loadState E path w2 = Inr st' \<and> steps_ok (CompletedSteps st')
           \<and> set (CompletedSteps st1) \<subseteq> set (CompletedSteps st') \<and> (more \<noteq> [] \<longrightarrow> c \<in> set (CompletedSteps st'))"
    using s unfolding step_effect_def by blast
  from more(2) consider (none) "more = []" | (one) call where "more = [call]"
    by (cases more) auto
  then show ?thesis
  proof cases
    case none
    show ?thesis
    proof (cases res)
      case None
      then show ?thesis using none new more unfolding run_effect_def
        by (intro exI [of _ new]) (auto simp: list_all_iff dest: in_set_butlastD)
    next
      case (Some st2)
      then have "\<forall>call \<in> set new. \<exists>c \<in> set (CompletedSteps st2). of_step c call"
        using new(6) more(4) by auto
      then show ?thesis using none new more Some unfolding run_effect_def
        by (intro exI [of _ new]) (auto simp: list_all_iff)
    qed
  next
    case one
    then have call: "of_step c call" "c \<in> set command" "c \<notin> set (CompletedSteps st)" "step_of call \<notin> step_of ` set new"
      using new(3,4) more(3) assms(3) by (auto simp: list_all_iff)
    show ?thesis
    proof (cases res)
      case None
      then show ?thesis using one call new more unfolding run_effect_def
        by (intro exI [of _ "new @ [call]"]) (auto simp: list_all_iff)
    next
      case (Some st2)
      then have "\<forall>x \<in> set (new @ [call]). \<exists>c \<in> set (CompletedSteps st2). of_step c x"
        using new(6) more(4) one call(1) Some by fastforce
      then show ?thesis using one call new more Some unfolding run_effect_def
        by (intro exI [of _ "new @ [call]"]) (auto simp: list_all_iff)
    qed
  qed
qed

text \<open>What a run claims, from the effect of its steps.\<close>

definition resumable :: "('k, 'c) tools_chain \<Rightarrow> string \<Rightarrow> string \<Rightarrow> registrationState \<Rightarrow> 'c tool_world
    \<Rightarrow> (go_error + unit) \<Rightarrow> 'c tool_world \<Rightarrow> bool" where
  "resumable E path command st w r w' \<longleftrightarrow>
     (\<exists>new. tw_sent w' = tw_sent w @ new \<and> distinct (map step_of new)
    \<and> (\<forall>call \<in> set new. \<exists>c \<in> set command. of_step c call \<and> c \<notin> set (CompletedSteps st))
    \<and> (case r of
         Inl _ \<Rightarrow> \<exists>st'. loadState E path w' = Inr st' \<and> steps_ok (CompletedSteps st')
           \<and> set (CompletedSteps st) \<subseteq> set (CompletedSteps st')
           \<and> (\<forall>call \<in> set (butlast new). \<exists>c \<in> set (CompletedSteps st'). of_step c call)
       | Inr _ \<Rightarrow> gm_get (tw_files w') path = None))"

lemma run_effect_sends: "run_effect E path command cs st w ok st' w' \<Longrightarrow> \<exists>new. tw_sent w' = tw_sent w @ new
    \<and> distinct (map step_of new)
    \<and> (\<forall>call \<in> set new. \<exists>c \<in> set command. of_step c call \<and> c \<notin> set (CompletedSteps st))"
  unfolding run_effect_def list_all_iff by metis

lemma failed_run:
  assumes "run_effect E path command cs st w False st' w'"
  shows "resumable E path command st w (Inl err) w'"
proof -
  obtain new where "tw_sent w' = tw_sent w @ new" "distinct (map step_of new)"
    "\<forall>call \<in> set new. \<exists>c \<in> set cs. of_step c call \<and> c \<in> set command \<and> c \<notin> set (CompletedSteps st)"
    "loadState E path w' = Inr st'" "steps_ok (CompletedSteps st')"
    "set (CompletedSteps st) \<subseteq> set (CompletedSteps st')"
    "\<forall>call \<in> set (butlast new). \<exists>c \<in> set (CompletedSteps st'). of_step c call"
    using assms unfolding run_effect_def list_all_iff by auto
  then show ?thesis unfolding resumable_def by (intro exI [of _ new]) auto
qed

lemma run_effect_state: "run_effect E path command cs st w ok st' w' \<Longrightarrow>
    loadState E path w' = Inr st' \<and> steps_ok (CompletedSteps st')"
  unfolding run_effect_def by blast

lemma step_p_resumes:
  assumes ok: "files_ok E path" and r: "run_effect E path command ''rRa'' st w True st1 w1"
    and st: "steps_ok (CompletedSteps st)" and p: "step_p E L s url command i w1 = (q, w2)"
  shows "resumable E path command st w (case q of Inl err \<Rightarrow> Inl err | Inr _ \<Rightarrow> Inr ()) (case q of Inl _ \<Rightarrow> w2 | Inr _ \<Rightarrow> tool_Remove E path w2)"
proof -
  have no_p: "CHR ''p'' \<notin> set (CompletedSteps st0)" if "steps_ok (CompletedSteps st0)" for st0
    using that by (auto simp: steps_ok_def)
  have st1: "loadState E path w1 = Inr st1" "steps_ok (CompletedSteps st1)" using run_effect_state [OF r] by simp_all
  have s: "sends 1 (of_step (CHR ''p'')) w1 w2" by (rule op_sendsD [OF op_sends_step_p p])
  have idle: "tw_sent w2 = tw_sent w1 \<and> tw_files w2 = tw_files w1" if "CHR ''p'' \<notin> set command"
    using p that by (auto simp: step_p_def has_step_iff tool_return_def)
  have eff: "step_effect E path command (CHR ''p'') st1 w1 None w2"
  proof (cases "CHR ''p'' \<in> set command")
    case True
    then show ?thesis using sends_step [OF ok st1 _ no_p [OF st1(2)] s] by simp
  next
    case False
    then show ?thesis using idle loadState_files [OF ok, of w2 w1] st1 by (simp add: step_effect_def)
  qed
  have run: "run_effect E path command (''rRa'' @ ''p'') st w False st1 w2"
    using run_effect_step [OF r eff] by simp
  show ?thesis
  proof (cases q)
    case (Inl err)
    then show ?thesis using failed_run [OF run] by simp
  next
    case (Inr u)
    then show ?thesis using run_effect_sends [OF run] using ok unfolding resumable_def by (simp add: tool_Remove_def files_ok_def)
  qed
qed

text \<open>\<open>RegisterNode\<close> from each of its steps on: every way out leaves a state to resume from.\<close>

lemma from_step_a_resumes:
  assumes ok: "hashes_ok E" "files_ok E path" and st: "steps_ok (CompletedSteps st)"
    and f2: "run_effect E path command ''rR'' st w True st2 w2"
    and flow: "attempt (step_a E L s ftdcTee command istr path teeID (st2, i2)) id (\<lambda>instructionID.
        attempt (step_p E L s url command instructionID) id (\<lambda>_ w'. (Inr (), tool_Remove E path w'))) w2
        = (r, w')"
  shows "resumable E path command st w r w'"
proof -
  note st2 = run_effect_state [OF f2]
  obtain r3 w3 where r3: "step_a E L s ftdcTee command istr path teeID (st2, i2) w2 = (r3, w3)"
    by fastforce
  obtain st3 where e3: "step_effect E path command (CHR ''a'') st2 w2
      (case r3 of Inl _ \<Rightarrow> None | Inr _ \<Rightarrow> Some st3) w3"
    using step_a_effect [OF ok st2 [THEN conjunct1] st2 [THEN conjunct2] r3] by blast
  note f3 = run_effect_step [OF f2 e3]
  show ?thesis
  proof (cases r3)
    case (Inl err)
    then show ?thesis
      using flow r3 failed_run [of E path command "''rRa''" st w st2 w3] f3 by (auto simp: attempt_def)
  next
    case r3': (Inr instructionID)
    have g: "run_effect E path command ''rRa'' st w True st3 w3" using f3 r3' by simp
    obtain r4 w4 where r4: "step_p E L s url command instructionID w3 = (r4, w4)" by fastforce
    show ?thesis
      using flow r3 r3' r4 step_p_resumes [OF ok(2) g st r4] by (cases r4) (auto simp: attempt_def)
  qed
qed

lemma from_step_R_resumes:
  assumes ok: "hashes_ok E" "files_ok E path" and st: "steps_ok (CompletedSteps st)"
    and f1: "run_effect E path command ''r'' st w True st1 w1"
    and flow: "attempt (step_R E L s command path teeID (st1, i1)) id (\<lambda>sti'.
        attempt (step_a E L s ftdcTee command istr path teeID sti') id (\<lambda>instructionID.
        attempt (step_p E L s url command instructionID) id (\<lambda>_ w'. (Inr (), tool_Remove E path w')))) w1
        = (r, w')"
  shows "resumable E path command st w r w'"
proof -
  note st1 = run_effect_state [OF f1]
  obtain r2 w2 where r2: "step_R E L s command path teeID (st1, i1) w1 = (r2, w2)" by fastforce
  note e2 = run_effect_step [OF f1 step_R_effect [OF ok st1 [THEN conjunct1] st1 [THEN conjunct2] r2]]
  show ?thesis
  proof (cases r2)
    case (Inl err)
    then show ?thesis
      using flow r2 failed_run [of E path command "''rR''" st w st1 w2] e2 by (auto simp: attempt_def)
  next
    case (Inr sti2)
    obtain st2 i2 where sti2: "sti2 = (st2, i2)" by (cases sti2)
    have f2: "run_effect E path command ''rR'' st w True st2 w2" using e2 Inr sti2 by simp
    show ?thesis
      by (rule from_step_a_resumes [OF ok st f2]) (use flow r2 Inr sti2 in \<open>simp add: attempt_def\<close>)
  qed
qed

lemma from_step_r_resumes:
  assumes ok: "hashes_ok E" "files_ok E path"
    and st: "loadState E path w = Inr st" "steps_ok (CompletedSteps st)"
    and flow: "attempt (step_r E L s teeInfo hostURL command path teeID proxyID st) id (\<lambda>sti.
        attempt (step_R E L s command path teeID sti) id (\<lambda>sti'.
        attempt (step_a E L s ftdcTee command istr path teeID sti') id (\<lambda>instructionID.
        attempt (step_p E L s url command instructionID) id (\<lambda>_ w'. (Inr (), tool_Remove E path w'))))) w
        = (r, w')"
  shows "resumable E path command st w r w'"
proof -
  have start: "run_effect E path command [] st w b st w" for b by (rule run_effect_refl [OF st])
  obtain r1 w1 where r1: "step_r E L s teeInfo hostURL command path teeID proxyID st w = (r1, w1)"
    by fastforce
  note e1 = run_effect_step [OF start step_r_effect [OF ok st r1]]
  show ?thesis
  proof (cases r1)
    case (Inl err)
    then show ?thesis
      using flow r1 failed_run [of E path command "[CHR ''r'']" st w st w1] e1 by (auto simp: attempt_def)
  next
    case (Inr sti)
    obtain st1 i1 where sti: "sti = (st1, i1)" by (cases sti)
    have f1: "run_effect E path command ''r'' st w True st1 w1" using e1 Inr sti by simp
    show ?thesis
      by (rule from_step_R_resumes [OF ok st(2) f1]) (use flow r1 Inr sti in \<open>simp add: attempt_def\<close>)
  qed
qed

lemma TeeProxyId_world: "TeeProxyId L teeInfo w = (q, w') \<Longrightarrow> w' = w"
  by (auto simp: TeeProxyId_def attempt_def lib_value_def tool_value_def tool_return_def
      split: prod.splits sum.splits)

lemma RegisterNode_resumable:
  assumes ok: "hashes_ok E" "files_ok E path"
    and st: "loadState E path w = Inr st" "steps_ok (CompletedSteps st)"
    and run: "RegisterNode E L s teeInfo hostURL url ftdcTee command istr path w = (r, w')"
  shows "resumable E path command st w r w'"
proof -
  obtain q w0 where q: "TeeProxyId L teeInfo w = (q, w0)" by fastforce
  have w0: "w0 = w" by (rule TeeProxyId_world [OF q])
  show ?thesis
  proof (cases q)
    case (Inl err)
    then have "r = Inl err" "w' = w" using run q w0 by (auto simp: RegisterNode_def attempt_def)
    then show ?thesis using failed_run [OF run_effect_refl [OF st]] by simp
  next
    case (Inr ids)
    obtain teeID proxyID where ids: "ids = (teeID, proxyID)" by (cases ids)
    show ?thesis
      by (rule from_step_r_resumes [OF ok st])
        (use run q w0 Inr ids st(1) in \<open>simp add: RegisterNode_def attempt_def\<close>)
  qed
qed

text \<open>C29. A failed registration can be resumed without repeating a step. A run started from a state
  file broadcasts at most one transaction per step, only for steps that the command asks for and
  the file does not record. If it fails, the file records at least as much as before and every
  step of the run that broadcast a transaction, except possibly the last, in which it failed. If
  it succeeds, the file is gone.
\<close>

theorem registration_resumes:
  assumes "hashes_ok E" and "files_ok E path"
    and "loadState E path w = Inr st" and "steps_ok (CompletedSteps st)"
    and "RegisterNode E L s teeInfo hostURL url ftdcTee command istr path w = (r, w')"
  shows "\<exists>new. tw_sent w' = tw_sent w @ new \<and> distinct (map step_of new)
    \<and> (\<forall>call \<in> set new. \<exists>c \<in> set command. of_step c call \<and> c \<notin> set (CompletedSteps st))
    \<and> (case r of
         Inl _ \<Rightarrow> \<exists>st'. loadState E path w' = Inr st' \<and> steps_ok (CompletedSteps st')
           \<and> set (CompletedSteps st) \<subseteq> set (CompletedSteps st')
           \<and> (\<forall>call \<in> set (butlast new). \<exists>c \<in> set (CompletedSteps st'). of_step c call)
       | Inr _ \<Rightarrow> gm_get (tw_files w') path = None)"
  using RegisterNode_resumable [OF assms] unfolding resumable_def by blast

lemma demo_tools_ok: "hashes_ok demo_tools" "files_ok demo_tools path"
proof -
  have "list_all (\<lambda>c. code c < 128) (format_nat n)" for n
    using digits_plain [of n] by (simp add: list_all_iff plain_def)
  then show "hashes_ok demo_tools"
    by (simp add: hashes_ok_def demo_tools_def digits_val_format_nat)
  show "files_ok demo_tools path" by (simp add: files_ok_def demo_tools_def)
qed

lemma demo_world_load: "loadState demo_tools path demo_world = Inr empty_state"
  by (simp add: loadState_def tool_ReadFile_def demo_world_def)

theorem registration_resumes_witness:
  "\<exists>new. tw_sent (snd (RegisterNode demo_tools demo_lib demo_support demo_info ''h'' ''u'' 8 ''rap'' [] ''s'' demo_world)) = new
    \<and> distinct (map step_of new) \<and> set (List.map_filter step_of new) \<subseteq> set ''rap''"
proof -
  have "steps_ok (CompletedSteps empty_state)" by (simp add: empty_state_def steps_ok_def)
  from registration_resumes [OF demo_tools_ok demo_world_load this prod.collapse [symmetric],
      of demo_lib demo_support demo_info "''h''" "''u''" 8 "''rap''" "[]" "''s''"]
  obtain new where new: "tw_sent (snd (RegisterNode demo_tools demo_lib demo_support demo_info ''h'' ''u'' 8 ''rap'' [] ''s'' demo_world)) = new"
    "distinct (map step_of new)" "\<forall>call \<in> set new. \<exists>c \<in> set ''rap''. of_step c call"
    by (auto simp: demo_world_def)
  from new(3) have "set (List.map_filter step_of new) \<subseteq> set ''rap''"
    by (auto simp: List.map_filter_def)
  with new show ?thesis by blast
qed

end
