(* ===== verification/Registration_Id.thy ===== *)
theory Registration_Id
  imports Registration_Resume
begin

text \<open>
  Which attestation the availability check refers to: on a machine that is registered already, a
  run that starts fresh and does not request a new attestation refers to instruction id zero.
\<close>

lemma calls_RequestFTDC:
  "calls (\<lambda>x. x = h \<or> x = h @ [RequestAvailabilityCheck teeID i ftdcTee (tc_KeyAddress E (Prv s)) (tc_KeyAddress E (Prv s))])
     (\<lambda>_ x. x = h @ [RequestAvailabilityCheck teeID i ftdcTee (tc_KeyAddress E (Prv s)) (tc_KeyAddress E (Prv s))])
     (RequestFTDCAvailabilityCheck E L s teeID ftdcTee i) h"
  unfolding RequestFTDCAvailabilityCheck_def Let_def
  by (intro calls_rules op_sends_diag calls_quiet [OF op_sends_CheckTx] calls_quiet [OF op_sends_lib]) simp_all

lemma calls_record: "F h \<Longrightarrow> S st h \<Longrightarrow> calls F S (record_state E path st) h"
  by (auto simp: calls_def record_state_def saveState_def tool_WriteFile_def tool_Sleep_def
      split: prod.splits option.splits)

lemma step_r_registered:
  assumes "CHR ''r'' \<in> set command" and "CHR ''r'' \<notin> set (CompletedSteps st)"
    and "on_chain (tc_GetTeeMachine E teeID) w = (q, w1)" and "machine_registered q"
  shows "\<exists>w'. step_r E L s teeInfo hostURL command path teeID proxyID st w =
      (Inr (st\<lparr>CompletedSteps := CompletedSteps st @ ''r'', TeeAttestInstructionID := 0\<rparr>, 0), w')
    \<and> tw_sent w' = tw_sent w"
proof -
  have "tw_sent w1 = tw_sent w" using assms(3) by (auto simp: on_chain_def split: prod.splits)
  then show ?thesis
    using assms by (auto simp: step_r_def has_step_iff attempt_def tool_return_def record_state_def saveState_def
        tool_WriteFile_def tool_Sleep_def split: prod.splits option.splits)
qed

text \<open>The calls of the last two steps when the attestation id is \<open>i\<close>.\<close>

lemma calls_step_a:
  assumes "CHR ''a'' \<in> set command" and "CHR ''a'' \<notin> set (CompletedSteps st)"
  shows "calls (\<lambda>x. x = h \<or> x = h @ [RequestAvailabilityCheck teeID i ftdcTee (tc_KeyAddress E (Prv s)) (tc_KeyAddress E (Prv s))])
    (\<lambda>_ x. x = h @ [RequestAvailabilityCheck teeID i ftdcTee (tc_KeyAddress E (Prv s)) (tc_KeyAddress E (Prv s))])
    (step_a E L s ftdcTee command istr path teeID (st, i)) h"
proof -
  have "step_a E L s ftdcTee command istr path teeID (st, i) = attempt (RequestFTDCAvailabilityCheck E L s teeID ftdcTee i) id
      (\<lambda>j. attempt (record_state E path (st\<lparr>CompletedSteps := CompletedSteps st @ ''a'', StateInstructionID := j\<rparr>)) id
        (\<lambda>_. tool_return j))"
    by (rule ext) (simp add: step_a_def assms has_step_iff)
  then show ?thesis
    by (simp only:) (intro calls_rules calls_mono [OF calls_RequestFTDC] calls_record; simp)
qed

lemma calls_step_p:
  "calls (\<lambda>x. x = h \<or> (\<exists>pf. x = h @ [ToProductionCall pf])) (\<lambda>_ x. x = h \<or> (\<exists>pf. x = h @ [ToProductionCall pf]))
    (step_p E L s url command i) h"
  unfolding step_p_def ToProduction_def
  by (intro calls_rules calls_quiet [OF op_sends_GetFTDC] calls_quiet [OF op_sends_CheckTx]) auto

definition about_id :: "hash \<Rightarrow> contract_call \<Rightarrow> bool" where
  "about_id i call = (case call of RequestAvailabilityCheck _ j _ _ _ \<Rightarrow> j = i | ToProductionCall _ \<Rightarrow> True | _ \<Rightarrow> False)"

text \<open>C30. A registered machine and a fresh start: with a command such as the default ''rap'', which asks
  for the pre-registration and the check but for no new attestation, the run does not register the
  machine again, requests no attestation, and every availability check it broadcasts refers to
  instruction id zero; it cannot succeed without such a check.\<close>

theorem registered_machine_checks_zero_id:
  assumes "TeeProxyId L teeInfo w = (Inr (teeID, proxyID), w)"
    and "gm_get (tw_files w) path = None"
    and "machine_registered (fst (tc_GetTeeMachine E teeID (tw_chain w)))"
    and "CHR ''r'' \<in> set command" and "CHR ''a'' \<in> set command" and "CHR ''R'' \<notin> set command"
    and "RegisterNode E L s teeInfo hostURL url ftdcTee command istr path w = (r, w')"
  shows "\<exists>new. tw_sent w' = tw_sent w @ new \<and> list_all (about_id 0) new
    \<and> (r = Inr () \<longrightarrow> new \<noteq> [] \<and> step_of (hd new) = Some (CHR ''a''))"
proof -
  let ?check = "RequestAvailabilityCheck teeID 0 ftdcTee (tc_KeyAddress E (Prv s)) (tc_KeyAddress E (Prv s))"
  let ?st = "\<lparr>CompletedSteps = ''r'', TeeAttestInstructionID = 0, StateInstructionID = 0\<rparr>"
  have load: "loadState E path w = Inr empty_state"
    using assms(2) by (simp add: loadState_def tool_ReadFile_def)
  obtain q w1 where q: "on_chain (tc_GetTeeMachine E teeID) w = (q, w1)" "machine_registered q"
    using assms(3) by (cases "tc_GetTeeMachine E teeID (tw_chain w)") (auto simp: on_chain_def)
  have "CHR ''r'' \<notin> set (CompletedSteps empty_state)" by (simp add: empty_state_def)
  then obtain w2 where "step_r E L s teeInfo hostURL command path teeID proxyID empty_state w =
      (Inr (empty_state\<lparr>CompletedSteps := CompletedSteps empty_state @ ''r'', TeeAttestInstructionID := 0\<rparr>, 0), w2)"
    and w2: "tw_sent w2 = tw_sent w"
    using step_r_registered [OF assms(4) _ q] by blast
  then have r: "step_r E L s teeInfo hostURL command path teeID proxyID empty_state w = (Inr (?st, 0), w2)"
    by (simp add: empty_state_def)
  have R: "step_R E L s command path teeID (?st, 0) w2 = (Inr (?st, 0), w2)"
    using assms(6) by (simp add: step_R_def has_step_iff)
  let ?rest = "attempt (step_a E L s ftdcTee command istr path teeID (?st, 0)) id (\<lambda>instructionID.
      attempt (step_p E L s url command instructionID) id (\<lambda>_ w'. (Inr (), tool_Remove E path w')))"
  have rest: "?rest w2 = (r, w')"
    using assms(7) by (simp add: RegisterNode_def attempt_def assms(1) load r R)
  let ?F = "\<lambda>x. list_all (about_id 0) x"
  let ?S = "\<lambda>_ x. list_all (about_id 0) x \<and> x \<noteq> [] \<and> step_of (hd x) = Some (CHR ''a'')"
  have end_: "calls ?F ?S (\<lambda>w'. (Inr (), tool_Remove E path w')) x" if "?S () x" for x
    using that by (simp add: calls_def tool_Remove_def)
  have p: "calls ?F (\<lambda>_. calls ?F ?S (\<lambda>w'. (Inr (), tool_Remove E path w'))) (step_p E L s url command j) [?check]" for j
    by (intro calls_mono [OF calls_step_p] end_) (auto simp: about_id_def)
  have "calls ?F ?S ?rest []"
    by (intro calls_attempt calls_mono [OF calls_step_a]) (use assms(5) p in \<open>auto simp: about_id_def\<close>)
  from callsD [OF this rest] w2 show ?thesis by (cases r) auto
qed

lemma demo_start:
  "tw_sent (demo_world\<lparr>tw_chain := 5\<rparr>) = []" "gm_get (tw_files (demo_world\<lparr>tw_chain := 5\<rparr>)) p = None"
  "machine_registered (fst (tc_GetTeeMachine demo_tools 9 (tw_chain (demo_world\<lparr>tw_chain := 5\<rparr>))))"
  "CHR ''r'' \<in> set ''rap''" "CHR ''a'' \<in> set ''rap''" "CHR ''R'' \<notin> set ''rap''"
  by (simp_all add: demo_world_def machine_registered_def demo_tools_def)

theorem registered_machine_checks_zero_id_witness:
  "\<exists>new. tw_sent (snd (RegisterNode demo_tools demo_lib demo_support demo_info ''h'' ''u'' 8 ''rap'' [] ''s''
      (demo_world\<lparr>tw_chain := 5\<rparr>))) = new \<and> list_all (about_id 0) new"
proof -
  have "TeeProxyId demo_lib demo_info (demo_world\<lparr>tw_chain := 5\<rparr>) = (Inr (9, 8), demo_world\<lparr>tw_chain := 5\<rparr>)"
    by (simp add: TeeProxyId_def attempt_def lib_value_def tool_value_def tool_return_def demo_lib_def demo_info_def)
  from registered_machine_checks_zero_id [OF this demo_start(2-6) prod.collapse [symmetric],
      of demo_support "''h''" "''u''" 8 "[]"]
  show ?thesis unfolding demo_start(1) by auto
qed

end
