(* ===== verification/Setup_Extension.thy ===== *)
theory Setup_Extension
  imports Tools_Demo "HOL-Library.Sublist"
begin

text \<open>
  Registering an extension and granting its owner what it needs: \<open>tools/pkg/fccutils/extension.go\<close>.
\<close>

definition registerExtension :: "('k, 'c) tools_chain \<Rightarrow> tee_lib \<Rightarrow> transactor \<Rightarrow> address \<Rightarrow> address
    \<Rightarrow> ('c, int) tool_op" where
  "registerExtension E L opts instructionsSender stateVerifier =
     attempt (transact E opts (ExtensionRegister stateVerifier instructionsSender))
       (reworded ''TeeExtensionRegistry.Register failed: '') (\<lambda>tx.
     attempt (CheckTx E tx) (reworded ''Register transaction failed: '') (\<lambda>rc.
     if length (rc_Logs rc) < 2
     then tool_fail (Errorf (''expected at least 2 logs from Register() transaction, got ''
       @ format_int (int (length (rc_Logs rc))) @ '' '' @ em_dash
       @ '' the registry contract may have changed or be behind a proxy''))
     else attempt (lib_value (tl_TeeExtensionRegistered L (rc_Logs rc ! 0)))
            (reworded ''failed to parse TeeExtensionRegistered event: '') (\<lambda>extensionId.
          attempt (lib_value (tl_TeeExtensionContractsSet L (rc_Logs rc ! 1)))
            (reworded ''failed to parse TeeExtensionContractsSet event: '') (\<lambda>_.
          tool_return extensionId))))"

definition allowTeeMachineOwners :: "('k, 'c) tools_chain \<Rightarrow> tee_lib \<Rightarrow> transactor \<Rightarrow> int \<Rightarrow> address list
    \<Rightarrow> ('c, unit) tool_op" where
  "allowTeeMachineOwners E L opts extensionId owners =
     attempt (transact E opts (AddAllowedTeeMachineOwners extensionId owners))
       (reworded ''AddAllowedTeeMachineOwners failed: '') (\<lambda>tx.
     attempt (CheckTx E tx) (reworded ''AddAllowedTeeMachineOwners transaction failed: '') (\<lambda>rc.
     if length (rc_Logs rc) = 0
     then tool_fail (Errorf (''no logs in AddAllowedTeeMachineOwners transaction '' @ em_dash @ '' unexpected''))
     else attempt (lib_value (tl_AllowedTeeMachineOwnersAdded L (rc_Logs rc ! 0)))
            (reworded ''failed to parse AllowedTeeMachineOwnersAdded event: '') tool_return))"

definition allowTeeProjectManagerOwners :: "('k, 'c) tools_chain \<Rightarrow> tee_lib \<Rightarrow> transactor \<Rightarrow> int \<Rightarrow> address list
    \<Rightarrow> ('c, unit) tool_op" where
  "allowTeeProjectManagerOwners E L opts extensionId owners =
     attempt (transact E opts (AddAllowedTeeWalletProjectOwners extensionId owners))
       (reworded ''AddAllowedTeeWalletProjectOwners failed: '') (\<lambda>tx.
     attempt (CheckTx E tx) (reworded ''AddAllowedTeeWalletProjectOwners transaction failed: '') (\<lambda>rc.
     if length (rc_Logs rc) = 0
     then tool_fail (Errorf (''no logs in AddAllowedTeeWalletProjectOwners transaction '' @ em_dash @ '' unexpected''))
     else attempt (lib_value (tl_AllowedTeeWalletProjectOwnersAdded L (rc_Logs rc ! 0)))
            (reworded ''failed to parse AllowedTeeWalletProjectOwnersAdded event: '') tool_return))"

definition addSupportedKeyTypesTx :: "('k, 'c) tools_chain \<Rightarrow> transactor \<Rightarrow> int \<Rightarrow> hash list \<Rightarrow> ('c, unit) tool_op" where
  "addSupportedKeyTypesTx E opts extensionId keyTypes =
     attempt (transact E opts (AddSupportedKeyTypesCall extensionId keyTypes)) (reworded []) (\<lambda>tx.
     attempt (CheckTx E tx) (reworded []) (\<lambda>rc. tool_return ()))"

definition AddSupportedKeyTypes :: "('k, 'c) tools_chain \<Rightarrow> 'k Support \<Rightarrow> int \<Rightarrow> hash list \<Rightarrow> ('c, unit) tool_op" where
  "AddSupportedKeyTypes E s extensionId keyTypes =
     attempt (tool_value (tc_NewTransactor E (Prv s) (SupportChainID s))) (reworded []) (\<lambda>opts.
     attempt (addSupportedKeyTypesTx E opts extensionId (HashArrayToBytes32Array keyTypes)) (reworded []) tool_return)"

definition IsKeyTypeSupported :: "('k, 'c) tools_chain \<Rightarrow> int \<Rightarrow> hash \<Rightarrow> ('c, bool) tool_op" where
  "IsKeyTypeSupported E extensionId keyType =
     attempt (on_chain (tc_IsKeyTypeSupported E extensionId keyType)) (reworded []) tool_return"

text \<open>The three grants: each is skipped when it is there already.\<close>

definition grant_step :: "('c, bool) tool_op \<Rightarrow> (go_error \<Rightarrow> go_error) \<Rightarrow> ('c, unit) tool_op \<Rightarrow> (go_error \<Rightarrow> go_error)
    \<Rightarrow> ('c, unit) tool_op" where
  "grant_step query wrap_query act wrap_act =
     attempt query wrap_query (\<lambda>already. if already then tool_return () else attempt act wrap_act tool_return)"

definition SetupExtension :: "('k, 'c) tools_chain \<Rightarrow> tee_lib \<Rightarrow> 'k Support \<Rightarrow> hash \<Rightarrow> address \<Rightarrow> address
    \<Rightarrow> ('c, int) tool_op" where
  "SetupExtension E L s governanceHash instructionsSender stateVerifier =
     (let deployer = tc_KeyAddress E (Prv s) in
     attempt (tool_value (tc_NewTransactor E (Prv s) (SupportChainID s))) id (\<lambda>opts.
     attempt (registerExtension E L opts instructionsSender stateVerifier) id (\<lambda>extensionID.
     attempt (grant_step (on_chain (tc_IsAllowedTeeMachineOwner E extensionID deployer))
         (reworded ''failed checking TEE machine owner status: '')
         (allowTeeMachineOwners E L opts extensionID [deployer])
         (reworded (''failed adding TEE machine owners (extension exists as ID '' @ format_int extensionID
           @ '' but owners not set): ''))) id (\<lambda>_.
     attempt (grant_step (on_chain (tc_IsAllowedTeeWalletProjectOwner E extensionID deployer))
         (reworded ''failed checking wallet project owner status: '')
         (allowTeeProjectManagerOwners E L opts extensionID [deployer])
         (reworded (''failed adding wallet project owners (extension exists as ID '' @ format_int extensionID
           @ '' but owners not set): ''))) id (\<lambda>_.
     attempt (grant_step (IsKeyTypeSupported E extensionID (tl_EVMType L)) id
         (AddSupportedKeyTypes E s extensionID [tl_EVMType L]) id) id (\<lambda>_.
     tool_return extensionID))))))"

section \<open>What is broadcast\<close>

definition grants :: "tee_lib \<Rightarrow> address \<Rightarrow> int \<Rightarrow> contract_call list" where
  "grants L deployer i = [AddAllowedTeeMachineOwners i [deployer], AddAllowedTeeWalletProjectOwners i [deployer],
     AddSupportedKeyTypesCall i [tl_EVMType L]]"

text \<open>A grant is left out when the chain answered that it is there, and sent when it answered no.\<close>

definition grant_sent :: "('c \<Rightarrow> (go_error + bool) \<times> 'c) \<Rightarrow> contract_call \<Rightarrow> contract_call list \<Rightarrow> bool" where
  "grant_sent q g gs \<longleftrightarrow> gs = [] \<and> answered q True \<or> gs = [g] \<and> answered q False"

lemma calls_register:
  "calls (\<lambda>x. x = h \<or> x = h @ [ExtensionRegister stateVerifier sender]) (\<lambda>_ x. x = h @ [ExtensionRegister stateVerifier sender])
     (registerExtension E L opts sender stateVerifier) h"
  unfolding registerExtension_def
  by (intro calls_rules calls_quiet [OF op_sends_CheckTx] calls_quiet [OF op_sends_lib]) simp_all

lemma calls_owner:
  "calls (\<lambda>x. x = h \<or> x = h @ [AddAllowedTeeMachineOwners i owners]) (\<lambda>_ x. x = h @ [AddAllowedTeeMachineOwners i owners])
     (allowTeeMachineOwners E L opts i owners) h"
  unfolding allowTeeMachineOwners_def
  by (intro calls_rules calls_quiet [OF op_sends_CheckTx] calls_quiet [OF op_sends_lib]) simp_all

lemma calls_project_owner:
  "calls (\<lambda>x. x = h \<or> x = h @ [AddAllowedTeeWalletProjectOwners i owners]) (\<lambda>_ x. x = h @ [AddAllowedTeeWalletProjectOwners i owners])
     (allowTeeProjectManagerOwners E L opts i owners) h"
  unfolding allowTeeProjectManagerOwners_def
  by (intro calls_rules calls_quiet [OF op_sends_CheckTx] calls_quiet [OF op_sends_lib]) simp_all

lemma calls_key_types:
  "calls (\<lambda>x. x = h \<or> x = h @ [AddSupportedKeyTypesCall i keys]) (\<lambda>_ x. x = h @ [AddSupportedKeyTypesCall i keys])
     (AddSupportedKeyTypes E s i keys) h"
  unfolding AddSupportedKeyTypes_def addSupportedKeyTypesTx_def HashArrayToBytes32Array_def
  by (intro calls_rules calls_quiet [OF op_sends_CheckTx]) simp_all

lemma calls_grant:
  assumes "\<And>F S. F h \<Longrightarrow> (\<And>b. answered q b \<Longrightarrow> S b h) \<Longrightarrow> calls F S query h"
    and "calls (\<lambda>x. x = h \<or> x = h @ [g]) (\<lambda>_ x. x = h @ [g]) act h"
  shows "calls (\<lambda>x. x = h \<or> x = h @ [g]) (\<lambda>_ x. \<exists>gs. x = h @ gs \<and> grant_sent q g gs) (grant_step query wrap_query act wrap_act) h"
  unfolding grant_step_def
proof (intro calls_rules assms(1))
  fix already
  assume "answered q already" and "\<not> already"
  then have "answered q False" by simp
  then show "calls (\<lambda>x. x = h \<or> x = h @ [g]) (\<lambda>a. calls (\<lambda>x. x = h \<or> x = h @ [g]) (\<lambda>_ x. \<exists>gs. x = h @ gs \<and> grant_sent q g gs) (tool_return a)) act h"
    by (intro calls_mono [OF assms(2)] calls_rules) (auto simp: grant_sent_def)
qed (auto simp: grant_sent_def)

lemma grant_sent_subseq: "grant_sent q g gs \<Longrightarrow> subseq gs [g]"
  by (auto simp: grant_sent_def)

lemma calls_key_query:
  "F h \<Longrightarrow> (\<And>b. answered (tc_IsKeyTypeSupported E i k) b \<Longrightarrow> S b h) \<Longrightarrow> calls F S (IsKeyTypeSupported E i k) h"
  unfolding IsKeyTypeSupported_def by (intro calls_attempt calls_on_chain calls_value)

text \<open>The calls of a run: what may have been sent when it fails, and what has been sent when it
  succeeds with extension \<open>i\<close>.\<close>

definition setup_failed :: "tee_lib \<Rightarrow> address \<Rightarrow> contract_call \<Rightarrow> contract_call list \<Rightarrow> bool" where
  "setup_failed L deployer reg new \<longleftrightarrow> new = [] \<or> (\<exists>i gs. new = reg # gs \<and> subseq gs (grants L deployer i))"

definition setup_done :: "('k, 'c) tools_chain \<Rightarrow> tee_lib \<Rightarrow> address \<Rightarrow> contract_call \<Rightarrow> int \<Rightarrow> contract_call list \<Rightarrow> bool" where
  "setup_done E L deployer reg i new \<longleftrightarrow> (\<exists>g1 g2 g3. new = reg # g1 @ g2 @ g3
     \<and> grant_sent (tc_IsAllowedTeeMachineOwner E i deployer) (AddAllowedTeeMachineOwners i [deployer]) g1
     \<and> grant_sent (tc_IsAllowedTeeWalletProjectOwner E i deployer) (AddAllowedTeeWalletProjectOwners i [deployer]) g2
     \<and> grant_sent (tc_IsKeyTypeSupported E i (tl_EVMType L)) (AddSupportedKeyTypesCall i [tl_EVMType L]) g3)"

lemma setup_failedI:
  assumes "subseq g1 [AddAllowedTeeMachineOwners i [d]]" and "subseq g2 [AddAllowedTeeWalletProjectOwners i [d]]"
    and "subseq g3 [AddSupportedKeyTypesCall i [tl_EVMType L]]"
  shows "setup_failed L d reg (reg # g1 @ g2 @ g3)"
  using list_emb_append_mono [OF assms(1) list_emb_append_mono [OF assms(2,3)]]
  by (auto simp: setup_failed_def grants_def)

lemma calls_third:
  assumes "grant_sent (tc_IsAllowedTeeMachineOwner E i d) (AddAllowedTeeMachineOwners i [d]) g1"
    and "grant_sent (tc_IsAllowedTeeWalletProjectOwner E i d) (AddAllowedTeeWalletProjectOwners i [d]) g2"
  shows "calls (setup_failed L d reg) (setup_done E L d reg) (attempt (grant_step (IsKeyTypeSupported E i (tl_EVMType L)) id
       (AddSupportedKeyTypes E s i [tl_EVMType L]) id) id (\<lambda>_. tool_return i)) (reg # g1 @ g2)"
proof -
  note sub = setup_failedI [OF grant_sent_subseq [OF assms(1)] grant_sent_subseq [OF assms(2)]]
  show ?thesis
    using assms sub [of "[]"] sub [of "[AddSupportedKeyTypesCall i [tl_EVMType L]]"]
    by (intro calls_attempt calls_mono [OF calls_grant [OF calls_key_query calls_key_types]] calls_value)
      (auto simp: setup_done_def)
qed

lemma calls_second:
  assumes "grant_sent (tc_IsAllowedTeeMachineOwner E i d) (AddAllowedTeeMachineOwners i [d]) g1"
    and "\<And>g2. grant_sent (tc_IsAllowedTeeWalletProjectOwner E i d) (AddAllowedTeeWalletProjectOwners i [d]) g2
      \<Longrightarrow> calls (setup_failed L d reg) S third (reg # g1 @ g2)"
  shows "calls (setup_failed L d reg) S (attempt (grant_step (on_chain (tc_IsAllowedTeeWalletProjectOwner E i d)) f
       (allowTeeProjectManagerOwners E L opts i [d]) g) id (\<lambda>_. third)) (reg # g1)"
proof (rule calls_attempt, rule calls_mono [OF calls_grant [OF calls_on_chain calls_project_owner]])
  note sub = setup_failedI [OF grant_sent_subseq [OF assms(1)]]
  fix x
  assume "x = reg # g1 \<or> x = (reg # g1) @ [AddAllowedTeeWalletProjectOwners i [d]]"
  then show "setup_failed L d reg x"
    using sub [of "[]" "[]"] sub [of "[AddAllowedTeeWalletProjectOwners i [d]]" "[]"] by auto
qed (use assms(2) in auto)

lemma calls_first:
  assumes "\<And>g1. grant_sent (tc_IsAllowedTeeMachineOwner E i d) (AddAllowedTeeMachineOwners i [d]) g1
      \<Longrightarrow> calls (setup_failed L d reg) S second (reg # g1)"
  shows "calls (setup_failed L d reg) S (attempt (grant_step (on_chain (tc_IsAllowedTeeMachineOwner E i d)) f
       (allowTeeMachineOwners E L opts i [d]) g) id (\<lambda>_. second)) [reg]"
proof (rule calls_attempt, rule calls_mono [OF calls_grant [OF calls_on_chain calls_owner]])
  fix x
  assume "x = [reg] \<or> x = [reg] @ [AddAllowedTeeMachineOwners i [d]]"
  then show "setup_failed L d reg x"
    using setup_failedI [of "[]" i d "[]" "[]"] setup_failedI [of "[AddAllowedTeeMachineOwners i [d]]" i d "[]" "[]"]
    by auto
qed (use assms in auto)

text \<open>C35. Setting up an extension broadcasts the registration first and then, in order, the three grants:
  a run that succeeds with an extension id has sent each grant for that id exactly once, except
  those that the chain said are there; a run that fails has sent the registration at most once and
  no grant out of order, and no grant before the registration.\<close>

theorem setup_extension_grants:
  assumes "SetupExtension E L s governanceHash sender stateVerifier w = (r, w')"
  shows "\<exists>new. tw_sent w' = tw_sent w @ new \<and> (case r of
      Inl _ \<Rightarrow> setup_failed L (tc_KeyAddress E (Prv s)) (ExtensionRegister stateVerifier sender) new
    | Inr i \<Rightarrow> setup_done E L (tc_KeyAddress E (Prv s)) (ExtensionRegister stateVerifier sender) i new)"
proof -
  let ?F = "setup_failed L (tc_KeyAddress E (Prv s)) (ExtensionRegister stateVerifier sender)"
  let ?S = "setup_done E L (tc_KeyAddress E (Prv s)) (ExtensionRegister stateVerifier sender)"
  have none: "?F []" "?F [ExtensionRegister stateVerifier sender]" by (simp_all add: setup_failed_def)
  have "calls ?F ?S (SetupExtension E L s governanceHash sender stateVerifier) []"
    unfolding SetupExtension_def Let_def
    by (rule calls_attempt, rule calls_value(1), rule none, rule calls_attempt, rule calls_mono [OF calls_register])
      (use none in \<open>auto intro!: calls_first calls_second calls_third simp del: append.simps simp: append_Nil\<close>)
  from callsD [OF this assms] show ?thesis .
qed

lemma demo_setup: "fst (SetupExtension demo_tools demo_lib demo_support 0 11 0 demo_world) = Inr 1"
  by (simp add: SetupExtension_def Let_def attempt_def tool_value_def registerExtension_def transact_def CheckTx_def
      on_chain_def lib_value_def tool_return_def grant_step_def allowTeeMachineOwners_def allowTeeProjectManagerOwners_def
      IsKeyTypeSupported_def AddSupportedKeyTypes_def addSupportedKeyTypesTx_def demo_tools_def demo_lib_def demo_world_def
      demo_support_def tool_fail_def)

theorem setup_extension_grants_witness:
  "setup_done demo_tools demo_lib 7 (ExtensionRegister 0 11) 1
     (tw_sent (snd (SetupExtension demo_tools demo_lib demo_support 0 11 0 demo_world)))"
proof -
  have "tw_sent demo_world = []" "tc_KeyAddress demo_tools (Prv demo_support) = 7"
    by (simp_all add: demo_world_def demo_tools_def)
  then show ?thesis
    using setup_extension_grants [OF prod.collapse [symmetric], of demo_tools demo_lib demo_support 0 11 0 demo_world]
    unfolding demo_setup by simp
qed

end
