(* ===== verification/Register_Tools.thy ===== *)
theory Register_Tools
  imports Registration Setup_Extension
begin

text \<open>
  The commands \<open>register-tee\<close>, \<open>register-extension\<close> and \<open>allow-tee-version\<close> under \<open>tools/cmd\<close>. A
  call of \<open>FatalWithCause\<close> is the error of the operation; what a command prints on its standard
  output is its value.
\<close>

section \<open>register-tee\<close>

record register_tee_flags =
  rt_addresses :: string
  rt_chain :: string
  rt_proxy :: string
  rt_host :: string
  rt_externalProxy :: string
  rt_instruction :: string
  rt_command :: string
  rt_state :: string
  rt_resume :: bool

definition default_register_tee :: register_tee_flags where
  "default_register_tee = \<lparr>rt_addresses = AddressesFile, rt_chain = ChainNodeURL, rt_proxy = ExtensionProxyURL,
     rt_host = [], rt_externalProxy = ''http://localhost:6662'', rt_instruction = [], rt_command = ''rap'',
     rt_state = ''../config/register-tee.state'', rt_resume = False\<rparr>"

definition register_tee :: "('k, 'c) tools_chain \<Rightarrow> tee_lib \<Rightarrow> (string \<Rightarrow> string) \<Rightarrow> 'k \<Rightarrow> register_tee_flags
    \<Rightarrow> ('c, unit) tool_op" where
  "register_tee E L getenv prvWithFunds fl w =
     attempt (DefaultSupport E getenv prvWithFunds (rt_addresses fl) (rt_chain fl)) id (\<lambda>s.
     attempt (TeeInfo E L (rt_proxy fl)) id (\<lambda>teeInfo.
     attempt (TeeProxyId L teeInfo) id (\<lambda>_.
     attempt (GetTeeProxyID E L (rt_externalProxy fl)) id (\<lambda>(ftdcTeeID, _).
     attempt (GetCodeHashAndPlatform E L getenv teeInfo) id (\<lambda>_.
     RegisterNode E L s teeInfo (if rt_host fl = [] then rt_proxy fl else rt_host fl) (rt_externalProxy fl) ftdcTeeID
       (rt_command fl) (rt_instruction fl) (rt_state fl))))))
     (if rt_resume fl then w else tool_Remove E (rt_state fl) w)"

section \<open>register-extension\<close>

record register_extension_flags =
  re_addresses :: string
  re_chain :: string
  re_instructionSender :: string
  re_governanceHash :: string

definition register_extension :: "'k tool_env \<Rightarrow> ('k, 'c) tools_chain \<Rightarrow> tee_lib \<Rightarrow> 'k \<Rightarrow> register_extension_flags
    \<Rightarrow> ('c, bytes) tool_op" where
  "register_extension T E L prvWithFunds fl =
     (if re_instructionSender fl = [] then tool_fail (Errorf ''--instructionSender flag is required'')
      else attempt (DefaultSupport E (te_Getenv T) prvWithFunds (re_addresses fl) (re_chain fl)) id (\<lambda>s.
        (let governanceHash = tc_HexToHash E (re_governanceHash fl); sender = tc_HexToAddress E (re_instructionSender fl) in
        attempt (require (\<lambda>w. AddressHasCode T (Some (tc_Client E (tw_chain w))) sender ''InstructionSender'')) id (\<lambda>_.
        attempt (SetupExtension E L s governanceHash sender 0) id (\<lambda>extensionID.
        tool_return (''0x'' @ hex_pad 64 (nat extensionID) @ nl))))))"

section \<open>allow-tee-version\<close>

record allow_version_flags =
  av_addresses :: string
  av_chain :: string
  av_proxy :: string
  av_version :: string

definition owner_key :: "('k, 'c) tools_chain \<Rightarrow> (string \<Rightarrow> string) \<Rightarrow> 'k Support \<Rightarrow> go_error + 'k" where
  "owner_key E getenv s = (let privKeyString = getenv ''EXTENSION_OWNER_KEY'' in
     if privKeyString \<noteq> []
     then tc_HexToECDSA E (if HasPrefix privKeyString ''0x'' \<or> HasPrefix privKeyString ''0X''
       then drop 2 privKeyString else privKeyString)
     else Inr (Prv s))"

definition image_supported :: "('k, 'c) tools_chain \<Rightarrow> tee_info \<Rightarrow> 'c \<Rightarrow> (go_error + bool) \<times> 'c" where
  "image_supported E ti =
     tc_IsCodeHashPlatformSupported E (uint (ti_MachineExtensionID ti)) (ti_MachineCodeHash ti) (ti_MachinePlatform ti)"

text \<open>A collision of the version's name is only ignored when this image is supported.\<close>

definition add_version :: "('k, 'c) tools_chain \<Rightarrow> 'k Support \<Rightarrow> 'k \<Rightarrow> tee_info \<Rightarrow> string \<Rightarrow> ('c, unit) tool_op" where
  "add_version E s privKey ti version w =
     (case AddTeeVersion E s privKey (uint (ti_MachineExtensionID ti)) (ti_MachineCodeHash ti) (ti_MachinePlatform ti)
        0 version w of
        (Inr _, w') \<Rightarrow> (Inr (), w')
      | (Inl err, w') \<Rightarrow>
          if str_contains (err_Error err) ''VersionAlreadyExists''
          then attempt (on_chain (image_supported E ti)) id (\<lambda>supported.
            if \<not> supported then tool_fail (Errorf (''version '' @ version @ '' already exists but does not support code hash ''
              @ tc_HashHex E (ti_MachineCodeHash ti) @ '' on platform '' @ tc_HashHex E (ti_MachinePlatform ti)
              @ '': '' @ err_Error err))
            else tool_return ()) w'
          else (Inl err, w'))"

definition allow_tee_version :: "('k, 'c) tools_chain \<Rightarrow> tee_lib \<Rightarrow> (string \<Rightarrow> string) \<Rightarrow> 'k \<Rightarrow> allow_version_flags
    \<Rightarrow> ('c, unit) tool_op" where
  "allow_tee_version E L getenv prvWithFunds fl =
     attempt (DefaultSupport E getenv prvWithFunds (av_addresses fl) (av_chain fl)) id (\<lambda>s.
     attempt (TeeInfo E L (av_proxy fl)) id (\<lambda>teeInfo.
     attempt (tool_value (owner_key E getenv s)) id (\<lambda>privKey.
     attempt (TeeProxyId L teeInfo) id (\<lambda>_.
     attempt (on_chain (image_supported E teeInfo)) id (\<lambda>supported.
     if supported then tool_return () else add_version E s privKey teeInfo (av_version fl))))))"

section \<open>A version is never reported in vain\<close>

definition version_call :: "tee_info \<Rightarrow> string \<Rightarrow> contract_call" where
  "version_call ti version = AddTeeVersionCall (uint (ti_MachineExtensionID ti)) version (ti_MachineCodeHash ti)
     [ti_MachinePlatform ti] 0"

lemma calls_AddTeeVersion:
  "calls (\<lambda>x. x = h \<or> x = h @ [AddTeeVersionCall i v c [p] g]) (\<lambda>_ x. x = h @ [AddTeeVersionCall i v c [p] g])
     (AddTeeVersion E s k i c p g v) h"
  unfolding AddTeeVersion_def by (intro calls_rules calls_quiet [OF op_sends_CheckTx]) simp_all

lemma add_version_calls:
  "calls (\<lambda>x. x = [] \<or> x = [version_call ti v])
     (\<lambda>_ x. x = [version_call ti v] \<or> x = [] \<and> answered (image_supported E ti) True) (add_version E s k ti v) []"
  unfolding calls_def
proof (intro allI impI)
  fix w r w'
  assume run: "add_version E s k ti v w = (r, w')"
  obtain q w1 where q: "AddTeeVersion E s k (uint (ti_MachineExtensionID ti)) (ti_MachineCodeHash ti)
      (ti_MachinePlatform ti) 0 v w = (q, w1)" by fastforce
  from callsD [OF calls_AddTeeVersion [where h = "[]"] q] obtain new where
    new: "tw_sent w1 = tw_sent w @ new" "new = [] \<or> new = [version_call ti v]" "\<not> isl q \<Longrightarrow> new = [version_call ti v]"
    by (cases q) (auto simp: version_call_def)
  have again: "calls (\<lambda>x. x = new) (\<lambda>_ x. x = new \<and> answered (image_supported E ti) True)
      (attempt (on_chain (image_supported E ti)) id (\<lambda>supported. if \<not> supported then tool_fail e else tool_return ())) new" for e
    by (intro calls_rules) simp_all
  show "\<exists>new. tw_sent w' = tw_sent w @ new \<and> (case r of Inl _ \<Rightarrow> [] @ new = [] \<or> [] @ new = [version_call ti v]
      | Inr a \<Rightarrow> [] @ new = [version_call ti v] \<or> [] @ new = [] \<and> answered (image_supported E ti) True)"
  proof (cases q)
    case (Inr u)
    then show ?thesis using run q new by (auto simp: add_version_def)
  next
    case (Inl err)
    show ?thesis
    proof (cases "str_contains (err_Error err) ''VersionAlreadyExists''")
      case True
      let ?e = "Errorf (''version '' @ v @ '' already exists but does not support code hash ''
              @ tc_HashHex E (ti_MachineCodeHash ti) @ '' on platform '' @ tc_HashHex E (ti_MachinePlatform ti)
              @ '': '' @ err_Error err)"
      have "attempt (on_chain (image_supported E ti)) id (\<lambda>supported. if \<not> supported then tool_fail ?e else tool_return ()) w1 = (r, w')"
        using run q Inl True unfolding add_version_def by simp
      with again [of ?e] obtain more where "tw_sent w' = tw_sent w1 @ more" "new @ more = new"
          "\<not> isl r \<Longrightarrow> answered (image_supported E ti) True"
        unfolding calls_def by (cases r) fastforce+
      then show ?thesis using new by (cases r) auto
    next
      case False
      then show ?thesis using run q Inl new by (auto simp: add_version_def)
    qed
  qed
qed

lemma op_sends_TeeInfo [op_sends_intros]: "op_sends n P (TeeInfo E L url)"
  unfolding TeeInfo_def by (intro op_sends_intros)

text \<open>C36. \<open>allow-tee-version\<close> broadcasts at most one transaction, which adds the code hash and platform
  that the proxy reported, with the given version, to the extension the proxy reported; it reports
  success only when that transaction went out or the chain answered that this very image is
  supported, never because the version's name is taken by another image.\<close>

theorem allow_version_honest:
  assumes "allow_tee_version E L getenv prvWithFunds fl w = (r, w')"
  shows "\<exists>new. tw_sent w' = tw_sent w @ new \<and> (case r of
      Inl _ \<Rightarrow> new = [] \<or> (\<exists>ti u u'. TeeInfo E L (av_proxy fl) u = (Inr ti, u') \<and> new = [version_call ti (av_version fl)])
    | Inr _ \<Rightarrow> \<exists>ti u u'. TeeInfo E L (av_proxy fl) u = (Inr ti, u')
        \<and> (new = [version_call ti (av_version fl)] \<or> new = [] \<and> answered (image_supported E ti) True))"
proof -
  let ?read = "\<lambda>ti. \<exists>u u'. TeeInfo E L (av_proxy fl) u = (Inr ti, u')"
  let ?F = "\<lambda>new. new = [] \<or> (\<exists>ti u u'. TeeInfo E L (av_proxy fl) u = (Inr ti, u') \<and> new = [version_call ti (av_version fl)])"
  let ?S = "\<lambda>_ new. \<exists>ti u u'. TeeInfo E L (av_proxy fl) u = (Inr ti, u')
        \<and> (new = [version_call ti (av_version fl)] \<or> new = [] \<and> answered (image_supported E ti) True)"
  have tail: "calls ?F ?S (if supported then tool_return () else add_version E s privKey ti (av_version fl)) []"
    if "?read ti" "answered (image_supported E ti) supported" for supported s privKey ti
  proof (cases supported)
    case True
    have "?S () []" using that True by auto
    then show ?thesis using True by (simp add: calls_value)
  next
    case False
    have "calls ?F ?S (add_version E s privKey ti (av_version fl)) []"
      using that(1) by (intro calls_mono [OF add_version_calls]) blast+
    with False show ?thesis by simp
  qed
  have "calls ?F ?S (attempt (tool_value (owner_key E getenv s)) id (\<lambda>privKey.
     attempt (TeeProxyId L ti) id (\<lambda>_.
     attempt (on_chain (image_supported E ti)) id (\<lambda>supported.
     if supported then tool_return () else add_version E s privKey ti (av_version fl))))) []" if "?read ti" for ti s
    by (rule calls_attempt, rule calls_value(1), simp, rule calls_attempt, rule calls_quiet [OF op_sends_TeeProxyId], simp,
        rule calls_attempt, rule calls_on_chain, simp, rule tail [OF that])
  then have "calls ?F ?S (allow_tee_version E L getenv prvWithFunds fl) []"
    unfolding allow_tee_version_def
    by (intro calls_attempt [of _ _ _ "DefaultSupport _ _ _ _ _"] calls_quiet [OF op_sends_DefaultSupport]
        calls_attempt [of _ _ _ "TeeInfo _ _ _"] calls_quiet_result [OF op_sends_TeeInfo]) blast+
  from callsD [OF this assms] show ?thesis .
qed

definition demo_version_flags :: allow_version_flags where
  "demo_version_flags = \<lparr>av_addresses = ''a'', av_chain = ''u'', av_proxy = ''p'', av_version = ''v1''\<rparr>"

lemma demo_allow: "fst (allow_tee_version demo_tools demo_lib (te_Getenv demo_env) () demo_version_flags demo_files) = Inr ()"
  unfolding allow_tee_version_def attempt_def
  by (simp add: demo_version_flags_def demo_default)
     (simp add: TeeInfo_def attempt_def on_chain_def lib_value_def tool_value_def tool_return_def owner_key_def
      TeeProxyId_def image_supported_def add_version_def AddTeeVersion_def transact_def CheckTx_def
      demo_tools_def demo_lib_def demo_info_def demo_deployer_def demo_env_def demo_files_def demo_world_def)

theorem allow_version_honest_witness:
  "\<exists>ti u u'. TeeInfo demo_tools demo_lib ''p'' u = (Inr ti, u')
    \<and> (tw_sent (snd (allow_tee_version demo_tools demo_lib (te_Getenv demo_env) () demo_version_flags demo_files))
        = [version_call ti ''v1''] \<or> answered (image_supported demo_tools ti) True)"
proof -
  have "tw_sent demo_files = []" "av_proxy demo_version_flags = ''p''" "av_version demo_version_flags = ''v1''"
    by (simp_all add: demo_files_def demo_world_def demo_version_flags_def)
  then show ?thesis
    using allow_version_honest [OF prod.collapse [symmetric],
        of demo_tools demo_lib "te_Getenv demo_env" "()" demo_version_flags demo_files]
    unfolding demo_allow by auto
qed

end
