(* ===== verification/Vault_Calls.thy ===== *)
theory Vault_Calls
  imports Tee_Calls
begin

text \<open>
  Deploying and driving the vault contract: \<open>tools/pkg/utils/instructions.go\<close>. The generated
  contract bindings are the calls of \<open>contract_call\<close>; a deployed contract is its address.
\<close>

definition FlareContractRegistry :: address where
  "FlareContractRegistry = 0xaD67FE66660Fb8dFE9d6b1b4240d8650e30F6019"

definition DefaultInstructionFee :: int where
  "DefaultInstructionFee = 1000000"

definition ResolveFtsoV2 :: "('k, 'c) tools_chain \<Rightarrow> ('c, address) tool_op" where
  "ResolveFtsoV2 E = (case tc_RegistryABI E of
     Some err \<Rightarrow> tool_fail (Errorf (''parsing registry ABI: '' @ err))
   | None \<Rightarrow>
     attempt (lib_value (tc_PackRegistry E ''FtsoV2'')) (reworded ''packing registry call: '') (\<lambda>callData.
     attempt (on_chain (tc_CallContract E \<lparr>cm_From = 0, cm_To = Some FlareContractRegistry, cm_Gas = 0,
         cm_GasPrice = None, cm_Value = None, cm_Data = callData\<rparr>)) (reworded ''calling FlareContractRegistry: '') (\<lambda>res.
     attempt (lib_value (tc_UnpackRegistry E res)) (reworded ''unpacking registry result: '') (\<lambda>v. case v of
       Inl dyn_type \<Rightarrow> tool_fail (Errorf (''registry result: expected address, got '' @ dyn_type))
     | Inr addr \<Rightarrow> if addr = 0 then tool_fail (Errorf ''FlareContractRegistry returned zero address for FtsoV2'')
         else tool_return addr))))"

definition waitMinedOK :: "('k, 'c) tools_chain \<Rightarrow> hash \<Rightarrow> string \<Rightarrow> ('c, unit) tool_op" where
  "waitMinedOK E tx what =
     attempt (on_chain (tc_WaitMined E (Some (minutes_ns 2)) tx))
       (reworded (what @ '' tx not mined within 2 minutes (tx: '' @ tc_HashHex E tx @ ''): '')) (\<lambda>rc.
     if rc_Status rc \<noteq> 1 then tool_fail (Errorf (what @ '' transaction failed (tx: '' @ tc_HashHex E tx @ '')''))
     else tool_return ())"

definition new_transactor :: "('k, 'c) tools_chain \<Rightarrow> 'k Support \<Rightarrow> (transactor \<Rightarrow> ('c, 'a) tool_op) \<Rightarrow> ('c, 'a) tool_op" where
  "new_transactor E s k = attempt (tool_value (tc_NewTransactor E (Prv s) (SupportChainID s)))
     (reworded ''failed to create transactor: '') k"

definition DeployMockUSDT0 :: "('k, 'c) tools_chain \<Rightarrow> 'k Support \<Rightarrow> ('c, address) tool_op" where
  "DeployMockUSDT0 E s = new_transactor E s (\<lambda>opts.
     attempt (transact E opts DeployTokenCall) (reworded ''failed to deploy MockUSDT0: '') (\<lambda>tx.
     attempt (waitMinedOK E tx ''MockUSDT0 deployment'') id (\<lambda>_. tool_return (tc_ContractAddress E tx))))"

definition DeployVault :: "('k, 'c) tools_chain \<Rightarrow> 'k Support \<Rightarrow> address \<Rightarrow> address \<Rightarrow> int \<Rightarrow> ('c, address) tool_op" where
  "DeployVault E s ftsoV2 payoutToken instructionFee = new_transactor E s (\<lambda>opts.
     (let diamond = FlareTeeManager (SupportAddresses s) in
     attempt (transact E opts (DeployVaultCall diamond diamond ftsoV2 payoutToken instructionFee))
       (reworded ''failed to deploy DarkStopVault: '') (\<lambda>tx.
     attempt (waitMinedOK E tx ''DarkStopVault deployment'') id (\<lambda>_. tool_return (tc_ContractAddress E tx)))))"

definition MintPayoutPool :: "('k, 'c) tools_chain \<Rightarrow> 'k Support \<Rightarrow> address \<Rightarrow> address \<Rightarrow> int \<Rightarrow> ('c, unit) tool_op" where
  "MintPayoutPool E s token vault amount = new_transactor E s (\<lambda>opts.
     attempt (transact E opts (MintCall token vault amount)) (reworded ''failed to mint payout pool: '') (\<lambda>tx.
     waitMinedOK E tx ''payout pool mint''))"

definition SetTeeExecutor :: "('k, 'c) tools_chain \<Rightarrow> 'k Support \<Rightarrow> address \<Rightarrow> address \<Rightarrow> ('c, unit) tool_op" where
  "SetTeeExecutor E s vault executor = new_transactor E s (\<lambda>opts.
     attempt (transact E opts (SetTeeExecutorCall vault executor)) (reworded ''failed to call setTeeExecutor: '') (\<lambda>tx.
     waitMinedOK E tx ''setTeeExecutor''))"

definition simulateVaultCall :: "('k, 'c) tools_chain \<Rightarrow> 'k Support \<Rightarrow> address \<Rightarrow> int option \<Rightarrow> contract_call
    \<Rightarrow> 'c tool_world \<Rightarrow> string \<times> 'c tool_world" where
  "simulateVaultCall E s vaultAddress value call w = (case tc_PackVault E call of
     None \<Rightarrow> ([], w)
   | Some callData \<Rightarrow> SimulateAndDecodeRevert E (tc_KeyAddress E (Prv s)) vaultAddress value callData w)"

definition bind_vault :: "('k, 'c) tools_chain \<Rightarrow> address \<Rightarrow> ('c, unit) tool_op" where
  "bind_vault E vaultAddress = (case tc_Bind E ''DarkStopVault'' vaultAddress of
     Some err \<Rightarrow> tool_fail (reworded ''failed to bind contract: '' err) | None \<Rightarrow> tool_return ())"

text \<open>A call of the vault that explains its failure: the reason in the error of the send, else the
  one a simulation finds; a reverted receipt is simulated as well.\<close>

definition explained_send :: "('k, 'c) tools_chain \<Rightarrow> 'k Support \<Rightarrow> transactor \<Rightarrow> address \<Rightarrow> int option
    \<Rightarrow> contract_call \<Rightarrow> string \<Rightarrow> ('c, hash) tool_op" where
  "explained_send E s opts vaultAddress value call failed w =
     (case transact E opts call w of
        (Inr tx, w') \<Rightarrow> (Inr tx, w')
      | (Inl err, w') \<Rightarrow>
          (case (if DecodeRevertReason E err = [] then simulateVaultCall E s vaultAddress value call w'
                 else (DecodeRevertReason E err, w')) of (reason, w'') \<Rightarrow>
            (Inl (Errorf (failed @ err_Error err @ (if reason \<noteq> [] then '' (revert reason: '' @ reason @ '')'' else []))), w'')))"

definition explained_receipt :: "('k, 'c) tools_chain \<Rightarrow> 'k Support \<Rightarrow> address \<Rightarrow> int option \<Rightarrow> contract_call
    \<Rightarrow> string \<Rightarrow> (receipt \<Rightarrow> string) \<Rightarrow> hash \<Rightarrow> ('c, receipt) tool_op" where
  "explained_receipt E s vaultAddress value call failed no_reason tx =
     attempt (on_chain (tc_WaitMined E None tx)) (reworded ''failed waiting for transaction: '') (\<lambda>rc w.
     if rc_Status rc \<noteq> 1
     then (case simulateVaultCall E s vaultAddress value call w of (reason, w') \<Rightarrow>
       (Inl (Errorf (if reason \<noteq> [] then failed @ '' (revert reason: '' @ reason @ '')'' else failed @ no_reason rc)), w'))
     else (Inr rc, w))"

definition SetExtensionId :: "('k, 'c) tools_chain \<Rightarrow> 'k Support \<Rightarrow> address \<Rightarrow> ('c, unit) tool_op" where
  "SetExtensionId E s vaultAddress =
     attempt (bind_vault E vaultAddress) id (\<lambda>_. new_transactor E s (\<lambda>opts.
     (let call = SetExtensionIdCall vaultAddress in
     attempt (explained_send E s opts vaultAddress None call ''failed to call setExtensionId: '') id (\<lambda>tx.
     attempt (explained_receipt E s vaultAddress None call ''setExtensionId transaction failed'' (\<lambda>_. []) tx) id (\<lambda>_.
     tool_return ())))))"

text \<open>The scan of the receipt: the last event of each kind stays.\<close>

fun scan_logs :: "tee_lib \<Rightarrow> bytes list \<Rightarrow> int option \<times> hash \<Rightarrow> int option \<times> hash" where
  "scan_logs L [] found = found"
| "scan_logs L (lg # logs) (orderID, instructionID) = (case tl_OrderPlaced L lg of
     Inr placed \<Rightarrow> scan_logs L logs (Some placed, instructionID)
   | Inl _ \<Rightarrow> (case tl_TeeInstructionsSent L lg of
       Inr sent \<Rightarrow> scan_logs L logs (orderID, sent)
     | Inl _ \<Rightarrow> scan_logs L logs (orderID, instructionID)))"

definition SendPlaceOrder :: "('k, 'c) tools_chain \<Rightarrow> tee_lib \<Rightarrow> 'k Support \<Rightarrow> address \<Rightarrow> bytes \<Rightarrow> int
    \<Rightarrow> ('c, hash \<times> int \<times> hash) tool_op" where
  "SendPlaceOrder E L s vaultAddress ciphertext value =
     attempt (bind_vault E vaultAddress) id (\<lambda>_. new_transactor E s (\<lambda>opts0.
     (let opts = opts0\<lparr>op_Value := Some value\<rparr>; call = PlaceOrderCall vaultAddress ciphertext in
     attempt (explained_send E s opts vaultAddress (Some value) call ''failed to place order: '') id (\<lambda>tx.
     attempt (explained_receipt E s vaultAddress (Some value) call ''placeOrder transaction failed''
         (\<lambda>rc. '' with status: '' @ FormatUint (rc_Status rc)) tx) id (\<lambda>rc.
     (case scan_logs L (rc_Logs rc) (None, 0) of (orderID, instructionID) \<Rightarrow>
       (case orderID of
          None \<Rightarrow> tool_fail (Errorf ''OrderPlaced event not found in receipt'')
        | Some i \<Rightarrow> if instructionID = 0 then tool_fail (Errorf ''TeeInstructionsSent event not found in receipt'')
            else tool_return (instructionID, i, rc_TxHash rc))))))))"

section \<open>What the calls of a vault broadcast\<close>

lemma simulate_sends: "sends n P w (snd (simulateVaultCall E s vault amount call w))"
  by (auto simp: simulateVaultCall_def SimulateAndDecodeRevert_def on_chain_def sends_def Let_def
      split: option.split prod.split sum.split)

lemma calls_explained_send [calls_rules]:
  assumes "F h" and "\<And>tx. S tx (h @ [call])"
  shows "calls F S (explained_send E s opts vault amount call failed) h"
  unfolding calls_def
proof (intro allI impI)
  fix w r w'
  assume run: "explained_send E s opts vault amount call failed w = (r, w')"
  obtain q w1 where q: "transact E opts call w = (q, w1)" by fastforce
  show "\<exists>new. tw_sent w' = tw_sent w @ new \<and> (case r of Inl _ \<Rightarrow> F (h @ new) | Inr a \<Rightarrow> S a (h @ new))"
  proof (cases q)
    case (Inl err)
    have "tw_sent w1 = tw_sent w" using q Inl by (auto simp: transact_def split: prod.splits sum.splits)
    moreover have "isl r" "tw_sent w' = tw_sent w1"
      using run q Inl simulate_sends [of 0 "\<lambda>_. True" w1 E s vault amount call]
      by (auto simp: explained_send_def sends_def split: prod.splits if_splits)
    ultimately show ?thesis using assms(1) by (cases r) auto
  next
    case (Inr tx)
    then show ?thesis using run q assms(2)
      by (auto simp: explained_send_def transact_def split: prod.splits sum.splits)
  qed
qed

lemma op_sends_receipt [op_sends_intros]: "op_sends n P (explained_receipt E s vault amount call failed no_reason tx)"
  unfolding explained_receipt_def
proof (rule op_sends_first [OF op_sends_on_chain])
  fix rc
  show "op_sends n P (\<lambda>w. if rc_Status rc \<noteq> 1
     then (case simulateVaultCall E s vault amount call w of (reason, w') \<Rightarrow>
       (Inl (Errorf (if reason \<noteq> [] then failed @ '' (revert reason: '' @ reason @ '')'' else failed @ no_reason rc)), w'))
     else (Inr rc, w))"
    using simulate_sends [of n P _ E s vault amount call]
    by (auto simp: op_sends_def sends_refl split: prod.split) (metis snd_conv)
qed

lemma op_sends_bind_vault [op_sends_intros]: "op_sends n P (bind_vault E vault)"
  unfolding bind_vault_def by (intro op_sends_intros)

lemma calls_SetExtensionId:
  "calls (\<lambda>x. x = h \<or> x = h @ [SetExtensionIdCall v]) (\<lambda>_ x. x = h @ [SetExtensionIdCall v]) (SetExtensionId E s v) h"
  unfolding SetExtensionId_def new_transactor_def Let_def
  by (intro calls_rules calls_quiet [OF op_sends_bind_vault] calls_quiet [OF op_sends_receipt]) simp_all

lemma calls_SendPlaceOrder:
  "calls (\<lambda>x. x = h \<or> x = h @ [PlaceOrderCall v ct]) (\<lambda>_ x. x = h @ [PlaceOrderCall v ct]) (SendPlaceOrder E L s v ct value) h"
  unfolding SendPlaceOrder_def new_transactor_def Let_def
  by (intro calls_rules calls_quiet [OF op_sends_bind_vault] calls_quiet [OF op_sends_receipt])
    (simp_all add: calls_value split: option.split)

end
