(* ===== verification/Deploy_Contract.thy ===== *)
theory Deploy_Contract
  imports Vault_Calls Tools_Demo "HOL-Library.Sublist"
begin

text \<open>
  The \<open>deploy-contract\<close> command, \<open>tools/cmd/deploy-contract/main.go\<close>: checks first, then the token,
  the vault, the payout pool and the executor. A call of \<open>FatalWithCause\<close> is the error of the
  operation; the value of a run that ends normally is its standard output. \<open>MkdirAll\<close> has no
  counterpart: a directory that is missing shows in the write.
\<close>

record deploy_flags =
  df_addresses :: string
  df_chain :: string
  df_out :: string
  df_info :: string
  df_fee :: int64
  df_preflight :: bool

definition payoutPool :: int where
  "payoutPool = 1000000 * 1000000"

record deployInfo =
  diMockUSDT0 :: string
  diDarkStopVault :: string
  diFtsoV2 :: string
  diTeeExecutor :: string
  diInstructionFee :: string
  diPayoutPool :: string

definition deployInfo_text :: "deployInfo \<Rightarrow> bytes" where
  "deployInfo_text i = object_text 0 [(''mockUSDT0'', json_string (diMockUSDT0 i)),
     (''darkStopVault'', json_string (diDarkStopVault i)), (''ftsoV2'', json_string (diFtsoV2 i)),
     (''teeExecutor'', json_string (diTeeExecutor i)), (''instructionFee'', json_string (diInstructionFee i)),
     (''payoutPool'', json_string (diPayoutPool i))]"

definition preflight :: "'k tool_env \<Rightarrow> ('k, 'c) tools_chain \<Rightarrow> 'k Support \<Rightarrow> ('c, address) tool_op" where
  "preflight T E s = (let manager = FlareTeeManager (SupportAddresses s); client = (\<lambda>w. Some (tc_Client E (tw_chain w))) in
     attempt (require (\<lambda>w. AddressNotZero T manager ''FlareTeeManager'')) id (\<lambda>_.
     attempt (require (\<lambda>w. AddressHasCode T (client w) manager ''FlareTeeManager'')) id (\<lambda>_.
     attempt (require (\<lambda>w. KeyHasFunds T (client w) (Prv s) MinDeployBalance)) id (\<lambda>_.
     attempt (ResolveFtsoV2 E) id (\<lambda>ftsoV2.
     attempt (require (\<lambda>w. AddressHasCode T (client w) ftsoV2 ''FtsoV2'')) id (\<lambda>_.
     tool_return ftsoV2))))))"

definition write_outputs :: "('k, 'c) tools_chain \<Rightarrow> deploy_flags \<Rightarrow> address \<Rightarrow> deployInfo \<Rightarrow> ('c, unit) tool_op" where
  "write_outputs E fl vaultAddr info w =
     (let w1 = (if df_out fl \<noteq> [] then snd (tool_WriteFile E (df_out fl) (tc_AddressHex E vaultAddr) w) else w) in
      if df_info fl \<noteq> []
      then (case tool_WriteFile E (df_info fl) (deployInfo_text info @ nl) w1 of
          (Some err, w2) \<Rightarrow> (Inl (Errorf err), w2) | (None, w2) \<Rightarrow> (Inr (), w2))
      else (Inr (), w1))"

definition deploy_stack :: "('k, 'c) tools_chain \<Rightarrow> 'k Support \<Rightarrow> deploy_flags \<Rightarrow> address \<Rightarrow> ('c, bytes) tool_op" where
  "deploy_stack E s fl ftsoV2 = (let deployer = tc_KeyAddress E (Prv s); instructionFee = sint (df_fee fl) in
     attempt (DeployMockUSDT0 E s) id (\<lambda>usdt0.
     attempt (DeployVault E s ftsoV2 usdt0 instructionFee) id (\<lambda>vault.
     attempt (MintPayoutPool E s usdt0 vault payoutPool) id (\<lambda>_.
     attempt (SetTeeExecutor E s vault deployer) id (\<lambda>_.
     attempt (write_outputs E fl vault \<lparr>diMockUSDT0 = tc_AddressHex E usdt0, diDarkStopVault = tc_AddressHex E vault,
       diFtsoV2 = tc_AddressHex E ftsoV2, diTeeExecutor = tc_AddressHex E deployer,
       diInstructionFee = format_int instructionFee, diPayoutPool = format_int payoutPool\<rparr>) id (\<lambda>_.
     tool_return (tc_AddressHex E vault @ nl)))))))"

definition deploy_contract :: "'k tool_env \<Rightarrow> ('k, 'c) tools_chain \<Rightarrow> 'k \<Rightarrow> deploy_flags \<Rightarrow> ('c, bytes) tool_op" where
  "deploy_contract T E prvWithFunds fl =
     attempt (DefaultSupport E (te_Getenv T) prvWithFunds (df_addresses fl) (df_chain fl)) id (\<lambda>s.
     attempt (preflight T E s) id (\<lambda>ftsoV2.
     if df_preflight fl then tool_return [] else deploy_stack E s fl ftsoV2))"

section \<open>What is broadcast\<close>

lemma op_sends_waitMined [op_sends_intros]: "op_sends n P (waitMinedOK E tx what)"
  unfolding waitMinedOK_def by (intro op_sends_intros)

lemma op_sends_ResolveFtsoV2 [op_sends_intros]: "op_sends n P (ResolveFtsoV2 E)"
  unfolding ResolveFtsoV2_def by (intro op_sends_intros)

lemma op_sends_preflight [op_sends_intros]: "op_sends n P (preflight T E s)"
  unfolding preflight_def Let_def by (intro op_sends_intros)

lemma calls_write: "F h \<Longrightarrow> S () h \<Longrightarrow> calls F S (write_outputs E fl v i) h"
  by (auto simp: calls_def write_outputs_def Let_def tool_WriteFile_def split: option.splits if_splits)

lemma calls_token:
  "calls (\<lambda>x. x = h \<or> x = h @ [DeployTokenCall]) (\<lambda>_ x. x = h @ [DeployTokenCall]) (DeployMockUSDT0 E s) h"
  unfolding DeployMockUSDT0_def new_transactor_def
  by (intro calls_rules calls_quiet [OF op_sends_waitMined]) simp_all

definition vault_call :: "'k Support \<Rightarrow> address \<Rightarrow> address \<Rightarrow> int \<Rightarrow> contract_call" where
  "vault_call s f t fee = (let diamond = FlareTeeManager (SupportAddresses s) in DeployVaultCall diamond diamond f t fee)"

lemma calls_vault:
  "calls (\<lambda>x. x = h \<or> x = h @ [vault_call s f t fee]) (\<lambda>_ x. x = h @ [vault_call s f t fee]) (DeployVault E s f t fee) h"
  unfolding DeployVault_def new_transactor_def Let_def vault_call_def
  by (intro calls_rules calls_quiet [OF op_sends_waitMined]) simp_all

lemma calls_mint:
  "calls (\<lambda>x. x = h \<or> x = h @ [MintCall t v a]) (\<lambda>_ x. x = h @ [MintCall t v a]) (MintPayoutPool E s t v a) h"
  unfolding MintPayoutPool_def new_transactor_def
  by (intro calls_rules calls_quiet [OF op_sends_waitMined]) simp_all

lemma calls_executor:
  "calls (\<lambda>x. x = h \<or> x = h @ [SetTeeExecutorCall v a]) (\<lambda>_ x. x = h @ [SetTeeExecutorCall v a]) (SetTeeExecutor E s v a) h"
  unfolding SetTeeExecutor_def new_transactor_def
  by (intro calls_rules calls_quiet [OF op_sends_waitMined]) simp_all

text \<open>The four transactions, for the addresses of the token and the vault.\<close>

definition deploy_calls :: "('k, 'c) tools_chain \<Rightarrow> 'k Support \<Rightarrow> deploy_flags \<Rightarrow> address \<Rightarrow> address \<Rightarrow> address
    \<Rightarrow> contract_call list" where
  "deploy_calls E s fl ftsoV2 usdt0 vault =
     [DeployTokenCall,
      vault_call s ftsoV2 usdt0 (sint (df_fee fl)),
      MintCall usdt0 vault payoutPool, SetTeeExecutorCall vault (tc_KeyAddress E (Prv s))]"

lemma calls_stack:
  "calls (\<lambda>x. \<exists>usdt0 vault. prefix x (deploy_calls E s fl ftsoV2 usdt0 vault))
     (\<lambda>out x. \<exists>usdt0 vault. x = deploy_calls E s fl ftsoV2 usdt0 vault \<and> out = tc_AddressHex E vault @ nl)
     (deploy_stack E s fl ftsoV2) []"
  unfolding deploy_stack_def Let_def
  by (intro calls_attempt calls_mono [OF calls_token] calls_mono [OF calls_vault] calls_mono [OF calls_mint]
      calls_mono [OF calls_executor] calls_write calls_value) (auto simp: deploy_calls_def prefix_def)

text \<open>C34. \<open>deploy-contract\<close> broadcasts the token, the vault with that token, the payout pool minted to that
  vault and the executor of that vault, in this order and each once: a run that ends normally has
  broadcast all four and prints the address of that vault, or with \<open>--preflight-only\<close> nothing at
  all; a run that fails has broadcast a prefix of the four.\<close>

theorem deploy_broadcasts_in_order:
  assumes "deploy_contract T E prvWithFunds fl w = (r, w')"
  shows "\<exists>new. tw_sent w' = tw_sent w @ new
    \<and> (case fst (DefaultSupport E (te_Getenv T) prvWithFunds (df_addresses fl) (df_chain fl) w) of
        Inl err \<Rightarrow> r = Inl err \<and> new = []
      | Inr s \<Rightarrow> (case r of
          Inl _ \<Rightarrow> new = [] \<or> \<not> df_preflight fl \<and> (\<exists>ftsoV2 usdt0 vault. prefix new (deploy_calls E s fl ftsoV2 usdt0 vault))
        | Inr out \<Rightarrow> if df_preflight fl then new = [] \<and> out = []
            else \<exists>ftsoV2 usdt0 vault. new = deploy_calls E s fl ftsoV2 usdt0 vault \<and> out = tc_AddressHex E vault @ nl))"
proof -
  let ?support = "DefaultSupport E (te_Getenv T) prvWithFunds (df_addresses fl) (df_chain fl)"
  obtain q w0 where q: "?support w = (q, w0)" by fastforce
  have sent: "tw_sent w0 = tw_sent w"
    using op_sendsD [OF op_sends_DefaultSupport [of 0 "\<lambda>_. True"] q] by (simp add: sends_def)
  show ?thesis
  proof (cases q)
    case (Inl err)
    then show ?thesis using assms q sent by (simp add: deploy_contract_def attempt_def)
  next
    case (Inr s)
    let ?F = "\<lambda>new. new = [] \<or> \<not> df_preflight fl \<and> (\<exists>ftsoV2 usdt0 vault. prefix new (deploy_calls E s fl ftsoV2 usdt0 vault))"
    let ?S = "\<lambda>out new. if df_preflight fl then new = [] \<and> out = []
        else \<exists>ftsoV2 usdt0 vault. new = deploy_calls E s fl ftsoV2 usdt0 vault \<and> out = tc_AddressHex E vault @ nl"
    have "calls ?F ?S (if df_preflight fl then tool_return [] else deploy_stack E s fl ftsoV2) []" for ftsoV2
      by (intro calls_if calls_value calls_mono [OF calls_stack]) auto
    then have "calls ?F ?S (attempt (preflight T E s) id
        (\<lambda>ftsoV2. if df_preflight fl then tool_return [] else deploy_stack E s fl ftsoV2)) []"
      by (intro calls_attempt calls_quiet [OF op_sends_preflight]) auto
    from callsD [OF this, of w0 r w'] show ?thesis
      using assms q sent Inr by (simp add: deploy_contract_def attempt_def)
  qed
qed

definition demo_flags :: deploy_flags where
  "demo_flags = \<lparr>df_addresses = ''a'', df_chain = ''u'', df_out = ''o'', df_info = [], df_fee = 9, df_preflight = False\<rparr>"

lemma demo_flags: "df_addresses demo_flags = ''a''" "df_chain demo_flags = ''u''" "\<not> df_preflight demo_flags"
  "df_info demo_flags = []"
  by (simp_all add: demo_flags_def)

lemma demo_run: "fst (deploy_contract demo_env demo_tools () demo_flags demo_files) = Inr (''0x05'' @ nl)"
  unfolding deploy_contract_def attempt_def
  by (simp add: demo_flags demo_default)
     (simp add: preflight_def demo_flags Let_def attempt_def require_def AddressNotZero_def AddressHasCode_def KeyHasFunds_def
      ResolveFtsoV2_def lib_value_def tool_value_def tool_return_def on_chain_def deploy_stack_def DeployMockUSDT0_def
      DeployVault_def MintPayoutPool_def SetTeeExecutor_def new_transactor_def waitMinedOK_def transact_def
      write_outputs_def tool_WriteFile_def MinDeployBalance_def demo_tools_def demo_deployer_def demo_env_def
      demo_files_def demo_world_def)

theorem deploy_broadcasts_in_order_witness:
  "\<exists>ftsoV2 usdt0 vault. tw_sent (snd (deploy_contract demo_env demo_tools () demo_flags demo_files))
     = deploy_calls demo_tools demo_deployer demo_flags ftsoV2 usdt0 vault"
proof -
  have "tw_sent demo_files = []" by (simp add: demo_files_def demo_world_def)
  then show ?thesis
    using deploy_broadcasts_in_order [OF prod.collapse [symmetric], of demo_env demo_tools "()" demo_flags demo_files]
    unfolding demo_run by (simp add: demo_flags demo_default) blast
qed

end
