(* ===== verification/Verify_Deploy.thy ===== *)
theory Verify_Deploy
  imports Checks_Props Tools_Demo
begin

text \<open>
  The \<open>verify-deploy\<close> command, \<open>tools/cmd/verify-deploy/main.go\<close>: it runs the checks of a step,
  keeps those asked for, prints the report and exits. The answers of the chain that the checks read
  are the views \<open>tc_Client\<close>, \<open>tc_Registry\<close> and \<open>tc_Allowlist\<close> of the chain's state; the checks
  change nothing. What the command writes to the error stream is left out.
\<close>

record verify_flags =
  vf_addresses :: string
  vf_chain :: string
  vf_config :: string
  vf_step :: string
  vf_checks :: string
  vf_json :: bool

definition default_flags :: verify_flags where
  "default_flags = \<lparr>vf_addresses = AddressesFile, vf_chain = ChainNodeURL, vf_config = [], vf_step = ''all'',
     vf_checks = [], vf_json = False\<rparr>"

definition stepsNeedingChain :: "string list" where
  "stepsNeedingChain = [''deploy'', ''register'', ''all'']"

text \<open>The inner switch, for a step that needs the chain.\<close>

definition chain_checks :: "'k tool_env \<Rightarrow> ('k, 'c) tools_chain \<Rightarrow> 'k Support \<Rightarrow> 'c \<Rightarrow> string \<Rightarrow> string
    \<Rightarrow> Report \<Rightarrow> Report" where
  "chain_checks T E s c step path r =
     (let client = Some (tc_Client E c); addresses = [(''FlareTeeManager'', FlareTeeManager (SupportAddresses s))];
          deploy = RegisterDeployChecks T client (Some (Prv s)) addresses addresses path;
          register = RegisterRegistrationChecks T client (Some (Prv s)) (Some (tc_Registry E (TeeExtensionRegistry s) c))
            (Some (tc_Allowlist E (TeeOwnerAllowlist s) c)) path in
      if step = ''deploy'' then deploy r
      else if step = ''register'' then register r
      else if step = ''all'' then RegisterTestChecks T path (RegisterTeeMachineChecks T path
        (RegisterTeeVersionChecks T path (RegisterServicesChecks T path (register (deploy r)))))
      else r)"

text \<open>The outer switch: None is an exit with status 1 before any output.\<close>

definition step_checks :: "'k tool_env \<Rightarrow> ('k, 'c) tools_chain \<Rightarrow> 'k \<Rightarrow> verify_flags \<Rightarrow> 'c tool_world
    \<Rightarrow> Report option \<times> 'c tool_world" where
  "step_checks T E prvWithFunds fl w =
     (let report = \<lparr>Results = []\<rparr>; step = vf_step fl; path = vf_config fl in
      if step = ''deploy'' \<or> step = ''register'' \<or> step = ''all''
      then (case DefaultSupport E (te_Getenv T) prvWithFunds (vf_addresses fl) (vf_chain fl) w of
          (Inl err, w') \<Rightarrow> (None, w')
        | (Inr s, w') \<Rightarrow> (Some (chain_checks T E s (tw_chain w') step path report), w'))
      else if step = ''services'' then (Some (RegisterServicesChecks T path report), w)
      else if step = ''tee-version'' then (Some (RegisterTeeVersionChecks T path report), w)
      else if step = ''tee-machine'' then (Some (RegisterTeeMachineChecks T path report), w)
      else if step = ''test'' then (Some (RegisterTestChecks T path report), w)
      else (None, w))"

definition allowed_ids :: "string \<Rightarrow> string list" where
  "allowed_ids checksFilter = filter (\<lambda>t. t \<noteq> []) (map TrimSpace (str_split (CHR '','') checksFilter))"

definition filter_checks :: "string \<Rightarrow> Report \<Rightarrow> Report" where
  "filter_checks checksFilter r = (if checksFilter \<noteq> []
     then r\<lparr>Results := filter (\<lambda>res. ID res \<in> set (allowed_ids checksFilter)) (Results r)\<rparr> else r)"

text \<open>The exit status and the standard output.\<close>

definition verify_deploy :: "'k tool_env \<Rightarrow> ('k, 'c) tools_chain \<Rightarrow> 'k \<Rightarrow> verify_flags \<Rightarrow> 'c tool_world
    \<Rightarrow> (nat \<times> bytes) \<times> 'c tool_world" where
  "verify_deploy T E prvWithFunds fl w = (case step_checks T E prvWithFunds fl w of
     (None, w') \<Rightarrow> ((1, []), w')
   | (Some report, w') \<Rightarrow> (let r = filter_checks (vf_checks fl) report;
         out = (if vf_json fl then FprintJSON r else Fprint r) in
       ((if HasFailures r then 1 else 0, out), w')))"

section \<open>What the exit status means\<close>

text \<open>Result \<open>i\<close> failed in a list of results.\<close>

definition fails :: "string \<Rightarrow> CheckResult list \<Rightarrow> bool" where
  "fails i rs \<longleftrightarrow> (\<exists>res \<in> set rs. ID res = i \<and> ResultStatus res = FAIL)"

lemma fails_simps [simp]: "\<not> fails i []" "fails i (res # rs) \<longleftrightarrow> ID res = i \<and> ResultStatus res = FAIL \<or> fails i rs"
  "fails i (rs @ ss) \<longleftrightarrow> fails i rs \<or> fails i ss"
  by (auto simp: fails_def)

text \<open>The checks that can fail, with their reasons, on the chain's state \<open>c\<close> under the set-up \<open>s\<close>.\<close>

inductive chain_failure :: "'k tool_env \<Rightarrow> ('k, 'c) tools_chain \<Rightarrow> 'k Support \<Rightarrow> 'c \<Rightarrow> string \<Rightarrow> string \<Rightarrow> string \<Rightarrow> bool"
  for T E s c path where
  no_address: "FlareTeeManager (SupportAddresses s) = 0 \<Longrightarrow> chain_failure T E s c path ''deploy'' ''D3''"
| no_code: "FlareTeeManager (SupportAddresses s) \<noteq> 0 \<Longrightarrow> \<not> has_code (tc_Client E c) (FlareTeeManager (SupportAddresses s)) \<Longrightarrow>
    chain_failure T E s c path ''deploy'' ''D1''"
| no_funds: "\<not> funded (tc_Client E c) (te_KeyAddress T (Prv s)) MinDeployBalance \<Longrightarrow> chain_failure T E s c path ''deploy'' ''D5''"
| no_chain_id: "isl (ec_ChainID (tc_Client E c)) \<Longrightarrow> chain_failure T E s c path ''deploy'' ''D6''"
| bad_env: "path \<noteq> [] \<Longrightarrow> te_Open T path = Some f \<Longrightarrow> \<not> env_file_ok f \<Longrightarrow> chain_failure T E s c path ''deploy'' ''D7''"
| no_counter: "path \<noteq> [] \<Longrightarrow> parseExtensionEnv T path \<noteq> ([], []) \<Longrightarrow>
    isl (er_ExtensionsCounter (tc_Registry E (TeeExtensionRegistry s) c)) \<Longrightarrow> chain_failure T E s c path ''register'' ''R1''"
| bad_id: "path \<noteq> [] \<Longrightarrow> parseExtensionEnv T path = (x, a) \<Longrightarrow> (x, a) \<noteq> ([], []) \<Longrightarrow> \<not> extensionIDRegex x \<Longrightarrow>
    chain_failure T E s c path ''register'' ''R2''"
| bad_sender: "path \<noteq> [] \<Longrightarrow> parseExtensionEnv T path = (x, a) \<Longrightarrow> extensionIDRegex x \<Longrightarrow> addressRegex a \<Longrightarrow>
    er_InstructionsSender (tc_Registry E (TeeExtensionRegistry s) c) (hex_number (drop 2 x)) \<noteq> Inr (te_HexToAddress T a) \<Longrightarrow>
    chain_failure T E s c path ''register'' ''R2''"
| not_owner: "path \<noteq> [] \<Longrightarrow> parseExtensionEnv T path = (x, a) \<Longrightarrow> extensionIDRegex x \<Longrightarrow>
    al_IsAllowedTeeMachineOwner (tc_Allowlist E (TeeOwnerAllowlist s) c) (hex_number (drop 2 x)) (te_KeyAddress T (Prv s)) \<noteq> Inr True \<Longrightarrow>
    chain_failure T E s c path ''register'' ''R3''"
| no_key_type: "path \<noteq> [] \<Longrightarrow> parseExtensionEnv T path = (x, a) \<Longrightarrow> extensionIDRegex x \<Longrightarrow>
    er_IsKeyTypeSupported (tc_Registry E (TeeExtensionRegistry s) c) (hex_number (drop 2 x)) (evmTypeBytes T) \<noteq> Inr True \<Longrightarrow>
    chain_failure T E s c path ''register'' ''R4''"

text \<open>The checks without the chain. No check of the step \<open>tee-machine\<close> can fail.\<close>

inductive local_failure :: "'k tool_env \<Rightarrow> string \<Rightarrow> string \<Rightarrow> string \<Rightarrow> bool" for T path where
  services_id: "path \<noteq> [] \<Longrightarrow> \<not> extensionIDRegex (fst (parseExtensionEnv T path)) \<Longrightarrow> local_failure T path ''services'' ''S2''"
| version_id: "path \<noteq> [] \<Longrightarrow> \<not> extensionIDRegex (fst (parseExtensionEnv T path)) \<Longrightarrow>
    fst (parseExtensionEnv T path) \<noteq> [] \<or> \<not> te_NotExist T path \<Longrightarrow> local_failure T path ''tee-version'' ''V4''"
| test_sender: "path \<noteq> [] \<Longrightarrow> \<not> addressRegex (snd (parseExtensionEnv T path)) \<Longrightarrow> \<not> te_NotExist T path \<Longrightarrow>
    local_failure T path ''test'' ''E1''"

lemmas failure_simps = chain_failure.simps local_failure.simps

lemma fails_deploy: "fails i (Results (RegisterDeployChecks T (Some (tc_Client E c)) (Some (Prv s))
      [(l, FlareTeeManager (SupportAddresses s))] [(l, FlareTeeManager (SupportAddresses s))] path r))
    \<longleftrightarrow> fails i (Results r) \<or> chain_failure T E s c path ''deploy'' i"
  (is "?lhs \<longleftrightarrow> _")
proof -
  let ?a = "FlareTeeManager (SupportAddresses s)" and ?c = "tc_Client E c"
  have addr: "fails i (address_results T [(l, ?a)]) \<longleftrightarrow> i = ''D3'' \<and> ?a = 0"
    by (auto simp: address_results_def AddressNotZero_def)
  have code: "fails i (code_results T (Some ?c) (zeroAddrs T [(l, ?a)]) [(l, ?a)]) \<longleftrightarrow> i = ''D1'' \<and> ?a \<noteq> 0 \<and> \<not> has_code ?c ?a"
    using AddressHasCode_iff [of T ?c ?a l]
    by (auto simp: code_results_def zeroAddrs_def AddressNotZero_def split: option.splits)
  have src: "\<not> fails i [CheckDeployerKeySource T]"
    using key_source_ok [of T] by simp
  have funds: "fails i (funds_results T (Some ?c) (Some (Prv s))) \<longleftrightarrow> i = ''D5'' \<and> \<not> funded ?c (te_KeyAddress T (Prv s)) MinDeployBalance"
    using KeyHasFunds_iff [of T ?c "Prv s" MinDeployBalance] by (auto simp: funds_results_def split: option.splits)
  have cid: "fails i [checkChainID ?c] \<longleftrightarrow> i = ''D6'' \<and> isl (ec_ChainID ?c)"
    by (auto simp: checkChainID_def split: sum.split)
  have res: "ID (env_result T key regex v) = ''D7''" for key regex v
    by (simp add: env_result_def Let_def split: option.split)
  have env: "fails i (CheckExtensionEnvFormat T path) \<longleftrightarrow> i = ''D7'' \<and> (\<exists>f. te_Open T path = Some f \<and> \<not> env_file_ok f)"
    by (auto simp: CheckExtensionEnvFormat_def Let_def env_vars_file res env_result_fails env_file_ok_def split: option.split)
  show ?thesis
    unfolding RegisterDeployChecks_def Results_Adds fails_simps(3) addr code src funds option.case cid
    by (cases "path = []") (auto simp: chain_failure.simps env key_source_ok)
qed

lemma fails_register: "fails i (Results (RegisterRegistrationChecks T (Some (tc_Client E c)) (Some (Prv s))
      (Some (tc_Registry E (TeeExtensionRegistry s) c)) (Some (tc_Allowlist E (TeeOwnerAllowlist s) c)) path r))
    \<longleftrightarrow> fails i (Results r) \<or> chain_failure T E s c path ''register'' i"
proof -
  let ?g = "tc_Registry E (TeeExtensionRegistry s) c" and ?al = "tc_Allowlist E (TeeOwnerAllowlist s) c"
    and ?c = "tc_Client E c"
  obtain x a where xa: "parseExtensionEnv T path = (x, a)" by fastforce
  let ?n = "hex_number (drop 2 x)"
  have counter: "fails i (counter_results (Some q)) \<longleftrightarrow> i = ''R1'' \<and> isl q" for q
    by (auto simp: counter_results_def split: sum.split)
  have sender: "fails i (sender_results T (Some ?g) (Some ?c) ?n a) \<longleftrightarrow>
      i = ''R2'' \<and> addressRegex a \<and> er_InstructionsSender ?g ?n \<noteq> Inr (te_HexToAddress T a)"
    by (auto simp: sender_results_def split: sum.split)
  have owner: "fails i (owner_results T (Some ?al) (Some ?c) (Some (Prv s)) ?n) \<longleftrightarrow>
      i = ''R3'' \<and> al_IsAllowedTeeMachineOwner ?al ?n (te_KeyAddress T (Prv s)) \<noteq> Inr True"
    by (auto simp: owner_results_def split: sum.split)
  have kt: "fails i (keytype_results T (Some ?g) (Some ?c) ?n) \<longleftrightarrow>
      i = ''R4'' \<and> er_IsKeyTypeSupported ?g ?n (evmTypeBytes T) \<noteq> Inr True"
    by (auto simp: keytype_results_def split: sum.split)
  have uniq: "\<not> fails i (unique_results T (Some ?g) (Some ?c) q a)" for q
    by (simp add: unique_results_def Let_def split: option.split)
  have nonempty: "extensionIDRegex x \<Longrightarrow> x \<noteq> []" by auto
  show ?thesis
  proof (cases "path = [] \<or> x = [] \<and> a = []")
    case True
    then show ?thesis
      by (auto simp: RegisterRegistrationChecks_def registration_results_def xa register_skip_def chain_failure.simps)
  next
    case False
    then have "fails i (registration_results T (Some ?c) (Some (Prv s)) (Some ?g) (Some ?al) path) \<longleftrightarrow>
        i = ''R1'' \<and> isl (er_ExtensionsCounter ?g)
        \<or> (if \<not> extensionIDRegex x then i = ''R2''
           else i = ''R2'' \<and> addressRegex a \<and> er_InstructionsSender ?g ?n \<noteq> Inr (te_HexToAddress T a)
             \<or> i = ''R3'' \<and> al_IsAllowedTeeMachineOwner ?al ?n (te_KeyAddress T (Prv s)) \<noteq> Inr True
             \<or> i = ''R4'' \<and> er_IsKeyTypeSupported ?g ?n (evmTypeBytes T) \<noteq> Inr True)"
      by (auto simp: registration_results_def xa query_counter_def Let_def counter sender owner kt uniq)
    then show ?thesis
      using False nonempty by (auto simp: RegisterRegistrationChecks_def chain_failure.simps xa)
  qed
qed

lemma fails_local:
  "fails i (Results (RegisterServicesChecks T path r)) \<longleftrightarrow> fails i (Results r) \<or> local_failure T path ''services'' i"
  "fails i (Results (RegisterTeeVersionChecks T path r)) \<longleftrightarrow> fails i (Results r) \<or> local_failure T path ''tee-version'' i"
  "fails i (Results (RegisterTeeMachineChecks T path r)) \<longleftrightarrow> fails i (Results r) \<or> local_failure T path ''tee-machine'' i"
  "fails i (Results (RegisterTestChecks T path r)) \<longleftrightarrow> fails i (Results r) \<or> local_failure T path ''test'' i"
proof -
  have pr: "ResultStatus (proxy_result T a b c d e f g h) \<noteq> FAIL" for a b c d e f g h by (simp add: proxy_result_def)
  show "fails i (Results (RegisterServicesChecks T path r)) \<longleftrightarrow> fails i (Results r) \<or> local_failure T path ''services'' i"
    by (auto simp: RegisterServicesChecks_def S2_result_def S5_result_def S7_result_def S9_result_def S10_result_def
        pr local_failure.simps Let_def)
  show "fails i (Results (RegisterTeeVersionChecks T path r)) \<longleftrightarrow> fails i (Results r) \<or> local_failure T path ''tee-version'' i"
    by (auto simp: RegisterTeeVersionChecks_def V2_result_def V4_result_def V6_result_def pr local_failure.simps Let_def)
  show "fails i (Results (RegisterTeeMachineChecks T path r)) \<longleftrightarrow> fails i (Results r) \<or> local_failure T path ''tee-machine'' i"
    by (auto simp: RegisterTeeMachineChecks_def T1_result_def T5_result_def T10_result_def pr local_failure.simps Let_def)
  show "fails i (Results (RegisterTestChecks T path r)) \<longleftrightarrow> fails i (Results r) \<or> local_failure T path ''test'' i"
    by (auto simp: RegisterTestChecks_def E1_result_def E3_result_def E6_result_def pr local_failure.simps Let_def)
qed

text \<open>A check is asked for: its ID is an entry of the comma-separated list, blanks aside, or the
  list is empty.\<close>

definition asked :: "string \<Rightarrow> string \<Rightarrow> bool" where
  "asked checks i \<longleftrightarrow> checks = [] \<or> i \<noteq> [] \<and> (\<exists>t \<in> set (str_split (CHR '','') checks). TrimSpace t = i)"

lemma exit_zero: "HasFailures (filter_checks f r) \<longleftrightarrow> (\<exists>i. fails i (Results r) \<and> asked f i)"
proof -
  have "HasFailures (filter_checks f r) \<longleftrightarrow> (\<exists>res \<in> set (Results r). ResultStatus res = FAIL \<and> asked f (ID res))"
    by (force simp: HasFailures_def has_failures_iff image_iff filter_checks_def allowed_ids_def asked_def)
  then show ?thesis unfolding fails_def by blast
qed

text \<open>What each step reports.\<close>

lemma fails_chain_checks:
  assumes "step \<in> {''deploy'', ''register'', ''all''}"
  shows "fails i (Results (chain_checks T E s c step path \<lparr>Results = []\<rparr>)) \<longleftrightarrow>
    (\<exists>st. (step = st \<or> step = ''all'') \<and> (chain_failure T E s c path st i \<or> local_failure T path st i))"
proof -
  have only: "\<not> local_failure T path ''deploy'' i" "\<not> local_failure T path ''register'' i"
    by (auto simp: local_failure.simps)
  have steps: "chain_failure T E s c path st i \<Longrightarrow> st \<in> {''deploy'', ''register''}"
      "local_failure T path st i \<Longrightarrow> st \<in> {''services'', ''tee-version'', ''tee-machine'', ''test''}" for st
    by (auto simp: failure_simps)
  have none: "\<not> chain_failure T E s c path ''all'' i" "\<not> local_failure T path ''all'' i"
    by (auto simp: failure_simps)
  from assms consider "step = ''deploy''" | "step = ''register''" | "step = ''all''" by auto
  then show ?thesis
  proof cases
    case 3
    have "(\<exists>st. chain_failure T E s c path st i \<or> local_failure T path st i) \<longleftrightarrow>
        chain_failure T E s c path ''deploy'' i \<or> chain_failure T E s c path ''register'' i \<or> local_failure T path ''services'' i
        \<or> local_failure T path ''tee-version'' i \<or> local_failure T path ''tee-machine'' i \<or> local_failure T path ''test'' i"
      using steps by blast
    then show ?thesis
      using 3 by (simp add: chain_checks_def Let_def fails_deploy fails_register fails_local)
  qed (simp_all add: chain_checks_def Let_def fails_deploy fails_register only)
qed

text \<open>C39. When \<open>verify-deploy\<close> exits with status 0, in terms of the deployment: a step without the
  chain passes iff no check of it that was asked for fails; a step that needs the chain passes iff
  the set-up succeeds (address file, node, key, chain id) and no asked-for check of the step, or of
  any step for \<open>all\<close>, fails: the manager's address is set and has code, the deployer is funded,
  the chain tells its id, \<open>extension.env\<close> is well formed, and the registry's counter, sender, owner
  and key type agree with it. An unknown step and a failed set-up give status 1, as any failure.\<close>

theorem verify_deploy_exit:
  "(fst (fst (verify_deploy T E k fl w)) = 0 \<longleftrightarrow>
     (vf_step fl \<in> {''services'', ''tee-version'', ''tee-machine'', ''test''}
       \<and> (\<forall>i. local_failure T (vf_config fl) (vf_step fl) i \<longrightarrow> \<not> asked (vf_checks fl) i))
   \<or> (vf_step fl \<in> {''deploy'', ''register'', ''all''}
       \<and> (\<exists>s w'. DefaultSupport E (te_Getenv T) k (vf_addresses fl) (vf_chain fl) w = (Inr s, w')
          \<and> (\<forall>step i. (vf_step fl = step \<or> vf_step fl = ''all'')
               \<and> (chain_failure T E s (tw_chain w') (vf_config fl) step i \<or> local_failure T (vf_config fl) step i)
             \<longrightarrow> \<not> asked (vf_checks fl) i))))
   \<and> fst (fst (verify_deploy T E k fl w)) \<in> {0, 1}"
proof -
  have exit: "fst (fst (verify_deploy T E k fl w)) \<in> {0, 1}"
    by (simp add: verify_deploy_def Let_def split: option.split prod.split)
  consider (chain) "vf_step fl \<in> {''deploy'', ''register'', ''all''}"
    | (local) "vf_step fl \<in> {''services'', ''tee-version'', ''tee-machine'', ''test''}"
    | (unknown) "vf_step fl \<notin> {''deploy'', ''register'', ''all'', ''services'', ''tee-version'', ''tee-machine'', ''test''}"
    by blast
  then show ?thesis
  proof cases
    case unknown
    then show ?thesis by (simp add: verify_deploy_def step_checks_def Let_def)
  next
    case local
    then have "fst (fst (verify_deploy T E k fl w)) = 0 \<longleftrightarrow>
        (\<forall>i. local_failure T (vf_config fl) (vf_step fl) i \<longrightarrow> \<not> asked (vf_checks fl) i)"
      by (auto simp: verify_deploy_def step_checks_def Let_def exit_zero fails_local)
    with local exit show ?thesis by auto
  next
    case chain
    obtain q w' where q: "DefaultSupport E (te_Getenv T) k (vf_addresses fl) (vf_chain fl) w = (q, w')" by fastforce
    have run: "step_checks T E k fl w = (case q of Inl _ \<Rightarrow> (None, w')
        | Inr s \<Rightarrow> (Some (chain_checks T E s (tw_chain w') (vf_step fl) (vf_config fl) \<lparr>Results = []\<rparr>), w'))"
      using chain by (auto simp: step_checks_def q Let_def split: sum.split)
    show ?thesis
    proof (cases q)
      case (Inl err)
      then show ?thesis using q chain run by (auto simp: verify_deploy_def)
    next
      case (Inr s)
      have "fst (fst (verify_deploy T E k fl w)) = 0 \<longleftrightarrow>
          \<not> (\<exists>i. fails i (Results (chain_checks T E s (tw_chain w') (vf_step fl) (vf_config fl) \<lparr>Results = []\<rparr>)) \<and> asked (vf_checks fl) i)"
        by (simp add: verify_deploy_def run Inr Let_def exit_zero)
      then show ?thesis
        using q Inr chain exit unfolding fails_chain_checks [OF chain] by auto
    qed
  qed
qed

text \<open>In the demo world everything passes; without the address file the set-up fails.\<close>

theorem verify_deploy_exit_witness:
  "fst (fst (verify_deploy demo_env demo_tools () (default_flags\<lparr>vf_addresses := ''a'', vf_chain := ''u''\<rparr>) demo_files)) = 0
    \<and> fst (fst (verify_deploy demo_env demo_tools () (default_flags\<lparr>vf_addresses := ''b'', vf_chain := ''u''\<rparr>) demo_files)) = 1"
proof -
  have "\<not> chain_failure demo_env demo_tools demo_deployer c [] st i" "\<not> local_failure demo_env [] st i" for c st i
    by (auto simp: failure_simps demo_deployer_def demo_tools_def has_code_def funded_def MinDeployBalance_def)
  then have "fst (fst (verify_deploy demo_env demo_tools () (default_flags\<lparr>vf_addresses := ''a'', vf_chain := ''u''\<rparr>) demo_files)) = 0"
    using demo_default by (simp add: verify_deploy_exit default_flags_def)
  moreover have gone: "isl (fst (DefaultSupport demo_tools (te_Getenv demo_env) () ''b'' ''u'' demo_files))" by code_simp
  then obtain err w' where "DefaultSupport demo_tools (te_Getenv demo_env) () ''b'' ''u'' demo_files = (Inl err, w')"
    using gone by (metis isl_def prod.collapse)
  then have "fst (fst (verify_deploy demo_env demo_tools () (default_flags\<lparr>vf_addresses := ''b'', vf_chain := ''u''\<rparr>) demo_files)) = 1"
    using verify_deploy_exit [of demo_env demo_tools "()" "default_flags\<lparr>vf_addresses := ''b'', vf_chain := ''u''\<rparr>" demo_files]
    by (auto simp: default_flags_def)
  ultimately show ?thesis ..
qed

end
