(* ===== verification/Tee_Polling.thy ===== *)
theory Tee_Polling
  imports Tools_Demo
begin

text \<open>
  The polling of \<open>ActionResult\<close> in \<open>tools/pkg/fccutils/tee_calls.go\<close>: how often the proxy is asked
  and which answer is used.
\<close>

text \<open>One round: a request and the pause after it.\<close>

definition poll_round :: "('k, 'c) tools_chain \<Rightarrow> string \<Rightarrow> 'c \<Rightarrow> 'c" where
  "poll_round E url c = tc_Sleep E (2 * second_ns) (snd (tc_HttpGet E url c))"

definition poll_ask :: "('k, 'c) tools_chain \<Rightarrow> string \<Rightarrow> 'c \<Rightarrow> nat \<Rightarrow> (go_error + (int \<times> bytes)) \<times> 'c" where
  "poll_ask E url c k = tc_HttpGet E url ((poll_round E url ^^ k) c)"

definition decoded_answer :: "tee_lib \<Rightarrow> bytes \<Rightarrow> go_error + action_result" where
  "decoded_answer L body = (case tl_DecodeActionResponse L body of Inl m \<Rightarrow> Inl (Errorf m) | Inr a \<Rightarrow> Inr a)"

lemma poll_ask_Suc: "poll_ask E url c (Suc k) = poll_ask E url (poll_round E url c) k"
  by (simp add: poll_ask_def funpow_swap1)

lemma poll_ask_Suc_round:
  "poll_ask E url c (Suc k) = poll_ask E url (tc_Sleep E (2 * second_ns) (snd (poll_ask E url c 0))) k"
  unfolding poll_ask_Suc by (simp add: poll_round_def poll_ask_def)

lemma reworded_Errorf: "reworded [] (Errorf m) = Errorf m"
  by (simp add: reworded_def Errorf_def)

lemma poll_action_hit:
  assumes "k < n" and "answer_ok (fst (poll_ask E url (tw_chain w) k))"
    and "\<And>j. j < k \<Longrightarrow> \<not> answer_ok (fst (poll_ask E url (tw_chain w) j))"
  shows "poll_action E url n r w = (fst (poll_ask E url (tw_chain w) k), w\<lparr>tw_chain := snd (poll_ask E url (tw_chain w) k)\<rparr>)"
  using assms
proof (induction n arbitrary: k r w)
  case (Suc n)
  let ?c = "tw_chain w"
  have step: "on_chain (tc_HttpGet E url) w = (fst (poll_ask E url ?c 0), w\<lparr>tw_chain := snd (poll_ask E url ?c 0)\<rparr>)"
    by (simp add: on_chain_def poll_ask_def split: prod.split)
  show ?case
  proof (cases k)
    case 0
    then show ?thesis using Suc.prems(2) by (simp add: step)
  next
    case (Suc k')
    let ?w = "tool_Sleep E (2 * second_ns) (w\<lparr>tw_chain := snd (poll_ask E url ?c 0)\<rparr>)"
    have c: "tw_chain ?w = poll_round E url ?c"
      by (simp add: tool_Sleep_def poll_round_def poll_ask_def)
    have "\<not> answer_ok (fst (poll_ask E url ?c 0))" using Suc Suc.prems(3) by simp
    moreover have "poll_action E url n (fst (poll_ask E url ?c 0)) ?w
        = (fst (poll_ask E url (tw_chain ?w) k'), ?w\<lparr>tw_chain := snd (poll_ask E url (tw_chain ?w) k')\<rparr>)"
      using Suc.prems Suc by (intro Suc.IH) (auto simp: c poll_ask_Suc [symmetric])
    ultimately show ?thesis using Suc by (simp add: step poll_ask_Suc_round tool_Sleep_def)
  qed
qed simp

lemma poll_action_miss:
  assumes "\<And>j. j < n \<Longrightarrow> \<not> answer_ok (fst (poll_ask E url (tw_chain w) j))" and "\<not> answer_ok r"
  shows "\<exists>r'. \<not> answer_ok r' \<and> poll_action E url n r w = (r', w\<lparr>tw_chain := (poll_round E url ^^ n) (tw_chain w)\<rparr>)"
  using assms
proof (induction n arbitrary: r w)
  case (Suc n)
  let ?c = "tw_chain w"
  let ?w = "tool_Sleep E (2 * second_ns) (w\<lparr>tw_chain := snd (poll_ask E url ?c 0)\<rparr>)"
  have c: "tw_chain ?w = poll_round E url ?c" "?w\<lparr>tw_chain := d\<rparr> = w\<lparr>tw_chain := d\<rparr>" for d
    by (simp_all add: tool_Sleep_def poll_round_def poll_ask_def)
  have no: "\<not> answer_ok (fst (poll_ask E url ?c 0))" using Suc.prems(1) by simp
  moreover have "\<exists>r'. \<not> answer_ok r' \<and> poll_action E url n (fst (poll_ask E url ?c 0)) ?w
      = (r', ?w\<lparr>tw_chain := (poll_round E url ^^ n) (tw_chain ?w)\<rparr>)"
    using Suc.prems(1) no by (intro Suc.IH) (auto simp: c poll_ask_Suc [symmetric])
  moreover have "on_chain (tc_HttpGet E url) w = (fst (poll_ask E url ?c 0), w\<lparr>tw_chain := snd (poll_ask E url ?c 0)\<rparr>)"
    by (simp add: on_chain_def poll_ask_def split: prod.split)
  ultimately show ?case by (simp add: c funpow_swap1)
qed simp

text \<open>C37. The proxy is asked at most 15 times, with a pause after every answer that is not used. The first
  answer with status 200 is the one that is decoded, and nothing is asked after it; when none of
  the 15 has status 200 the call fails, whatever the last error or status was.\<close>

theorem action_result_polls:
  "(\<forall>k < 15. answer_ok (fst (poll_ask E (action_url E nodeURL i) (tw_chain w) k)) \<and> (\<forall>j < k. \<not> answer_ok (fst (poll_ask E (action_url E nodeURL i) (tw_chain w) j))) \<longrightarrow>
      (\<exists>status body. fst (poll_ask E (action_url E nodeURL i) (tw_chain w) k) = Inr (status, body) \<and> ActionResult_call E L nodeURL i w =
        (decoded_answer L body, w\<lparr>tw_chain := snd (poll_ask E (action_url E nodeURL i) (tw_chain w) k)\<rparr>)))
    \<and> ((\<forall>k < 15. \<not> answer_ok (fst (poll_ask E (action_url E nodeURL i) (tw_chain w) k))) \<longrightarrow> (\<exists>err. ActionResult_call E L nodeURL i w =
        (Inl err, w\<lparr>tw_chain := (poll_round E (action_url E nodeURL i) ^^ 15) (tw_chain w)\<rparr>)))"
proof (intro conjI allI impI)
  let ?ask = "poll_ask E (action_url E nodeURL i) (tw_chain w)"
  fix k :: nat
  assume "k < 15" and hit: "answer_ok (fst (?ask k)) \<and> (\<forall>j < k. \<not> answer_ok (fst (?ask j)))"
  then have poll: "poll_action E (action_url E nodeURL i) repeats (Inl (Errorf [])) w = (fst (?ask k), w\<lparr>tw_chain := snd (?ask k)\<rparr>)"
    by (intro poll_action_hit) (auto simp: repeats_def)
  obtain status body where a: "fst (?ask k) = Inr (status, body)" "status = StatusOK_int"
    using hit by (auto simp: answer_ok_def split: sum.splits)
  have "ActionResult_call E L nodeURL i w = (decoded_answer L body, w\<lparr>tw_chain := snd (?ask k)\<rparr>)"
    by (auto simp: ActionResult_call_def attempt_def poll a lib_value_def tool_value_def tool_return_def
        decoded_answer_def reworded_Errorf split: sum.split)
  with a show "\<exists>status body. fst (?ask k) = Inr (status, body) \<and> ActionResult_call E L nodeURL i w =
        (decoded_answer L body, w\<lparr>tw_chain := snd (?ask k)\<rparr>)" by blast
next
  let ?ask = "poll_ask E (action_url E nodeURL i) (tw_chain w)"
  assume "\<forall>k < 15. \<not> answer_ok (fst (?ask k))"
  then obtain r where "\<not> answer_ok r" "poll_action E (action_url E nodeURL i) repeats (Inl (Errorf [])) w
      = (r, w\<lparr>tw_chain := (poll_round E (action_url E nodeURL i) ^^ 15) (tw_chain w)\<rparr>)"
    using poll_action_miss [of 15 E "action_url E nodeURL i" w "Inl (Errorf [])"]
    by (auto simp: repeats_def answer_ok_def)
  then show "\<exists>err. ActionResult_call E L nodeURL i w =
        (Inl err, w\<lparr>tw_chain := (poll_round E (action_url E nodeURL i) ^^ 15) (tw_chain w)\<rparr>)"
    by (cases r) (auto simp: ActionResult_call_def attempt_def tool_fail_def answer_ok_def)
qed

theorem action_result_polls_witness:
  "ActionResult_call demo_tools demo_lib ''u'' 3 demo_world
    = (Inr \<lparr>ar_Status = 1, ar_Log = [], ar_Data = ''body''\<rparr>, demo_world)"
proof -
  let ?ask = "poll_ask demo_tools (action_url demo_tools ''u'' 3) (tw_chain demo_world)"
  have ask: "?ask 0 = (Inr (200, ''body''), 0)"
    by (simp add: poll_ask_def demo_tools_def demo_world_def)
  then have "answer_ok (fst (?ask 0))" by (simp add: answer_ok_def StatusOK_int_def)
  then show ?thesis
    using action_result_polls [THEN conjunct1, rule_format, of 0 demo_tools "''u''" 3 demo_world demo_lib] ask
    by (simp add: decoded_answer_def demo_lib_def demo_world_def)
qed

end
