(* ===== verification/Json_Compact.thy ===== *)
theory Json_Compact
  imports Go_Fmt Decoder_Registry
begin

text \<open>
  The compact output of \<open>encoding/json\<close>: objects without white space, numbers, and byte slices in
  base64. A text that ends in a number needs to know what follows it, so a text is here followed
  by a comma or a closing brace.
\<close>

definition json_object :: "(bytes \<times> bytes) list \<Rightarrow> bytes" where
  "json_object kvs = CHR ''{'' # str_join '','' (map (\<lambda>(k, v). json_field k v) kvs) @ ''}''"

definition json_array :: "bytes list \<Rightarrow> bytes" where
  "json_array vs = CHR ''['' # str_join '','' vs @ '']''"

definition b64_char :: "nat \<Rightarrow> char" where
  "b64_char n = ''ABCDEFGHIJKLMNOPQRSTUVWXYZabcdefghijklmnopqrstuvwxyz0123456789+/'' ! n"

fun base64 :: "bytes \<Rightarrow> bytes" where
  "base64 (a # b # c # s) = (let v = code a * 65536 + code b * 256 + code c in
     [b64_char (v div 262144), b64_char (v div 4096 mod 64), b64_char (v div 64 mod 64), b64_char (v mod 64)] @ base64 s)"
| "base64 [a, b] = (let v = code a * 65536 + code b * 256 in
     [b64_char (v div 262144), b64_char (v div 4096 mod 64), b64_char (v div 64 mod 64), CHR ''=''])"
| "base64 [a] = (let v = code a * 65536 in [b64_char (v div 262144), b64_char (v div 4096 mod 64), CHR ''='', CHR ''=''])"
| "base64 [] = []"

section \<open>Reading it back\<close>

definition member_of :: "nat \<Rightarrow> bytes \<Rightarrow> json \<Rightarrow> bool" where
  "member_of k t j \<longleftrightarrow> (\<forall>n r c. k \<le> n \<longrightarrow> c \<in> {CHR '','', CHR ''}''} \<longrightarrow> parse_value n (t @ c # r) = Some (j, c # r))"

lemma member_of_text: "text_of k t j \<Longrightarrow> member_of k t j"
  by (simp add: text_of_def member_of_def)

lemma member_of_number: "member_of 1 (format_nat v) (JNum (format_nat v))"
  unfolding member_of_def
proof (intro allI impI)
  fix n r c
  assume "(1::nat) \<le> n" and c: "c \<in> {CHR '','', CHR ''}''}"
  then obtain m where n: "n = Suc m" by (cases n) auto
  obtain d ds where s: "format_nat v = d # ds" by (cases "format_nat v") auto
  have digits: "list_all is_digit (d # ds)" using format_nat_digits [of v] s by simp
  then have d: "is_digit d" by simp
  have c': "\<not> is_digit c" using c by (auto simp: is_digit_def code_def)
  have zero: "ds = []" if "d = CHR ''0''"
    using that format_nat_head [of v] s by (cases "v = 0") (auto simp: format_nat.simps [of 0])
  have "digit_span (d # ds @ c # r) = (d # ds, c # r)"
    using digit_span_digits [OF digits c'] by simp
  then have "scan_number (d # ds @ c # r) = Some (d # ds, c # r)"
    using is_digit_neq [OF d] c zero by (auto simp: scan_number_def scan_frac_def scan_exp_def)
  then show "parse_value n (format_nat v @ c # r) = Some (JNum (format_nat v), c # r)"
    using is_digit_neq [OF d] by (simp add: n s parse_value.simps is_space_def)
qed

lemma parse_compact_members:
  assumes "kvs \<noteq> []" and "list_all (\<lambda>((k, v), j). list_all plain k \<and> member_of m v j) (zip kvs js)"
    and "length js = length kvs" and "m + length kvs \<le> n"
  shows "parse_members n first (str_join '','' (map (\<lambda>(k, v). json_field k v) kvs) @ CHR ''}'' # r)
    = Some (zip (map fst kvs) js, r)"
  using assms
proof (induction kvs arbitrary: n js first)
  case (Cons kv kvs)
  obtain k v where kv: "kv = (k, v)" by (cases kv)
  from Cons.prems(3) obtain j js' where js: "js = j # js'" by (cases js) auto
  from Cons.prems(4) obtain n' where n: "n = Suc n'" "m + length kvs \<le> n'" by (cases n) auto
  have k: "list_all plain k" "member_of m v j" using Cons.prems(2) by (simp_all add: kv js)
  have val: "parse_value n' (v @ c # q) = Some (j, c # q)" if "c \<in> {CHR '','', CHR ''}''}" for c q
    using k(2) [unfolded member_of_def, rule_format, of n' c q] n(2) that by simp
  show ?case
  proof (cases kvs)
    case Nil
    then show ?thesis using Cons.prems(3) val
      by (simp add: js kv n parse_member_field [OF k(1)])
  next
    case (Cons kv' kvs')
    let ?q = "str_join '','' (map (\<lambda>(k, v). json_field k v) kvs) @ CHR ''}'' # r"
    have "parse_members n' False ?q = Some (zip (map fst kvs) js', r)"
      using Cons Cons.prems Cons.IH [of js' n' False] n by (simp add: js kv)
    moreover have "str_join '','' (map (\<lambda>(k, v). json_field k v) (kv # kvs)) @ CHR ''}'' # r = json_field k v @ CHR '','' # ?q"
      using Cons by (simp add: kv)
    ultimately show ?thesis
      using val by (simp add: js kv n parse_member_field [OF k(1)])
  qed
qed simp

lemma text_of_compact:
  assumes "kvs \<noteq> []" and "list_all (\<lambda>((k, v), j). list_all plain k \<and> member_of m v j) (zip kvs js)"
    and "length js = length kvs"
  shows "text_of (m + length kvs + 1) (json_object kvs) (JObj (zip (map fst kvs) js))"
  unfolding text_of_def
proof (intro allI impI)
  fix n r
  assume "m + length kvs + 1 \<le> n"
  then obtain n' where n: "n = Suc n'" "m + length kvs \<le> n'" by (cases n) auto
  from parse_compact_members [OF assms n(2), of True r]
  show "parse_value n (json_object kvs @ r) = Some (JObj (zip (map fst kvs) js), r)"
    by (simp add: n json_object_def parse_value.simps is_space_def)
qed

lemma whole_object:
  assumes "kvs \<noteq> []" and "list_all (\<lambda>((k, v), j). list_all plain k \<and> member_of m v j) (zip kvs js)"
    and "length js = length kvs"
  shows "json_whole (json_object kvs) = Some (JObj (zip (map fst kvs) js))"
    and "json_whole (json_object kvs @ nl) = Some (JObj (zip (map fst kvs) js))"
    and "parse_value (json_fuel (json_object kvs)) (json_object kvs) = Some (JObj (zip (map fst kvs) js), [])"
  using text_of_parse [OF text_of_compact [OF assms], of nl] text_of_parse [OF text_of_compact [OF assms], of "[]"]
  by (simp_all add: json_whole_def skip_ws_def nl_def is_space_def)

lemma parse_compact_elems:
  assumes "vs \<noteq> []" and "list_all2 (text_of m) vs js" and "m + length vs \<le> n" and "list_all value_start vs"
  shows "parse_elems n first (str_join '','' vs @ CHR '']'' # r) = Some (js, r)"
  using assms
proof (induction vs arbitrary: n js first)
  case (Cons v vs)
  from Cons.prems(2) obtain j js' where js: "js = j # js'" "text_of m v j" "list_all2 (text_of m) vs js'"
    by (auto simp: list_all2_Cons1)
  from Cons.prems(3) obtain n' where n: "n = Suc n'" "m \<le> n'" "m + length vs \<le> n'" by (cases n) auto
  have nx: "\<not> next_is (CHR '']'') (v @ q)" for q
    using Cons.prems(4) by (auto simp: next_is_def value_start_def split: list.splits)
  have v: "parse_value n' (v @ q) = Some (j, q)" for q
    using text_ofD [OF js(2) n(2)] .
  show ?case
  proof (cases vs)
    case Nil
    then show ?thesis using v js nx by (simp add: n parse_elems.simps is_space_def)
  next
    case (Cons v' vs')
    have "parse_elems n' False (str_join '','' vs @ CHR '']'' # r) = Some (js', r)"
      using Cons Cons.prems Cons.IH [of js' n' False] n js by simp
    then show ?thesis
      using Cons v nx by (simp add: n parse_elems.simps js is_space_def)
  qed
qed simp

lemma text_of_compact_array:
  assumes "list_all2 (text_of m) vs js" and "list_all value_start vs"
  shows "text_of (m + length vs + 2) (json_array vs) (JArr js)"
  unfolding text_of_def
proof (intro allI impI)
  fix n r
  assume "m + length vs + 2 \<le> n"
  then obtain n' where n: "n = Suc (Suc n')" "m + length vs \<le> Suc n'" by (cases n; cases "n - 1") auto
  show "parse_value n (json_array vs @ r) = Some (JArr js, r)"
  proof (cases "vs = []")
    case True
    then show ?thesis using assms(1)
      by (simp add: n json_array_def parse_value.simps parse_elems.simps next_is_def is_space_def)
  next
    case False
    from parse_compact_elems [OF False assms(1) n(2) assms(2), of True r] show ?thesis
      by (simp add: n json_array_def parse_value.simps is_space_def)
  qed
qed

lemma value_start_compact: "value_start (json_object kvs)" "value_start (json_string s)"
  by (simp_all add: value_start_def json_object_def json_string_def is_space_def)

definition ascii :: "bytes \<Rightarrow> bool" where
  "ascii s \<longleftrightarrow> list_all (\<lambda>c. code c < 128) s"

lemma ascii_string: "ascii s \<Longrightarrow> member_of 1 (json_string s) (JStr s)"
  using text_of_string [of s] by (simp add: ascii_def to_valid_plain member_of_text)

lemma plain_ascii: "list_all plain s \<Longrightarrow> ascii s"
  by (simp add: ascii_def plain_def list_all_iff)

lemma b64_char_plain: "n < 64 \<Longrightarrow> plain (b64_char n)"
proof -
  have "list_all plain ''ABCDEFGHIJKLMNOPQRSTUVWXYZabcdefghijklmnopqrstuvwxyz0123456789+/''"
    by (simp add: plain_def code_def)
  then show "n < 64 \<Longrightarrow> ?thesis" unfolding b64_char_def by (simp add: list_all_length)
qed

lemma base64_plain: "list_all plain (base64 s)"
proof -
  have c: "code x < 256" for x by (simp add: code_def)
  have "code a * 65536 + code b * 256 + code d < 64 * 262144" for a b d
    using c [of a] c [of b] c [of d] by linarith
  moreover have "code a * 65536 + code b * 256 < 64 * 262144" "code a * 65536 < 64 * 262144" for a b
    using c [of a] c [of b] by linarith+
  ultimately have top: "(code a * 65536 + code b * 256 + code d) div 262144 < 64"
    "(code a * 65536 + code b * 256) div 262144 < 64" "code a * 65536 div 262144 < 64" for a b d
    by (blast intro: less_mult_imp_div_less)+
  have eq: "plain (CHR ''='')" by (simp add: plain_def code_def)
  have mods: "v mod 64 < (64::nat)" for v by simp
  show ?thesis
  proof (induction s rule: base64.induct)
    case (1 a b c s)
    show ?case unfolding base64.simps Let_def
      by (simp only: list_all_append list.pred_inject b64_char_plain top mods 1 simp_thms)
  qed (simp_all only: base64.simps Let_def list.pred_inject b64_char_plain top mods eq simp_thms)
qed

end
