(* ===== verification/Types_Client.thy ===== *)
theory Types_Client
  imports Types_Server Json_Compact
begin

text \<open>
  What the types server writes (\<open>writeJSON\<close> of \<open>internal/typesserver/server.go\<close>), and its test
  client, the command \<open>tools/cmd/test-types-server/main.go\<close>. The client's HTTP post and the
  conversion of a JSON number to a float64 are arguments; logging is left out.
\<close>

section \<open>The response body\<close>

definition decoded_text :: "decoded \<Rightarrow> bytes" where
  "decoded_text v = (case v of
     DecodedPlace req \<Rightarrow> json_object [(''orderId'', format_int (PlaceOrderID req)),
       (''ciphertext'', quoted (base64 (Ciphertext req)))]
   | DecodedCancel req \<Rightarrow> json_object [(''orderId'', format_int (CancelOrderID req))]
   | DecodedResponse r \<Rightarrow> json_object [(''orderId'', json_string (ResponseOrderID r)),
       (''status'', json_string (ResponseStatus r))])"

definition key_text :: "RegistryKey \<Rightarrow> bytes" where
  "key_text k = json_object [(''opType'', json_string (OPType k)), (''opCommand'', json_string (OPCommand k)),
     (''kind'', json_string (kind_text (Kind k)))]"

text \<open>\<open>Encode\<close> ends the text with a newline.\<close>

definition writeJSON :: "response_body \<Rightarrow> bytes" where
  "writeJSON b = (case b of
     DecodedBody v \<Rightarrow> json_object [(''decoded'', decoded_text v)]
   | ErrorBody m \<Rightarrow> json_object [(''error'', json_string m)]
   | RegistryBody ks \<Rightarrow> CHR ''['' # str_join '','' (map key_text ks) @ '']''
   | HealthBody s v \<Rightarrow> json_object [(''status'', json_string s), (''version'', json_string v)]) @ nl"

text \<open>The server's answer to one request: status and body. The texts of an unknown path or method are
  those of \<open>net/http\<close>.\<close>

definition ServeHTTP :: "(string \<Rightarrow> string + bytes) \<Rightarrow> types_server \<Rightarrow> string \<Rightarrow> string \<Rightarrow> bytes
    \<Rightarrow> nat \<times> bytes" where
  "ServeHTTP hexutil_Decode s meth path body = (case mux_Handler (srv_mux s) meth path of
     Inl status \<Rightarrow> (status, (if status = StatusNotFound then ''404 page not found''
       else ''Method Not Allowed'') @ nl)
   | Inr h \<Rightarrow> (case serve_handler hexutil_Decode s h body of (status, b) \<Rightarrow> (status, writeJSON b)))"

section \<open>The client\<close>

type_synonym http_post = "string \<Rightarrow> bytes \<Rightarrow> string + (nat \<times> bytes)"

text \<open>A number in a value of type \<open>any\<close> must convert to a float64.\<close>

fun floats_ok :: "(bytes \<Rightarrow> 'f option) \<Rightarrow> json \<Rightarrow> bool" where
  "floats_ok pf (JNum n) = (pf n \<noteq> None)"
| "floats_ok pf (JArr vs) = list_all (floats_ok pf) vs"
| "floats_ok pf (JObj kvs) = list_all (\<lambda>p. floats_ok pf (snd p)) kvs"
| "floats_ok pf _ = True"

text \<open>Decoding into a \<open>map[string]any\<close>: null clears it, an object adds its members.\<close>

fun decode_map :: "(bytes \<Rightarrow> 'f option) \<Rightarrow> json list \<Rightarrow> (bytes, json) gomap \<Rightarrow> (bytes, json) gomap option" where
  "decode_map pf [] m = Some m"
| "decode_map pf (v # vs) m = (case v of
     JNull \<Rightarrow> decode_map pf vs []
   | JObj kvs \<Rightarrow> if floats_ok pf v then decode_map pf vs (fold (\<lambda>(k, x). gm_put k x) kvs m) else None
   | _ \<Rightarrow> None)"

definition read_decoded :: "(bytes \<Rightarrow> 'f option) \<Rightarrow> bytes \<Rightarrow> (bytes, json) gomap option" where
  "read_decoded pf body = (case json_whole body of
     Some (JObj kvs) \<Rightarrow> decode_map pf (map snd (filter (\<lambda>(k, v). fold_key k = fold_key ''decoded'') kvs)) []
   | Some JNull \<Rightarrow> Some []
   | _ \<Rightarrow> None)"

definition request_text :: "decodeRequest \<Rightarrow> bytes" where
  "request_text req = json_object [(''opType'', json_string (ReqOPType req)), (''opCommand'', json_string (ReqOPCommand req)),
     (''kind'', json_string (ReqKind req)), (''data'', json_string (ReqData req))]"

definition postDecode :: "(bytes \<Rightarrow> 'f option) \<Rightarrow> http_post \<Rightarrow> string \<Rightarrow> decodeRequest
    \<Rightarrow> string + (bytes, json) gomap" where
  "postDecode pf post baseURL req = (case post (baseURL @ ''/decode'') (request_text req) of
     Inl err \<Rightarrow> Inl (''POST /decode: '' @ err)
   | Inr (status, body) \<Rightarrow>
       if status \<noteq> StatusOK then Inl (''expected 200, got '' @ format_nat status @ '': '' @ body)
       else (case read_decoded pf body of
           None \<Rightarrow> Inl ''unmarshal response: cannot unmarshal''
         | Some m \<Rightarrow> Inr m))"

definition expectStatus :: "http_post \<Rightarrow> string \<Rightarrow> decodeRequest \<Rightarrow> nat \<Rightarrow> string option" where
  "expectStatus post baseURL req wantStatus = (case post (baseURL @ ''/decode'') (request_text req) of
     Inl err \<Rightarrow> Some (''POST /decode: '' @ err)
   | Inr (status, body) \<Rightarrow> if status \<noteq> wantStatus
       then Some (''expected status '' @ format_nat wantStatus @ '', got '' @ format_nat status) else None)"

text \<open>\<open>%T\<close> of a value of type \<open>any\<close>.\<close>

definition json_type :: "json \<Rightarrow> string" where
  "json_type v = (case v of JNull \<Rightarrow> ''<nil>'' | JBool _ \<Rightarrow> ''bool'' | JNum _ \<Rightarrow> ''float64'' | JStr _ \<Rightarrow> ''string''
     | JArr _ \<Rightarrow> ''[]interface {}'' | JObj _ \<Rightarrow> ''map[string]interface {}'')"

definition requireField :: "(nat \<Rightarrow> bool) \<Rightarrow> (bytes, json) gomap \<Rightarrow> bytes \<Rightarrow> bytes \<Rightarrow> string option" where
  "requireField isPrint decoded key want = (case gm_get decoded key of
     None \<Rightarrow> Some (''missing field '' @ Quote isPrint key)
   | Some (JStr got) \<Rightarrow> if got \<noteq> want
       then Some (''field '' @ Quote isPrint key @ '': expected '' @ Quote isPrint want @ '', got '' @ Quote isPrint got)
       else None
   | Some v \<Rightarrow> Some (''field '' @ Quote isPrint key @ '': expected string, got '' @ json_type v))"

definition requireFieldFloat :: "(nat \<Rightarrow> bool) \<Rightarrow> (bytes \<Rightarrow> 'f option) \<Rightarrow> ('f \<Rightarrow> string) \<Rightarrow> (bytes, json) gomap \<Rightarrow> bytes
    \<Rightarrow> 'f \<Rightarrow> string option" where
  "requireFieldFloat isPrint pf show_float decoded key want = (case gm_get decoded key of
     None \<Rightarrow> Some (''missing field '' @ Quote isPrint key)
   | Some (JNum n) \<Rightarrow> if pf n \<noteq> Some want
       then Some (''field '' @ Quote isPrint key @ '': expected '' @ show_float want @ '', got ''
         @ (case pf n of Some got \<Rightarrow> show_float got | None \<Rightarrow> []))
       else None
   | Some v \<Rightarrow> Some (''field '' @ Quote isPrint key @ '': expected number, got '' @ json_type v))"

section \<open>The tests\<close>

record 'f client_env =
  cl_abi :: abi_lib
  cl_post :: http_post
  cl_ParseFloat :: "bytes \<Rightarrow> 'f option"
  cl_ShowFloat :: "'f \<Rightarrow> string"
  cl_seven :: 'f
  cl_IsPrint :: "nat \<Rightarrow> bool"

definition hexutil_Encode :: "bytes \<Rightarrow> string" where
  "hexutil_Encode b = ''0x'' @ hex_encode b"

definition order_response_text :: "OrderResponse \<Rightarrow> bytes" where
  "order_response_text r = json_object [(''orderId'', json_string (ResponseOrderID r)),
     (''status'', json_string (ResponseStatus r))]"

definition message_test :: "'f client_env \<Rightarrow> string \<Rightarrow> string \<Rightarrow> string + bytes \<Rightarrow> string option" where
  "message_test C baseURL command packed = (case packed of
     Inl err \<Rightarrow> Some (''ABI encode: '' @ err)
   | Inr encoded \<Rightarrow> (case postDecode (cl_ParseFloat C) (cl_post C) baseURL
         \<lparr>ReqOPType = ''DARKSTOP'', ReqOPCommand = command, ReqKind = ''message'', ReqData = hexutil_Encode encoded\<rparr> of
       Inl err \<Rightarrow> Some err
     | Inr resp \<Rightarrow> requireFieldFloat (cl_IsPrint C) (cl_ParseFloat C) (cl_ShowFloat C) resp ''orderId'' (cl_seven C)))"

definition result_test :: "'f client_env \<Rightarrow> string \<Rightarrow> string \<Rightarrow> string \<Rightarrow> string option" where
  "result_test C baseURL command status =
     (let payload = order_response_text \<lparr>ResponseOrderID = ''7'', ResponseStatus = status\<rparr> in
      case postDecode (cl_ParseFloat C) (cl_post C) baseURL
         \<lparr>ReqOPType = ''DARKSTOP'', ReqOPCommand = command, ReqKind = ''result'', ReqData = hexutil_Encode payload\<rparr> of
        Inl err \<Rightarrow> Some err
      | Inr resp \<Rightarrow> (case requireField (cl_IsPrint C) resp ''orderId'' ''7'' of
          Some err \<Rightarrow> Some err
        | None \<Rightarrow> requireField (cl_IsPrint C) resp ''status'' status))"

definition test_request :: "string \<Rightarrow> string \<Rightarrow> string \<Rightarrow> string \<Rightarrow> decodeRequest" where
  "test_request t c k d = \<lparr>ReqOPType = t, ReqOPCommand = c, ReqKind = k, ReqData = d\<rparr>"

text \<open>Each test with its name; None is a pass.\<close>

definition client_tests :: "'f client_env \<Rightarrow> string \<Rightarrow> (string \<times> string option) list" where
  "client_tests C baseURL =
     [(''PLACE_ORDER message (ABI-encoded)'', message_test C baseURL ''PLACE_ORDER''
        (args_Pack (cl_abi C) PlaceOrderMessageArgs [VBig 7, VBytes [byte 0xde, byte 0xad, byte 0xbe, byte 0xef]])),
      (''PLACE_ORDER result (JSON)'', result_test C baseURL ''PLACE_ORDER'' ''open''),
      (''CANCEL_ORDER message (ABI-encoded)'', message_test C baseURL ''CANCEL_ORDER''
        (args_Pack (cl_abi C) CancelOrderMessageArgs [VBig 7])),
      (''CANCEL_ORDER result (JSON)'', result_test C baseURL ''CANCEL_ORDER'' ''cancelled''),
      (''unknown OPType'', expectStatus (cl_post C) baseURL (test_request ''UNKNOWN'' [] ''message'' ''0x7b7d'') StatusNotFound),
      (''invalid kind'', expectStatus (cl_post C) baseURL
        (test_request ''DARKSTOP'' ''PLACE_ORDER'' ''invalid'' ''0x7b7d'') StatusBadRequest),
      (''invalid hex'', expectStatus (cl_post C) baseURL
        (test_request ''DARKSTOP'' ''PLACE_ORDER'' ''message'' ''not-hex'') StatusBadRequest),
      (''valid hex, bad payload'', expectStatus (cl_post C) baseURL
        (test_request ''DARKSTOP'' ''PLACE_ORDER'' ''message'' ''0xdeadbeef'') StatusUnprocessableEntity)]"

fun run_tests :: "(string \<times> string option) list \<Rightarrow> nat \<times> nat \<Rightarrow> nat \<times> nat" where
  "run_tests [] c = c"
| "run_tests ((n, e) # ts) (passed, failed) =
     run_tests ts (case e of Some err \<Rightarrow> (passed, failed + 1) | None \<Rightarrow> (passed + 1, failed))"

text \<open>The exit status.\<close>

definition test_types_server :: "'f client_env \<Rightarrow> string \<Rightarrow> nat" where
  "test_types_server C baseURL = (case run_tests (client_tests C baseURL) (0, 0) of (passed, failed) \<Rightarrow>
     if 0 < failed then 1 else 0)"

end
