(* ===== verification/Types_Client_Props.thy ===== *)
theory Types_Client_Props
  imports Types_Client
begin

text \<open>
  The test client against the types server, behind the server's routes: every request of the client
  is read back, every answer of the server is read back, and all tests pass.
\<close>

definition server_post :: "(string \<Rightarrow> string + bytes) \<Rightarrow> abi_lib \<Rightarrow> string \<Rightarrow> http_post" where
  "server_post H L baseURL url body = (if take (length baseURL) url = baseURL
     then Inr (ServeHTTP H (StartTypesServer L) ''POST'' (drop (length baseURL) url) body)
     else Inl ''no such host'')"

lemma server_post_decode: "server_post H L baseURL (baseURL @ ''/decode'') body
    = (case handleDecode H (types_registry L) body of (status, b) \<Rightarrow> Inr (status, writeJSON b))"
  by (simp add: server_post_def ServeHTTP_def StartTypesServer_def New_def mux_Handler_def
      split: prod.split)

text \<open>The routes of the server, and nothing else.\<close>

lemma types_server_routes:
  "fst (ServeHTTP H (StartTypesServer L) meth path body) =
    (if path = ''/decode'' \<and> meth = ''POST'' then fst (handleDecode H (types_registry L) body)
     else if path \<in> {''/registry'', ''/health''} \<and> meth \<in> {''GET'', ''HEAD''} then StatusOK
     else if path \<in> {''/decode'', ''/registry'', ''/health''} then 405 else StatusNotFound)"
  by (auto simp: ServeHTTP_def StartTypesServer_def New_def mux_Handler_def handleRegistry_def
      handleHealth_def StatusOK_def split: prod.split)

lemma read_request_text:
  assumes "ascii (ReqOPType req)" "ascii (ReqOPCommand req)" "ascii (ReqKind req)" "ascii (ReqData req)"
  shows "read_request (request_text req) = Inr req"
proof -
  have "parse_value (json_fuel (request_text req)) (request_text req) = Some (JObj [(''opType'', JStr (ReqOPType req)),
      (''opCommand'', JStr (ReqOPCommand req)), (''kind'', JStr (ReqKind req)), (''data'', JStr (ReqData req))], [])"
    unfolding request_text_def
    using whole_object(3) [of "[(''opType'', json_string (ReqOPType req)), (''opCommand'', json_string (ReqOPCommand req)),
       (''kind'', json_string (ReqKind req)), (''data'', json_string (ReqData req))]" 1
      "[JStr (ReqOPType req), JStr (ReqOPCommand req), JStr (ReqKind req), JStr (ReqData req)]"]
      plain_request_names assms [THEN ascii_string] by simp
  then show ?thesis
    by (simp add: read_request_def dec_value_top NewDecoder_def decode_request_fields)
qed

lemma answer_names: "list_all plain ''decoded''" "list_all plain ''orderId''" "list_all plain ''status''"
  "list_all plain ''ciphertext''"
  by (simp_all add: plain_def code_def)

text \<open>The answer of the server is read back as the members of the decoded value.\<close>

lemma read_decoded_answer:
  assumes "kvs \<noteq> []" and "list_all (\<lambda>((k, v), j). list_all plain k \<and> member_of m v j) (zip kvs js)"
    and "length js = length kvs" and "list_all (floats_ok pf) js"
  shows "read_decoded pf (json_object [(''decoded'', json_object kvs)] @ nl)
    = Some (fold (\<lambda>(k, x). gm_put k x) (zip (map fst kvs) js) [])"
proof -
  have "member_of (m + length kvs + 1) (json_object kvs) (JObj (zip (map fst kvs) js))"
    by (rule member_of_text [OF text_of_compact [OF assms(1-3)]])
  then have "json_whole (json_object [(''decoded'', json_object kvs)] @ nl) = Some (JObj [(''decoded'', JObj (zip (map fst kvs) js))])"
    using whole_object(2) [of "[(''decoded'', json_object kvs)]" "m + length kvs + 1" "[JObj (zip (map fst kvs) js)]"] answer_names
    by simp
  moreover have "list_all (\<lambda>p. floats_ok pf (snd p)) (zip (map fst kvs) js)"
    using assms(4) by (auto simp: list_all_iff dest: set_zip_rightD)
  ultimately show ?thesis by (simp add: read_decoded_def)
qed

lemma format_int_pos: "0 < i \<Longrightarrow> format_int i = format_nat (nat i)"
  by (simp add: format_int_def)

lemma quoted_base64: "member_of 1 (quoted (base64 s)) (JStr (base64 s))"
  unfolding member_of_def
proof (intro allI impI)
  fix n r c
  assume "(1::nat) \<le> n"
  then obtain m where "n = Suc m" by (cases n) auto
  then show "parse_value n (quoted (base64 s) @ c # r) = Some (JStr (base64 s), c # r)"
    by (simp add: parse_quoted [OF base64_plain])
qed

section \<open>The tests pass\<close>

lemma server_post_request:
  assumes "ascii (ReqOPType req)" "ascii (ReqOPCommand req)" "ascii (ReqKind req)" "ascii (ReqData req)"
  shows "server_post H L baseURL (baseURL @ ''/decode'') (request_text req) =
    (let kind = data_kind (ReqKind req) in
      if kind \<noteq> KindMessage \<and> kind \<noteq> KindResult
      then Inr (StatusBadRequest, writeJSON (ErrorBody (''kind must be '' @ quoted ''message'' @ '' or '' @ quoted ''result'')))
      else (case H (ReqData req) of
          Inl m \<Rightarrow> Inr (StatusBadRequest, writeJSON (ErrorBody (''invalid hex data: '' @ m)))
        | Inr data \<Rightarrow> (case Lookup (ReqOPType req) (ReqOPCommand req) kind (types_registry L) of
            Inl m \<Rightarrow> Inr (StatusNotFound, writeJSON (ErrorBody m))
          | Inr dec \<Rightarrow> (case dec data of
              Inl m \<Rightarrow> Inr (StatusUnprocessableEntity, writeJSON (ErrorBody (''decode failed: '' @ m)))
            | Inr v \<Rightarrow> Inr (StatusOK, writeJSON (DecodedBody v))))))"
  by (simp add: server_post_decode handleDecode_def read_request_text [OF assms] Let_def split: sum.split)

lemma ascii_hex: "ascii (hexutil_Encode bs)"
  using hex_encode_plain [of bs] by (intro plain_ascii) (simp add: hexutil_Encode_def plain_def code_def)

lemma ascii_words: "ascii ''DARKSTOP''" "ascii ''PLACE_ORDER''" "ascii ''CANCEL_ORDER''" "ascii ''UNKNOWN''" "ascii []"
  "ascii ''message''" "ascii ''result''" "ascii ''invalid''" "ascii ''not-hex''" "ascii ''7''" "ascii ''open''" "ascii ''cancelled''"
  by (simp_all add: ascii_def code_def)

lemma kinds: "data_kind ''message'' = KindMessage" "data_kind ''result'' = KindResult"
  "data_kind ''invalid'' = OtherKind ''invalid''"
  by (simp_all add: data_kind_def)

lemma server_decodes:
  assumes "\<And>bs. H (''0x'' @ hex_encode bs) = Inr bs" and "c \<in> {''PLACE_ORDER'', ''CANCEL_ORDER''}"
    and "k \<in> {''message'', ''result''}"
    and "Lookup ''DARKSTOP'' c (data_kind k) (types_registry L) = Inr dec" and "dec data = Inr v"
  shows "server_post H L baseURL (baseURL @ ''/decode'') (request_text
      \<lparr>ReqOPType = ''DARKSTOP'', ReqOPCommand = c, ReqKind = k, ReqData = hexutil_Encode data\<rparr>)
    = Inr (StatusOK, writeJSON (DecodedBody v))"
proof -
  have a: "ascii c" "ascii k" using assms(2,3) ascii_words by auto
  have "data_kind k = KindMessage \<or> data_kind k = KindResult" using assms(3) kinds by auto
  moreover have "H (hexutil_Encode data) = Inr data" using assms(1) by (simp add: hexutil_Encode_def)
  ultimately show ?thesis
    using assms(4,5) a ascii_words(1) ascii_hex [of data] by (subst server_post_request) auto
qed

lemma seven_member: "member_of 1 (format_int 7) (JNum ''7'')"
proof -
  have "format_nat 7 = ''7''" by code_simp
  then show ?thesis using member_of_number [of 7] by (simp add: format_int_def)
qed

lemma message_test_passes:
  assumes "cl_post C = server_post H L baseURL" and "cl_ParseFloat C ''7'' = Some (cl_seven C)"
    and "\<And>bs. H (''0x'' @ hex_encode bs) = Inr bs" and "c \<in> {''PLACE_ORDER'', ''CANCEL_ORDER''}"
    and "Lookup ''DARKSTOP'' c KindMessage (types_registry L) = Inr dec" and "dec d = Inr v"
    and "v = DecodedPlace \<lparr>PlaceOrderID = 7, Ciphertext = ct\<rparr> \<or> v = DecodedCancel \<lparr>CancelOrderID = 7\<rparr>"
  shows "message_test C baseURL c (Inr d) = None"
proof -
  have "server_post H L baseURL (baseURL @ ''/decode'') (request_text
      \<lparr>ReqOPType = ''DARKSTOP'', ReqOPCommand = c, ReqKind = ''message'', ReqData = hexutil_Encode d\<rparr>)
    = Inr (StatusOK, writeJSON (DecodedBody v))"
    using assms(5) kinds by (intro server_decodes [where k = "''message''" and dec = dec and data = d, OF assms(3,4) _ _ assms(6)]) simp_all
  moreover have "\<exists>m. read_decoded (cl_ParseFloat C) (writeJSON (DecodedBody v)) = Some m \<and> gm_get m ''orderId'' = Some (JNum ''7'')"
    using assms(7)
  proof
    assume v: "v = DecodedPlace \<lparr>PlaceOrderID = 7, Ciphertext = ct\<rparr>"
    show ?thesis
      using read_decoded_answer [of "[(''orderId'', format_int 7), (''ciphertext'', quoted (base64 ct))]" 1
          "[JNum ''7'', JStr (base64 ct)]" "cl_ParseFloat C"] answer_names seven_member quoted_base64 assms(2)
      by (simp add: v writeJSON_def decoded_text_def)
  next
    assume v: "v = DecodedCancel \<lparr>CancelOrderID = 7\<rparr>"
    show ?thesis
      using read_decoded_answer [of "[(''orderId'', format_int 7)]" 1 "[JNum ''7'']" "cl_ParseFloat C"]
        answer_names seven_member assms(2)
      by (simp add: v writeJSON_def decoded_text_def)
  qed
  ultimately show ?thesis
    using assms(1,2) by (auto simp: message_test_def postDecode_def requireFieldFloat_def)
qed

lemma result_test_passes:
  assumes "cl_post C = server_post H L baseURL" and "\<And>bs. H (''0x'' @ hex_encode bs) = Inr bs"
    and "c \<in> {''PLACE_ORDER'', ''CANCEL_ORDER''}" and "ascii st"
  shows "result_test C baseURL c st = None"
proof -
  let ?r = "\<lparr>ResponseOrderID = ''7'', ResponseStatus = st\<rparr>"
  let ?kvs = "[(''orderId'', json_string ''7''), (''status'', json_string st)]"
  have "json_whole (order_response_text ?r) = Some (JObj [(''orderId'', JStr ''7''), (''status'', JStr st)])"
    using whole_object(1) [of ?kvs 1 "[JStr ''7'', JStr st]"] answer_names ascii_string ascii_words assms(4)
    by (simp add: order_response_text_def)
  moreover have "fold_key ''orderId'' = ''ORDERID''" "fold_key ''status'' = ''STATUS''"
    by (simp_all add: code_def byte_def char_of_def bit_Suc_0_iff)
  ultimately have dec: "JSONDecoder_Decode order_response_of_json (order_response_text ?r) = Inr (DecodedResponse ?r)"
    by (simp add: JSONDecoder_Decode_def order_response_of_json_def string_fields_def set_string_field_def del: fold_key.simps)
  have look: "Lookup ''DARKSTOP'' c (data_kind ''result'') (types_registry L) = Inr (JSONDecoder_Decode order_response_of_json)"
    using assms(3) types_registry_lookup by (auto simp: kinds)
  have "server_post H L baseURL (baseURL @ ''/decode'') (request_text
      \<lparr>ReqOPType = ''DARKSTOP'', ReqOPCommand = c, ReqKind = ''result'', ReqData = hexutil_Encode (order_response_text ?r)\<rparr>)
    = Inr (StatusOK, writeJSON (DecodedBody (DecodedResponse ?r)))"
    using server_decodes [where dec = "JSONDecoder_Decode order_response_of_json" and data = "order_response_text ?r",
        OF assms(2,3) _ look dec] by simp
  moreover have "read_decoded (cl_ParseFloat C) (writeJSON (DecodedBody (DecodedResponse ?r)))
      = Some (fold (\<lambda>(k, x). gm_put k x) [(''orderId'', JStr ''7''), (''status'', JStr st)] [])"
    using read_decoded_answer [of ?kvs 1 "[JStr ''7'', JStr st]" "cl_ParseFloat C"] answer_names ascii_string ascii_words assms(4)
    by (simp add: writeJSON_def decoded_text_def)
  ultimately show ?thesis
    using assms(1) by (simp add: result_test_def postDecode_def requireField_def Let_def)
qed

lemma bad_requests:
  assumes "\<And>bs. H (''0x'' @ hex_encode bs) = Inr bs" and "H ''not-hex'' = Inl m"
    and "args_Unpack L PlaceOrderMessageArgs [byte 0xde, byte 0xad, byte 0xbe, byte 0xef] = Inl e"
  shows "expectStatus (server_post H L b) b (test_request ''UNKNOWN'' [] ''message'' ''0x7b7d'') StatusNotFound = None"
    and "expectStatus (server_post H L b) b (test_request ''DARKSTOP'' ''PLACE_ORDER'' ''invalid'' ''0x7b7d'') StatusBadRequest = None"
    and "expectStatus (server_post H L b) b (test_request ''DARKSTOP'' ''PLACE_ORDER'' ''message'' ''not-hex'') StatusBadRequest = None"
    and "expectStatus (server_post H L b) b (test_request ''DARKSTOP'' ''PLACE_ORDER'' ''message'' ''0xdeadbeef'')
      StatusUnprocessableEntity = None"
proof -
  have hex: "hex_encode ''{}'' = ''7b7d''" "hex_encode [byte 0xde, byte 0xad, byte 0xbe, byte 0xef] = ''deadbeef''"
    by code_simp+
  have H: "H ''0x7b7d'' = Inr ''{}''" "H ''0xdeadbeef'' = Inr [byte 0xde, byte 0xad, byte 0xbe, byte 0xef]"
    using assms(1) [of "''{}''"] assms(1) [of "[byte 0xde, byte 0xad, byte 0xbe, byte 0xef]"]
    unfolding hex by simp_all
  have words: "ascii ''0x7b7d''" "ascii ''0xdeadbeef''" by (simp_all add: ascii_def code_def)
  have none: "\<exists>m. Lookup ''UNKNOWN'' [] KindMessage (types_registry L) = Inl m"
    using types_registry_missing [of KindMessage "''UNKNOWN''" "[]" L] by simp
  have short: "\<exists>m. funcDecoder (DecodePlaceOrder L) DecodedPlace [byte 0xde, byte 0xad, byte 0xbe, byte 0xef] = Inl m"
    by (simp add: funcDecoder_def DecodePlaceOrder_def unpackStrict_def assms(3))
  show "expectStatus (server_post H L b) b (test_request ''UNKNOWN'' [] ''message'' ''0x7b7d'') StatusNotFound = None"
    using none by (auto simp: expectStatus_def test_request_def server_post_request ascii_words words kinds H Let_def)
  show "expectStatus (server_post H L b) b (test_request ''DARKSTOP'' ''PLACE_ORDER'' ''invalid'' ''0x7b7d'') StatusBadRequest = None"
    by (simp add: expectStatus_def test_request_def server_post_request ascii_words words kinds Let_def)
  show "expectStatus (server_post H L b) b (test_request ''DARKSTOP'' ''PLACE_ORDER'' ''message'' ''not-hex'') StatusBadRequest = None"
    by (simp add: expectStatus_def test_request_def server_post_request ascii_words kinds Let_def assms(2))
  show "expectStatus (server_post H L b) b (test_request ''DARKSTOP'' ''PLACE_ORDER'' ''message'' ''0xdeadbeef'')
      StatusUnprocessableEntity = None"
    using short by (auto simp: expectStatus_def test_request_def server_post_request ascii_words words kinds H
        Let_def types_registry_lookup)
qed

text \<open>C38. The test client passes against the types server: with a library that packs the two messages and
  unpacks them again, and rejects the four bytes of the bad payload, all eight tests of the client
  pass on the modelled server, so its exit status is 0. The requests and the answers go through
  their JSON texts on both sides.\<close>

theorem types_client_passes:
  assumes "\<And>bs. H (''0x'' @ hex_encode bs) = Inr bs" and "H ''not-hex'' = Inl m"
    and "cl_post C = server_post H (cl_abi C) baseURL" and "cl_ParseFloat C ''7'' = Some (cl_seven C)"
    and "args_Pack (cl_abi C) PlaceOrderMessageArgs [VBig 7, VBytes [byte 0xde, byte 0xad, byte 0xbe, byte 0xef]] = Inr d"
    and "args_Unpack (cl_abi C) PlaceOrderMessageArgs d = Inr [VBig 7, VBytes [byte 0xde, byte 0xad, byte 0xbe, byte 0xef]]"
    and "args_Pack (cl_abi C) CancelOrderMessageArgs [VBig 7] = Inr d'"
    and "args_Unpack (cl_abi C) CancelOrderMessageArgs d' = Inr [VBig 7]"
    and "args_Unpack (cl_abi C) PlaceOrderMessageArgs [byte 0xde, byte 0xad, byte 0xbe, byte 0xef] = Inl e"
  shows "test_types_server C baseURL = 0 \<and> map snd (client_tests C baseURL) = replicate 8 None"
proof -
  let ?ct = "[byte 0xde, byte 0xad, byte 0xbe, byte 0xef]"
  have place: "funcDecoder (DecodePlaceOrder (cl_abi C)) DecodedPlace d = Inr (DecodedPlace \<lparr>PlaceOrderID = 7, Ciphertext = ?ct\<rparr>)"
    using assms(5,6) by (simp add: funcDecoder_def DecodePlaceOrder_def unpackStrict_def)
  have cancel: "funcDecoder (DecodeCancelOrder (cl_abi C)) DecodedCancel d' = Inr (DecodedCancel \<lparr>CancelOrderID = 7\<rparr>)"
    using assms(7,8) by (simp add: funcDecoder_def DecodeCancelOrder_def unpackStrict_def)
  have m1: "message_test C baseURL ''PLACE_ORDER'' (Inr d) = None"
    by (rule message_test_passes [where ct = ?ct, OF assms(3,4,1) _ types_registry_lookup(1) place]) simp_all
  have m2: "message_test C baseURL ''CANCEL_ORDER'' (Inr d') = None"
    by (rule message_test_passes [where ct = ?ct, OF assms(3,4,1) _ types_registry_lookup(2) cancel]) simp_all
  have r: "result_test C baseURL ''PLACE_ORDER'' ''open'' = None" "result_test C baseURL ''CANCEL_ORDER'' ''cancelled'' = None"
    using result_test_passes [OF assms(3,1)] ascii_words by simp_all
  have tests: "map snd (client_tests C baseURL) = replicate 8 None"
    unfolding client_tests_def assms(5) assms(7)
    by (simp add: m1 m2 r bad_requests [OF assms(1,2,9)] assms(3) numeral_eq_Suc)
  have "run_tests ts (p, f) = (p + length ts, f)" if "list_all (\<lambda>t. snd t = None) ts" for ts p f
    using that by (induction ts arbitrary: p) auto
  moreover have "list_all (\<lambda>t. snd t = None) (client_tests C baseURL)"
    using tests unfolding list_all_iff by (metis in_set_replicate list.set_map image_eqI)
  ultimately show ?thesis using tests by (simp add: test_types_server_def)
qed

text \<open>A library for the witness: one byte for the id, one for the length, then the ciphertext.\<close>

definition length_abi :: abi_lib where
  "length_abi = \<lparr>args_Unpack = (\<lambda>args d. case (args, d) of
       ([_], [i]) \<Rightarrow> Inr [VBig (int (code i))]
     | ([_, _], i # n # c) \<Rightarrow> if length c = code n then Inr [VBig (int (code i)), VBytes c] else Inl ''length''
     | _ \<Rightarrow> Inl ''length''),
   args_Pack = (\<lambda>args vs. case vs of
       [VBig i] \<Rightarrow> Inr [byte (nat i)]
     | [VBig i, VBytes c] \<Rightarrow> Inr (byte (nat i) # byte (length c) # c)
     | _ \<Rightarrow> Inl ''values'')\<rparr>"

definition demo_hex :: "string \<Rightarrow> string + bytes" where
  "demo_hex s = (case hex_decode (drop 2 s) of Some b \<Rightarrow> Inr b | None \<Rightarrow> Inl ''hex'')"

definition demo_client :: "nat client_env" where
  "demo_client = \<lparr>cl_abi = length_abi, cl_post = server_post demo_hex length_abi ''u'', cl_ParseFloat = (\<lambda>n. Some (length n)),
     cl_ShowFloat = format_nat, cl_seven = 1, cl_IsPrint = (\<lambda>_. True)\<rparr>"

theorem types_client_passes_witness: "test_types_server demo_client ''u'' = 0"
proof -
  let ?ct = "[byte 0xde, byte 0xad, byte 0xbe, byte 0xef]"
  have hex: "demo_hex (''0x'' @ hex_encode bs) = Inr bs" for bs by (simp add: demo_hex_def)
  have bad: "demo_hex ''not-hex'' = Inl ''hex''" by code_simp
  have client: "cl_abi demo_client = length_abi" "cl_post demo_client = server_post demo_hex (cl_abi demo_client) ''u''"
    "cl_ParseFloat demo_client ''7'' = Some (cl_seven demo_client)"
    by (simp_all add: demo_client_def)
  have lib: "args_Pack length_abi PlaceOrderMessageArgs [VBig 7, VBytes ?ct] = Inr (byte 7 # byte (length ?ct) # ?ct)"
    "args_Unpack length_abi PlaceOrderMessageArgs (byte 7 # byte (length ?ct) # ?ct) = Inr [VBig 7, VBytes ?ct]"
    "args_Pack length_abi CancelOrderMessageArgs [VBig 7] = Inr [byte 7]"
    "args_Unpack length_abi CancelOrderMessageArgs [byte 7] = Inr [VBig 7]"
    "args_Unpack length_abi PlaceOrderMessageArgs ?ct = Inl ''length''"
    by (simp_all add: length_abi_def PlaceOrderMessageArgs_def CancelOrderMessageArgs_def)
  show ?thesis
    using types_client_passes [OF hex bad client(2,3), unfolded client(1), OF lib] by simp
qed

end
