(* ===== verification/Run_Test.thy ===== *)
theory Run_Test
  imports Vault_Calls Json_Compact Tools_Demo Extension_Props
begin

text \<open>
  The \<open>run-test\<close> command, \<open>tools/cmd/run-test/main.go\<close>: it encrypts a trigger to the key that the
  enclave publishes, places the order on the chain and checks the enclave's answer. The functions of
  go-ethereum it calls on its own are the fields of \<open>client_lib\<close>; log lines are left out.
\<close>

record 'p client_lib =
  cb_HexDecode :: "string \<Rightarrow> string + bytes"
  cb_UnmarshalPubkey :: "bytes \<Rightarrow> string + 'p"
  cb_Encrypt :: "bytes \<Rightarrow> 'p \<Rightarrow> bytes \<Rightarrow> string + bytes"

section \<open>The state of the enclave as JSON\<close>

text \<open>What the extension writes for \<open>GET /state\<close>.\<close>

definition state_text :: "State \<Rightarrow> bytes" where
  "state_text s = json_object [(''encryptionPubKey'', json_string (EncryptionPubKey s)),
     (''supportedPolicies'', json_array (map json_string (SupportedPoliciesField s))),
     (''openOrders'', format_int (OpenOrdersCount s)),
     (''orders'', json_array (map (\<lambda>o1. json_object [(''orderId'', json_string (StateOrderID o1)),
        (''status'', json_string (StateStatus o1))]) (Orders s)))]"

definition state_response_text :: "'k tee_env \<Rightarrow> StateResponse \<Rightarrow> bytes" where
  "state_response_text X r = json_object [(''stateVersion'', json_string (hash_Hex X (StateVersion r))),
     (''state'', state_text (StateField r))] @ nl"

text \<open>Decoding it: every field must fit its type, the key is what the command reads.\<close>

definition strings_ok :: "json \<Rightarrow> bool" where
  "strings_ok v = (case v of JArr vs \<Rightarrow> list_all (\<lambda>u. dec_string [] u \<noteq> None) vs | JNull \<Rightarrow> True | _ \<Rightarrow> False)"

definition int_ok :: "json \<Rightarrow> bool" where
  "int_ok v = (case v of JNum n \<Rightarrow> Atoi n \<noteq> None | JNull \<Rightarrow> True | _ \<Rightarrow> False)"

definition order_states_ok :: "json \<Rightarrow> bool" where
  "order_states_ok v = (case v of
     JArr vs \<Rightarrow> list_all (\<lambda>u. string_fields [''orderId'', ''status''] u \<noteq> None) vs | JNull \<Rightarrow> True | _ \<Rightarrow> False)"

definition state_names :: "bytes list" where
  "state_names = [''encryptionPubKey'', ''supportedPolicies'', ''openOrders'', ''orders'']"

definition state_key :: "string \<Rightarrow> json \<Rightarrow> string option" where
  "state_key d v = (case v of
     JObj kvs \<Rightarrow>
       if list_all strings_ok (field_values state_names kvs ''supportedPolicies'')
         \<and> list_all int_ok (field_values state_names kvs ''openOrders'')
         \<and> list_all order_states_ok (field_values state_names kvs ''orders'')
       then last_decoded dec_string d (field_values state_names kvs ''encryptionPubKey'') else None
   | JNull \<Rightarrow> Some d
   | _ \<Rightarrow> None)"

definition response_names :: "bytes list" where
  "response_names = [''stateVersion'', ''state'']"

definition response_key :: "('k, 'c) tools_chain \<Rightarrow> json \<Rightarrow> string option" where
  "response_key E v = (case v of
     JObj kvs \<Rightarrow>
       (case last_decoded (dec_text (tc_UnmarshalHash E)) 0 (field_values response_names kvs ''stateVersion'') of
          None \<Rightarrow> None
        | Some _ \<Rightarrow> last_decoded state_key [] (field_values response_names kvs ''state''))
   | JNull \<Rightarrow> Some []
   | _ \<Rightarrow> None)"

section \<open>Key, plaintext and answer\<close>

definition TrimRight :: "string \<Rightarrow> char \<Rightarrow> string" where
  "TrimRight s c = rev (dropWhile (\<lambda>x. x = c) (rev s))"

definition state_url :: "string \<Rightarrow> string" where
  "state_url proxyURL = TrimRight proxyURL (CHR ''/'') @ ''/state''"

definition fetchEncryptionKey :: "('k, 'c) tools_chain \<Rightarrow> 'p client_lib \<Rightarrow> string \<Rightarrow> ('c, 'p) tool_op" where
  "fetchEncryptionKey E C proxyURL =
     attempt (on_chain (tc_HttpGet E (state_url proxyURL))) (reworded ''GET /state: '') (\<lambda>(status, body).
     if status \<noteq> StatusOK_int then tool_fail (Errorf (''GET /state: unexpected status '' @ format_int status))
     else (case dec_Decode (NewDecoder body) of
         Inl er \<Rightarrow> tool_fail (Errorf (''decoding state response: '' @ dec_error_text er))
       | Inr (v, _) \<Rightarrow> (case response_key E v of
           None \<Rightarrow> tool_fail (Errorf ''decoding state response: cannot unmarshal'')
         | Some k \<Rightarrow>
           if k = [] then tool_fail (Errorf ''state response has empty encryptionPubKey'')
           else attempt (lib_value (cb_HexDecode C k)) (reworded ''decoding encryptionPubKey hex: '') (\<lambda>raw.
             lib_value (case cb_UnmarshalPubkey C raw of
               Inl err \<Rightarrow> Inl (''parsing encryptionPubKey: '' @ err) | Inr p \<Rightarrow> Inr p)))))"

definition order_plaintext :: "int \<Rightarrow> bytes" where
  "order_plaintext trigger = json_object [(''triggerPrice'', json_string (format_int trigger))]"

text \<open>The random bytes of \<open>rand.Reader\<close> are an argument.\<close>

definition encryptToExtension :: "'p client_lib \<Rightarrow> bytes \<Rightarrow> 'p \<Rightarrow> bytes \<Rightarrow> string + bytes" where
  "encryptToExtension C rand pub plaintext = (case cb_Encrypt C rand pub plaintext of
     Inl err \<Rightarrow> Inl (''ecies encrypt: '' @ err) | Inr ct \<Rightarrow> Inr ct)"

definition check_order_result :: "(nat \<Rightarrow> bool) \<Rightarrow> action_result \<Rightarrow> int \<Rightarrow> string option" where
  "check_order_result isPrint r orderID =
     (if ar_Status r = 0 then Some (''instruction processing failed: '' @ ar_Log r)
      else if ar_Status r = 2 then Some ''instruction still pending after polling, expected completed''
      else if ar_Data r = [] then Some ''expected response data but got none''
      else (case json_whole (ar_Data r) of
          None \<Rightarrow> Some ''failed to unmarshal response: invalid JSON''
        | Some v \<Rightarrow> (case order_response_of_json v of
            Some (DecodedResponse resp) \<Rightarrow>
              if ResponseOrderID resp \<noteq> format_int orderID
              then Some (''expected orderId '' @ Quote isPrint (format_int orderID) @ '', got ''
                @ Quote isPrint (ResponseOrderID resp))
              else if ResponseStatus resp \<noteq> ''open''
              then Some (''expected status '' @ quoted ''open'' @ '', got '' @ Quote isPrint (ResponseStatus resp))
              else None
          | _ \<Rightarrow> Some ''failed to unmarshal response: cannot unmarshal'')))"

definition verifyPlaceOrderResult :: "('k, 'c) tools_chain \<Rightarrow> tee_lib \<Rightarrow> string \<Rightarrow> hash \<Rightarrow> int \<Rightarrow> ('c, unit) tool_op" where
  "verifyPlaceOrderResult E L proxyURL instructionID orderID =
     attempt (ActionResult_call E L proxyURL instructionID) id (\<lambda>r.
     case check_order_result (tc_IsPrint E) r orderID of
       Some msg \<Rightarrow> tool_fail (Errorf msg) | None \<Rightarrow> tool_return ())"

section \<open>The command\<close>

record run_flags =
  rf_addresses :: string
  rf_chain :: string
  rf_proxy :: string
  rf_instructionSender :: string
  rf_deposit :: string
  rf_trigger :: string

definition default_run_flags :: run_flags where
  "default_run_flags = \<lparr>rf_addresses = AddressesFile, rf_chain = ChainNodeURL, rf_proxy = ExtensionProxyURL,
     rf_instructionSender = [], rf_deposit = ''50000000000000000'', rf_trigger = ''1000000000''\<rparr>"

definition positive_amount :: "string \<Rightarrow> int option" where
  "positive_amount s = (case big_SetString s of Some i \<Rightarrow> if i \<le> 0 then None else Some i | None \<Rightarrow> None)"

text \<open>An extension id that was set before is no failure.\<close>

definition configure_vault :: "('k, 'c) tools_chain \<Rightarrow> 'k Support \<Rightarrow> address \<Rightarrow> ('c, unit) tool_op" where
  "configure_vault E s vaultAddress w = (case SetExtensionId E s vaultAddress w of
     (Inr _, w') \<Rightarrow> (Inr (), w')
   | (Inl err, w') \<Rightarrow>
       if str_contains (err_Error err) ''already set'' \<or> str_contains (err_Error err) ''Extension ID already set''
       then (Inr (), w')
       else (Inl (Errorf (''setExtensionId failed '' @ em_dash
         @ '' is the extension registered? Check that pre-build.sh completed successfully. Error: '' @ err_Error err)), w'))"

definition place_order :: "('k, 'c) tools_chain \<Rightarrow> tee_lib \<Rightarrow> 'k Support \<Rightarrow> address \<Rightarrow> bytes \<Rightarrow> int
    \<Rightarrow> ('c, hash \<times> int \<times> hash) tool_op" where
  "place_order E L s vaultAddress ciphertext deposit = (case tc_Bind E ''DarkStopVault'' vaultAddress of
     Some err \<Rightarrow> tool_fail err
   | None \<Rightarrow>
     attempt (on_chain (tc_InstructionFee E vaultAddress)) (reworded ''reading INSTRUCTION_FEE: '') (\<lambda>fee.
     SendPlaceOrder E L s vaultAddress ciphertext (fee + deposit)))"

definition run_test :: "('k, 'c) tools_chain \<Rightarrow> tee_lib \<Rightarrow> 'p client_lib \<Rightarrow> (string \<Rightarrow> string) \<Rightarrow> 'k \<Rightarrow> bytes
    \<Rightarrow> run_flags \<Rightarrow> ('c, unit) tool_op" where
  "run_test E L C getenv prvWithFunds rand fl =
     (let vaultAddress = tc_HexToAddress E (rf_instructionSender fl) in
      if vaultAddress = 0 then tool_fail (Errorf ''--instructionSender (vault address) is required'')
      else (case positive_amount (rf_deposit fl) of
          None \<Rightarrow> tool_fail (Errorf (''invalid -deposit: '' @ Quote (tc_IsPrint E) (rf_deposit fl)))
        | Some deposit \<Rightarrow> (case positive_amount (rf_trigger fl) of
          None \<Rightarrow> tool_fail (Errorf (''invalid -trigger: '' @ Quote (tc_IsPrint E) (rf_trigger fl)))
        | Some trigger \<Rightarrow>
          attempt (DefaultSupport E getenv prvWithFunds (rf_addresses fl) (rf_chain fl)) id (\<lambda>s.
          attempt (configure_vault E s vaultAddress) id (\<lambda>_.
          attempt (fetchEncryptionKey E C (rf_proxy fl)) id (\<lambda>pubKey.
          attempt (lib_value (encryptToExtension C rand pubKey (order_plaintext trigger))) id (\<lambda>ciphertext.
          attempt (place_order E L s vaultAddress ciphertext deposit) id (\<lambda>(instructionID, orderID, txHash) w.
          verifyPlaceOrderResult E L (rf_proxy fl) instructionID orderID (tool_Sleep E (5 * second_ns) w)))))))))"

end
