(* ===== verification/Run_Test_Props.thy ===== *)
theory Run_Test_Props
  imports Run_Test
begin

text \<open>
  The \<open>run-test\<close> command against the enclave: the key is read back from the published state, the
  encrypted trigger reaches the order book, the enclave's answer is accepted; and what the command
  broadcasts.
\<close>

section \<open>Reading the state\<close>

lemma fold_state_names: "fold_key ''encryptionPubKey'' = ''ENCRYPTIONPUBKEY''" "fold_key ''supportedPolicies'' = ''SUPPORTEDPOLICIES''"
  "fold_key ''openOrders'' = ''OPENORDERS''" "fold_key ''orders'' = ''ORDERS''" "fold_key ''orderId'' = ''ORDERID''"
  "fold_key ''status'' = ''STATUS''" "fold_key ''stateVersion'' = ''STATEVERSION''" "fold_key ''state'' = ''STATE''"
  by (simp_all add: code_def byte_def char_of_def bit_Suc_0_iff)

lemma plain_state_names: "list_all plain ''encryptionPubKey''" "list_all plain ''supportedPolicies''" "list_all plain ''openOrders''"
  "list_all plain ''orders''" "list_all plain ''orderId''" "list_all plain ''status''" "list_all plain ''stateVersion''"
  "list_all plain ''state''" "list_all plain ''triggerPrice''"
  by (simp_all add: plain_def code_def)

definition order_json :: "OrderState \<Rightarrow> json" where
  "order_json o1 = JObj [(''orderId'', JStr (to_valid_utf8 (StateOrderID o1))), (''status'', JStr (to_valid_utf8 (StateStatus o1)))]"

definition state_json :: "State \<Rightarrow> json" where
  "state_json s = JObj [(''encryptionPubKey'', JStr (to_valid_utf8 (EncryptionPubKey s))),
     (''supportedPolicies'', JArr (map (\<lambda>p. JStr (to_valid_utf8 p)) (SupportedPoliciesField s))),
     (''openOrders'', JNum (format_int (OpenOrdersCount s))), (''orders'', JArr (map order_json (Orders s)))]"

lemma text_of_member: "text_of k t j \<Longrightarrow> k \<le> m \<Longrightarrow> member_of m t j"
  by (rule member_of_text [OF text_of_mono])

lemma text_of_order: "text_of 4 (json_object [(''orderId'', json_string (StateOrderID o1)), (''status'', json_string (StateStatus o1))])
    (order_json o1)"
  using text_of_compact [of "[(''orderId'', json_string (StateOrderID o1)), (''status'', json_string (StateStatus o1))]" 1
      "[JStr (to_valid_utf8 (StateOrderID o1)), JStr (to_valid_utf8 (StateStatus o1))]"]
    plain_state_names member_of_text [OF text_of_string] by (simp add: order_json_def numeral_eq_Suc text_of_string)

lemma text_of_state:
  assumes "0 \<le> OpenOrdersCount s"
  shows "\<exists>k. text_of k (state_text s) (state_json s)"
proof -
  let ?n = "4 + length (SupportedPoliciesField s) + length (Orders s) + 2"
  have policies: "member_of ?n (json_array (map json_string (SupportedPoliciesField s)))
      (JArr (map (\<lambda>p. JStr (to_valid_utf8 p)) (SupportedPoliciesField s)))"
    by (rule text_of_member [OF text_of_compact_array [of 1]])
      (simp_all add: list_all2_conv_all_nth text_of_string [unfolded One_nat_def] list_all_length value_start_compact)
  have orders: "member_of ?n (json_array (map (\<lambda>o1. json_object [(''orderId'', json_string (StateOrderID o1)),
      (''status'', json_string (StateStatus o1))]) (Orders s))) (JArr (map order_json (Orders s)))"
    by (rule text_of_member [OF text_of_compact_array [of 4]])
      (simp_all add: list_all2_conv_all_nth text_of_order list_all_length value_start_compact)
  have str: "member_of ?n (json_string t) (JStr (to_valid_utf8 t))" for t
    by (rule text_of_member [OF text_of_string]) simp
  have num: "member_of ?n (format_int (OpenOrdersCount s)) (JNum (format_int (OpenOrdersCount s)))"
    using member_of_number [of "nat (OpenOrdersCount s)"] assms by (simp add: member_of_def format_int_def)
  show ?thesis
    using text_of_compact [of "[(''encryptionPubKey'', json_string (EncryptionPubKey s)),
        (''supportedPolicies'', json_array (map json_string (SupportedPoliciesField s))),
        (''openOrders'', format_int (OpenOrdersCount s)),
        (''orders'', json_array (map (\<lambda>o1. json_object [(''orderId'', json_string (StateOrderID o1)),
          (''status'', json_string (StateStatus o1))]) (Orders s)))]" ?n
        "[JStr (to_valid_utf8 (EncryptionPubKey s)), JArr (map (\<lambda>p. JStr (to_valid_utf8 p)) (SupportedPoliciesField s)),
          JNum (format_int (OpenOrdersCount s)), JArr (map order_json (Orders s))]"]
      policies orders str num plain_state_names
    unfolding state_text_def state_json_def by auto
qed

lemma state_field_lists:
  "field_values state_names [(''encryptionPubKey'', a), (''supportedPolicies'', b), (''openOrders'', c), (''orders'', d)]
     ''encryptionPubKey'' = [a]"
  "field_values state_names [(''encryptionPubKey'', a), (''supportedPolicies'', b), (''openOrders'', c), (''orders'', d)]
     ''supportedPolicies'' = [b]"
  "field_values state_names [(''encryptionPubKey'', a), (''supportedPolicies'', b), (''openOrders'', c), (''orders'', d)]
     ''openOrders'' = [c]"
  "field_values state_names [(''encryptionPubKey'', a), (''supportedPolicies'', b), (''openOrders'', c), (''orders'', d)]
     ''orders'' = [d]"
  "field_values response_names [(''stateVersion'', a), (''state'', b)] ''stateVersion'' = [a]"
  "field_values response_names [(''stateVersion'', a), (''state'', b)] ''state'' = [b]"
  by (simp_all add: field_values_def state_names_def response_names_def fold_state_names del: fold_key.simps)

lemma order_json_fields: "string_fields [''orderId'', ''status''] (order_json o1) \<noteq> None"
  by (simp add: order_json_def string_fields_def set_string_field_def fold_state_names del: fold_key.simps)

lemma state_key_json:
  assumes "0 \<le> OpenOrdersCount s" and "OpenOrdersCount s < 2 ^ 63"
  shows "state_key d (state_json s) = Some (to_valid_utf8 (EncryptionPubKey s))"
  using assms signed_digits_format_nat [of "nat (OpenOrdersCount s)"] order_json_fields
  by (simp add: state_key_def state_json_def state_field_lists strings_ok_def int_ok_def order_states_ok_def
      dec_string_def Atoi_def format_int_def list_all_iff)

lemma read_state_response:
  assumes "0 \<le> OpenOrdersCount (StateField r)" and "OpenOrdersCount (StateField r) < 2 ^ 63"
    and "tc_UnmarshalHash E (to_valid_utf8 (hash_Hex X (StateVersion r))) \<noteq> None"
  shows "\<exists>v d. dec_Decode (NewDecoder (state_response_text X r)) = Inr (v, d)
    \<and> response_key E v = Some (to_valid_utf8 (EncryptionPubKey (StateField r)))"
proof -
  obtain k where k: "text_of k (state_text (StateField r)) (state_json (StateField r))"
    using text_of_state [OF assms(1)] by blast
  let ?kvs = "[(''stateVersion'', json_string (hash_Hex X (StateVersion r))), (''state'', state_text (StateField r))]"
  let ?js = "[JStr (to_valid_utf8 (hash_Hex X (StateVersion r))), state_json (StateField r)]"
  have "text_of (max 1 k + 2 + 1) (json_object ?kvs) (JObj (zip (map fst ?kvs) ?js))"
    using text_of_compact [of ?kvs "max 1 k" ?js] plain_state_names text_of_member [OF text_of_string, of "max 1 k"]
      text_of_member [OF k, of "max 1 k"] by simp
  from text_of_parse [OF this, of nl] have "dec_Decode (NewDecoder (state_response_text X r))
      = Inr (JObj (zip (map fst ?kvs) ?js), (NewDecoder (state_response_text X r))\<lparr>dec_in := nl\<rparr>)"
    by (simp add: dec_value_top NewDecoder_def state_response_text_def)
  moreover have "response_key E (JObj (zip (map fst ?kvs) ?js)) = Some (to_valid_utf8 (EncryptionPubKey (StateField r)))"
    using assms(3) by (auto simp: response_key_def state_field_lists dec_text_def state_key_json [OF assms(1,2)])
  ultimately show ?thesis by blast
qed

section \<open>The key, the plaintext and the answer\<close>

text \<open>What go-ethereum documents of the key: the hexadecimal text, the public key and a message each
  survive the way to the enclave.\<close>

definition client_of :: "'p client_lib \<Rightarrow> 'k crypto_lib \<Rightarrow> 'k Crypto \<Rightarrow> 'p \<Rightarrow> bool" where
  "client_of C L c p \<longleftrightarrow> (\<forall>b. cb_HexDecode C (''0x'' @ hex_encode b) = Inr b)
     \<and> cb_UnmarshalPubkey C (FromECDSAPub L (key c)) = Inr p
     \<and> (\<forall>rand m ct. cb_Encrypt C rand p m = Inr ct \<longrightarrow> Decrypt L c ct = Inr m)"

lemma PublicKeyHex_plain: "list_all plain (PublicKeyHex L c)" "PublicKeyHex L c \<noteq> []"
  using hex_encode_plain [of "FromECDSAPub L (key c)"] by (simp_all add: PublicKeyHex_def plain_def code_def)

lemma state_fields:
  "EncryptionPubKey (StateField (stateHandler X now x)) = PublicKeyHex (tee_crypto X) (ext_crypto x)"
  "OpenOrdersCount (StateField (stateHandler X now x))
     = int (length (filter (\<lambda>o1. Status o1 = StatusOpen) (Snapshot (ext_store x))))"
  "StateVersion (stateHandler X now x) = ToHash X Version"
  by (simp_all add: stateHandler_def Let_def)

lemma fetch_key:
  assumes "client_of C (tee_crypto X) (ext_crypto x) p"
    and "length (Snapshot (ext_store x)) < 2 ^ 63"
    and "tc_UnmarshalHash E (to_valid_utf8 (hash_Hex X (ToHash X Version))) \<noteq> None"
    and "fst (tc_HttpGet E (state_url proxyURL) (tw_chain w)) = Inr (200, state_response_text X (stateHandler X now x))"
  shows "fst (fetchEncryptionKey E C proxyURL w) = Inr p"
proof -
  have count: "int (length (filter Q (Snapshot (ext_store x)))) < 2 ^ 63" for Q
    using le_less_trans [OF length_filter_le assms(2), of Q] by simp
  have hex: "to_valid_utf8 (PublicKeyHex (tee_crypto X) (ext_crypto x)) = PublicKeyHex (tee_crypto X) (ext_crypto x)"
    by (rule to_valid_plain [OF plain_ascii [OF PublicKeyHex_plain(1), unfolded ascii_def]])
  obtain v d where v: "dec_Decode (NewDecoder (state_response_text X (stateHandler X now x))) = Inr (v, d)"
      "response_key E v = Some (PublicKeyHex (tee_crypto X) (ext_crypto x))"
    using read_state_response [of "stateHandler X now x" E X] count assms(3) by (auto simp: state_fields hex)
  obtain c where "tc_HttpGet E (state_url proxyURL) (tw_chain w) = (Inr (200, state_response_text X (stateHandler X now x)), c)"
    using assms(4) by (metis prod.collapse)
  then show ?thesis
    using v assms(1) PublicKeyHex_plain(2) [of "tee_crypto X" "ext_crypto x"]
    by (auto simp: fetchEncryptionKey_def attempt_def on_chain_def StatusOK_int_def lib_value_def tool_value_def
        client_of_def PublicKeyHex_def)
qed

lemma json_escape_digit: "is_digit c \<Longrightarrow> json_escape_byte c = [c]"
proof -
  assume "is_digit c"
  then have "c \<notin> set (map fst short_escapes)" and "32 \<le> code c" "c \<noteq> CHR ''<''" "c \<noteq> CHR ''>''" "c \<noteq> CHR ''&''"
    by (auto simp: is_digit_def code_def short_escapes_def)
  moreover from this(1) have "map_of short_escapes c = None" by (simp add: map_of_eq_None_iff)
  ultimately show ?thesis by (simp add: json_escape_byte_def)
qed

lemma json_string_digits: "json_string (format_nat n) = quoted (format_nat n)"
proof -
  have "json_escape s = s" if "list_all is_digit s" for s
    using that
  proof (induction s)
    case (Cons c cs)
    then have "code c < 128" by (simp add: is_digit_def)
    then show ?case using Cons by (simp add: json_escape_simps(1) json_escape_digit)
  qed (simp add: json_escape.simps [of "[]"])
  then show ?thesis using format_nat_digits by (simp add: json_string_def quoted_def)
qed

lemma order_plaintext_legacy: "0 < t \<Longrightarrow> order_plaintext t = legacy_plaintext (nat t)"
  by (simp add: order_plaintext_def legacy_plaintext_def json_object_def format_int_def json_string_digits)

lemma order_answer_accepted:
  assumes "0 < j"
  shows "check_order_result isPrint \<lparr>ar_Status = 1, ar_Log = lg, ar_Data =
     marshal_OrderResponse \<lparr>ResponseOrderID = format_int j, ResponseStatus = StatusOpen\<rparr>\<rparr> j = None"
proof -
  have open_: "list_all plain StatusOpen" by (simp add: StatusOpen_def plain_def code_def)
  let ?t = "marshal_OrderResponse \<lparr>ResponseOrderID = format_int j, ResponseStatus = StatusOpen\<rparr>"
  have "parse_value (json_fuel ?t) ?t = Some (JObj [(''orderId'', JStr (format_int j)), (''status'', JStr StatusOpen)], [])"
    unfolding marshal_OrderResponse_def using assms
    by (intro parse_object_fuel) (simp add: format_int_def plain_state_names [THEN parse_member_field]
        digits_plain [THEN parse_quoted] open_ [THEN parse_quoted])
  then have "json_whole ?t = Some (JObj [(''orderId'', JStr (format_int j)), (''status'', JStr StatusOpen)])"
    by (simp add: json_whole_def skip_ws_def)
  moreover have "?t \<noteq> []" by (simp add: marshal_OrderResponse_def)
  ultimately show ?thesis
    by (simp add: check_order_result_def order_response_of_json_def string_fields_def set_string_field_def
        fold_state_names StatusOpen_def del: fold_key.simps)
qed

text \<open>C31. \<open>run-test\<close> and the enclave fit together. When the proxy passes on what the extension writes for
  \<open>GET /state\<close>, the command reads back exactly the enclave's public key; when it encrypts its
  trigger to that key and the enclave receives the ciphertext under a fresh order id, the book holds
  an order with exactly that effective trigger, no other order changes, and the answer the enclave
  gives is one the command accepts for that order id.\<close>

theorem run_test_reaches_book:
  assumes "client_of C (tee_crypto X) (ext_crypto x) p"
    and "length (Snapshot (ext_store x)) < 2 ^ 63"
    and "tc_UnmarshalHash E (to_valid_utf8 (hash_Hex X (ToHash X Version))) \<noteq> None"
    and "fst (tc_HttpGet E (state_url proxyURL) (tw_chain w)) = Inr (200, state_response_text X (stateHandler X now x))"
    and "positive_amount trigger = Some t" and "t < 2 ^ 256"
    and "encryptToExtension C rand p (order_plaintext t) = Inr ct"
    and "DecodePlaceOrder (tee_abi X) (OriginalMessage df) = Inr \<lparr>PlaceOrderID = j, Ciphertext = ct\<rparr>"
    and "0 < j" and "j < 2 ^ 64" and "order_phase (ext_store x) (word_of_int j) = Absent"
  shows "fst (fetchEncryptionKey E C proxyURL w) = Inr p
    \<and> (\<exists>ar d x'. processPlaceOrder X now' a df x = (ar, x')
        \<and> EffectiveTrigger (word_of_int j) (ext_store x') = Some t
        \<and> (\<forall>i. i \<noteq> word_of_int j \<longrightarrow> Get i (ext_store x') = Get i (ext_store x))
        \<and> ActionResult.ResultData ar = Some d
        \<and> check_order_result isPrint \<lparr>ar_Status = ActionResult.ResultStatus ar, ar_Log = ActionResult.ResultLog ar, ar_Data = d\<rparr> j = None)"
proof (intro conjI fetch_key [OF assms(1-4)])
  have t: "0 < t" using assms(5) by (auto simp: positive_amount_def split: option.splits if_splits)
  have "cb_Encrypt C rand p (order_plaintext t) = Inr ct"
    using assms(7) by (auto simp: encryptToExtension_def split: sum.splits)
  then have dec: "Decrypt (tee_crypto X) (ext_crypto x) ct = Inr (legacy_plaintext (nat t))"
    using assms(1) order_plaintext_legacy [OF t] by (auto simp: client_of_def)
  have pol: "ParseOrderPlaintext (legacy_plaintext (nat t)) = Inr \<lparr>PolicyTrigger = Some t, PolicyTrailBps = 0\<rparr>"
    using policy_texts [of "nat t" 25] t assms(6) by (simp add: nat_less_iff)
  have "processPlaceOrder X now' a df x = (buildResult a df (Some (marshal_OrderResponse
      \<lparr>ResponseOrderID = format_int j, ResponseStatus = StatusOpen\<rparr>)) 1 None,
      x\<lparr>ext_store := placed (word_of_int j) t (ext_store x)\<rparr>)"
    by (rule place_run [OF assms(8-10) dec pol assms(11)])
  then show "\<exists>ar d x'. processPlaceOrder X now' a df x = (ar, x')
        \<and> EffectiveTrigger (word_of_int j) (ext_store x') = Some t
        \<and> (\<forall>i. i \<noteq> word_of_int j \<longrightarrow> Get i (ext_store x') = Get i (ext_store x))
        \<and> ActionResult.ResultData ar = Some d
        \<and> check_order_result isPrint \<lparr>ar_Status = ActionResult.ResultStatus ar, ar_Log = ActionResult.ResultLog ar, ar_Data = d\<rparr> j = None"
    using order_answer_accepted [OF assms(9)]
    by (auto simp: placed_facts buildResult_def)
qed

text \<open>A client of the small enclave of the witnesses.\<close>

definition tiny_client :: "unit client_lib" where
  "tiny_client = \<lparr>cb_HexDecode = (\<lambda>s. case hex_decode (drop 2 s) of Some b \<Rightarrow> Inr b | None \<Rightarrow> Inl ''hex''),
     cb_UnmarshalPubkey = (\<lambda>_. Inr ()), cb_Encrypt = (\<lambda>_ _ m. Inr (rev m))\<rparr>"

definition tiny_proxy :: "(unit, nat) tools_chain" where
  "tiny_proxy = demo_tools\<lparr>tc_HttpGet := (\<lambda>url c.
     (Inr (200, if url = state_url ''u/'' then state_response_text tiny_env (stateHandler tiny_env 0 tiny_extension)
       else marshal_OrderResponse \<lparr>ResponseOrderID = ''6'', ResponseStatus = StatusOpen\<rparr>), c))\<rparr>"

lemma tiny_client_of: "client_of tiny_client tiny_crypto c ()"
  by (simp add: client_of_def tiny_client_def tiny_crypto_def Decrypt_def)

lemma tiny_fetch: "fst (tc_HttpGet tiny_proxy (state_url ''u/'') c)
    = Inr (200, state_response_text tiny_env (stateHandler tiny_env 0 tiny_extension))"
  by (simp add: tiny_proxy_def)

lemma tiny_trigger: "positive_amount ''20000'' = Some 20000"
  by code_simp

theorem run_test_reaches_book_witness:
  "fst (fetchEncryptionKey tiny_proxy tiny_client ''u/'' demo_files) = Inr ()
   \<and> (\<exists>ar x'. processPlaceOrder tiny_env 0 tiny_action (tiny_df (order_plaintext 20000)) tiny_extension = (ar, x')
        \<and> EffectiveTrigger 7 (ext_store x') = Some 20000)"
proof -
  have crypto: "tee_crypto tiny_env = tiny_crypto" "tee_abi tiny_env = tiny_abi" by (simp_all add: tiny_env_def)
  have small: "length (Snapshot (ext_store tiny_extension)) < 2 ^ 63"
    by (simp add: tiny_extension_def NewStore_def Snapshot_def)
  have hash: "tc_UnmarshalHash tiny_proxy t \<noteq> None" for t by (simp add: tiny_proxy_def demo_tools_def)
  have enc: "encryptToExtension tiny_client [] () m = Inr (rev m)" for m
    by (simp add: encryptToExtension_def tiny_client_def)
  have bounds: "(20000 :: int) < 2 ^ 256" "(0 :: int) < 7" "(7 :: int) < 2 ^ 64" by simp_all
  show ?thesis
    using run_test_reaches_book [where X = tiny_env and x = tiny_extension and C = tiny_client and w = demo_files and a = tiny_action
        and j = 7 and now' = 0 and isPrint = "\<lambda>_. True", unfolded crypto, OF tiny_client_of small hash tiny_fetch tiny_trigger
        bounds(1) enc tiny_decode bounds(2,3) tiny_absent] by auto
qed

section \<open>What the command broadcasts\<close>

text \<open>A ciphertext of the trigger under the key the command fetched.\<close>

definition sealed_trigger :: "('k, 'c) tools_chain \<Rightarrow> 'p client_lib \<Rightarrow> bytes \<Rightarrow> run_flags \<Rightarrow> bytes \<Rightarrow> bool" where
  "sealed_trigger E C rand fl ct \<longleftrightarrow> (\<exists>u u' p t. fetchEncryptionKey E C (rf_proxy fl) u = (Inr p, u')
     \<and> positive_amount (rf_trigger fl) = Some t \<and> encryptToExtension C rand p (order_plaintext t) = Inr ct)"

text \<open>The order the vault reported is one the enclave acknowledged as open.\<close>

definition acknowledged :: "('k, 'c) tools_chain \<Rightarrow> tee_lib \<Rightarrow> string \<Rightarrow> hash \<Rightarrow> int \<Rightarrow> bool" where
  "acknowledged E L proxyURL instructionID orderID \<longleftrightarrow> (\<exists>u u' r.
     ActionResult_call E L proxyURL instructionID u = (Inr r, u') \<and> check_order_result (tc_IsPrint E) r orderID = None)"

lemma op_sends_fetch [op_sends_intros]: "op_sends n P (fetchEncryptionKey E C url)"
  unfolding fetchEncryptionKey_def by (intro op_sends_intros)

lemma calls_configure:
  "calls (\<lambda>x. x = h \<or> x = h @ [SetExtensionIdCall v]) (\<lambda>_ x. x = h \<or> x = h @ [SetExtensionIdCall v]) (configure_vault E s v) h"
  unfolding calls_def
proof (intro allI impI)
  fix w r w'
  assume run: "configure_vault E s v w = (r, w')"
  obtain q w1 where q: "SetExtensionId E s v w = (q, w1)" by fastforce
  from calls_SetExtensionId [of h v E s] q have "\<exists>new. tw_sent w1 = tw_sent w @ new \<and> (h @ new = h \<or> h @ new = h @ [SetExtensionIdCall v])"
    unfolding calls_def by (cases q) fastforce+
  moreover have "w' = w1" using run q by (auto simp: configure_vault_def split: sum.splits if_splits)
  ultimately show "\<exists>new. tw_sent w' = tw_sent w @ new \<and> (case r of Inl _ \<Rightarrow> h @ new = h \<or> h @ new = h @ [SetExtensionIdCall v]
      | Inr a \<Rightarrow> h @ new = h \<or> h @ new = h @ [SetExtensionIdCall v])"
    by (cases r) auto
qed

lemma calls_place:
  "calls (\<lambda>x. x = h \<or> x = h @ [PlaceOrderCall v ct]) (\<lambda>_ x. x = h @ [PlaceOrderCall v ct]) (place_order E L s v ct deposit) h"
  unfolding place_order_def
  by (cases "tc_Bind E ''DarkStopVault'' v") (auto intro!: calls_attempt calls_on_chain calls_SendPlaceOrder calls_value)

lemma calls_verify:
  assumes "F h" and "acknowledged E L url i orderID \<Longrightarrow> S () h"
  shows "calls F S (\<lambda>w. verifyPlaceOrderResult E L url i orderID (tool_Sleep E d w)) h"
  unfolding calls_def
proof (intro allI impI)
  fix w r w'
  assume run: "verifyPlaceOrderResult E L url i orderID (tool_Sleep E d w) = (r, w')"
  have "op_sends 0 (\<lambda>_. True) (verifyPlaceOrderResult E L url i orderID)"
    unfolding verifyPlaceOrderResult_def by (intro op_sends_intros)
  from op_sendsD [OF this run] have "tw_sent w' = tw_sent w" by (simp add: sends_def tool_Sleep_def)
  moreover have "acknowledged E L url i orderID" if "r = Inr ()"
    using run that unfolding verifyPlaceOrderResult_def acknowledged_def
    by (auto dest!: attempt_cases simp: tool_fail_def split: option.splits) blast
  ultimately show "\<exists>new. tw_sent w' = tw_sent w @ new \<and> (case r of Inl _ \<Rightarrow> F (h @ new) | Inr a \<Rightarrow> S a (h @ new))"
    using assms by (intro exI [of _ "[]"]) (cases r; simp)
qed

text \<open>The calls of a run that stopped, and of one that passed.\<close>

definition run_stopped :: "('k, 'c) tools_chain \<Rightarrow> 'p client_lib \<Rightarrow> bytes \<Rightarrow> run_flags \<Rightarrow> contract_call list \<Rightarrow> bool" where
  "run_stopped E C rand fl new \<longleftrightarrow> (let vault = tc_HexToAddress E (rf_instructionSender fl) in
     \<exists>setup \<in> {[], [SetExtensionIdCall vault]}. new = setup
       \<or> (\<exists>ct. sealed_trigger E C rand fl ct \<and> new = setup @ [PlaceOrderCall vault ct]))"

definition run_passed :: "('k, 'c) tools_chain \<Rightarrow> tee_lib \<Rightarrow> 'p client_lib \<Rightarrow> bytes \<Rightarrow> run_flags \<Rightarrow> contract_call list \<Rightarrow> bool" where
  "run_passed E L C rand fl new \<longleftrightarrow> (let vault = tc_HexToAddress E (rf_instructionSender fl) in
     \<exists>setup \<in> {[], [SetExtensionIdCall vault]}. \<exists>ct s deposit u u' i orderID tx. sealed_trigger E C rand fl ct
       \<and> new = setup @ [PlaceOrderCall vault ct] \<and> place_order E L s vault ct deposit u = (Inr (i, orderID, tx), u')
       \<and> acknowledged E L (rf_proxy fl) i orderID)"

lemma calls_place_verify:
  assumes h: "h \<in> {[], [SetExtensionIdCall v]}" and v: "v = tc_HexToAddress E (rf_instructionSender fl)"
    and ct: "sealed_trigger E C rand fl ct"
  shows "calls (run_stopped E C rand fl) (\<lambda>_. run_passed E L C rand fl)
    (attempt (place_order E L s v ct deposit) id (\<lambda>(i, orderID, tx) w.
      verifyPlaceOrderResult E L (rf_proxy fl) i orderID (tool_Sleep E d w))) h"
proof (rule calls_attempt, rule calls_result [OF calls_place])
  show "run_stopped E C rand fl x" if "x = h \<or> x = h @ [PlaceOrderCall v ct]" for x
    using that h ct unfolding run_stopped_def Let_def v by blast
  fix a x u u'
  assume x: "x = h @ [PlaceOrderCall v ct]" and a: "place_order E L s v ct deposit u = (Inr a, u')"
  obtain i orderID tx where a': "a = (i, orderID, tx)" by (cases a)
  show "calls (run_stopped E C rand fl) (\<lambda>_. run_passed E L C rand fl) (case a of (i, orderID, tx) \<Rightarrow> \<lambda>w.
      verifyPlaceOrderResult E L (rf_proxy fl) i orderID (tool_Sleep E d w)) x"
    unfolding a' prod.case
  proof (rule calls_verify)
    show "run_stopped E C rand fl x" using h ct unfolding run_stopped_def Let_def v x by blast
    show "run_passed E L C rand fl x" if "acknowledged E L (rf_proxy fl) i orderID"
      using h ct a that unfolding run_passed_def Let_def v x a' by blast
  qed
qed

lemma calls_fetch_place:
  assumes h: "h \<in> {[], [SetExtensionIdCall v]}" and v: "v = tc_HexToAddress E (rf_instructionSender fl)"
    and t: "positive_amount (rf_trigger fl) = Some t"
  shows "calls (run_stopped E C rand fl) (\<lambda>_. run_passed E L C rand fl)
    (attempt (fetchEncryptionKey E C (rf_proxy fl)) id (\<lambda>pubKey.
      attempt (lib_value (encryptToExtension C rand pubKey (order_plaintext t))) id (\<lambda>ct.
      attempt (place_order E L s v ct deposit) id (\<lambda>(i, orderID, tx) w.
      verifyPlaceOrderResult E L (rf_proxy fl) i orderID (tool_Sleep E d w))))) h"
proof (rule calls_attempt, rule calls_quiet_result [OF op_sends_fetch])
  show stop: "run_stopped E C rand fl h" using h unfolding run_stopped_def Let_def v by blast
  fix p u u'
  assume p: "fetchEncryptionKey E C (rf_proxy fl) u = (Inr p, u')"
  show "calls (run_stopped E C rand fl) (\<lambda>_. run_passed E L C rand fl)
    (attempt (lib_value (encryptToExtension C rand p (order_plaintext t))) id (\<lambda>ct.
      attempt (place_order E L s v ct deposit) id (\<lambda>(i, orderID, tx) w.
      verifyPlaceOrderResult E L (rf_proxy fl) i orderID (tool_Sleep E d w)))) h"
  proof (rule calls_attempt, rule calls_quiet_result [OF op_sends_lib])
    show "run_stopped E C rand fl h" by (rule stop)
    fix ct y y'
    assume "lib_value (encryptToExtension C rand p (order_plaintext t)) y = (Inr ct, y')"
    then have "encryptToExtension C rand p (order_plaintext t) = Inr ct"
      by (auto simp: lib_value_def tool_value_def split: sum.splits)
    then have "sealed_trigger E C rand fl ct" using p t unfolding sealed_trigger_def by blast
    from calls_place_verify [OF h v this] show "calls (run_stopped E C rand fl) (\<lambda>_. run_passed E L C rand fl)
      (attempt (place_order E L s v ct deposit) id (\<lambda>(i, orderID, tx) w.
      verifyPlaceOrderResult E L (rf_proxy fl) i orderID (tool_Sleep E d w))) h" .
  qed
qed

text \<open>C32. \<open>run-test\<close> broadcasts at most the extension id and then one order, and the order it places carries
  a ciphertext of its trigger under the key it fetched, never the trigger itself; it passes only when
  that order went out and the enclave acknowledged the very id the vault reported as open.\<close>

theorem run_test_broadcasts:
  assumes "run_test E L C getenv prvWithFunds rand fl w = (r, w')"
  shows "\<exists>new. tw_sent w' = tw_sent w @ new
    \<and> (case r of Inl _ \<Rightarrow> run_stopped E C rand fl new | Inr _ \<Rightarrow> run_passed E L C rand fl new)"
proof -
  let ?v = "tc_HexToAddress E (rf_instructionSender fl)"
  have stop: "run_stopped E C rand fl []" "run_stopped E C rand fl [SetExtensionIdCall ?v]"
    by (simp_all add: run_stopped_def Let_def)
  have "calls (run_stopped E C rand fl) (\<lambda>_. run_passed E L C rand fl) (run_test E L C getenv prvWithFunds rand fl) []"
  proof (cases "?v = 0 \<or> positive_amount (rf_deposit fl) = None \<or> positive_amount (rf_trigger fl) = None")
    case True
    then show ?thesis
      by (auto simp: run_test_def Let_def intro!: calls_value stop split: option.split)
  next
    case False
    then obtain deposit t where ok: "?v \<noteq> 0" "positive_amount (rf_deposit fl) = Some deposit"
      and t: "positive_amount (rf_trigger fl) = Some t" by auto
    show ?thesis
      unfolding run_test_def Let_def
      by (simp only: ok t if_False option.case, rule calls_attempt, rule calls_quiet [OF op_sends_DefaultSupport],
        rule stop(1), rule calls_attempt, rule calls_mono [OF calls_configure])
        (auto simp: stop intro!: calls_fetch_place [OF _ refl t])
  qed
  from callsD [OF this assms] show ?thesis .
qed

definition tiny_flags :: run_flags where
  "tiny_flags = \<lparr>rf_addresses = ''a'', rf_chain = ''u'', rf_proxy = ''u/'', rf_instructionSender = ''v'',
     rf_deposit = ''7'', rf_trigger = ''20000''\<rparr>"

lemma tiny_default: "DefaultSupport tiny_proxy (te_Getenv demo_env) () ''a'' ''u'' demo_files = (Inr demo_deployer, demo_files)"
proof -
  have "ReadAddresses tiny_proxy ''a'' demo_files = Some (SupportAddresses demo_deployer)"
    by code_simp
  then show ?thesis
    unfolding DefaultSupport_def
    by (simp add: DefaultPrivateKey_def NewSupport_def attempt_def on_chain_def tool_return_def
      tiny_proxy_def demo_tools_def demo_deployer_def demo_env_def demo_files_def demo_world_def)
qed

lemma tiny_configure: "configure_vault tiny_proxy demo_deployer 5 demo_files
    = (Inr (), demo_files\<lparr>tw_chain := 1, tw_sent := [SetExtensionIdCall 5]\<rparr>)"
  by (simp add: configure_vault_def SetExtensionId_def bind_vault_def new_transactor_def explained_send_def explained_receipt_def
      attempt_def on_chain_def tool_return_def tool_value_def transact_def Let_def tiny_proxy_def demo_tools_def demo_files_def demo_world_def)

lemma tiny_place: "place_order tiny_proxy demo_lib demo_deployer 5 ct 7 (demo_files\<lparr>tw_chain := 1, tw_sent := [SetExtensionIdCall 5]\<rparr>)
    = (Inr (4, 6, 1), demo_files\<lparr>tw_chain := 2, tw_sent := [SetExtensionIdCall 5, PlaceOrderCall 5 ct]\<rparr>)"
  by (simp add: place_order_def SendPlaceOrder_def bind_vault_def new_transactor_def explained_send_def explained_receipt_def
      attempt_def on_chain_def tool_return_def tool_value_def transact_def Let_def tiny_proxy_def demo_tools_def demo_lib_def
      demo_files_def demo_world_def)

lemma tiny_fetch_key: "fetchEncryptionKey tiny_proxy tiny_client ''u/'' w = (Inr (), w)"
proof -
  have "snd (fetchEncryptionKey tiny_proxy tiny_client ''u/'' w) = w"
    by (simp add: fetchEncryptionKey_def attempt_def on_chain_def tool_fail_def tool_value_def lib_value_def tiny_proxy_def
        split: sum.split option.split prod.split)
  moreover have "fst (fetchEncryptionKey tiny_proxy tiny_client ''u/'' w) = Inr ()"
    by (rule fetch_key [where X = tiny_env and x = tiny_extension])
      (simp_all add: tiny_fetch tiny_env_def tiny_client_of [unfolded tiny_crypto_def] tiny_proxy_def demo_tools_def
        tiny_extension_def NewStore_def Snapshot_def, simp_all add: tiny_crypto_def tiny_client_of [unfolded tiny_crypto_def])
  ultimately show ?thesis by (simp add: prod_eq_iff)
qed

lemma tiny_verify: "fst (verifyPlaceOrderResult tiny_proxy demo_lib ''u/'' i 6 w) = Inr ()"
proof -
  have url: "action_url tiny_proxy ''u/'' i \<noteq> state_url ''u/''"
    by (simp add: action_url_def state_url_def TrimRight_def)
  have six: "''6'' = format_int 6" by code_simp
  have "poll_action tiny_proxy (action_url tiny_proxy ''u/'' i) repeats r w
      = (Inr (200, marshal_OrderResponse \<lparr>ResponseOrderID = ''6'', ResponseStatus = StatusOpen\<rparr>), w)" for r
    using url by (simp add: repeats_def numeral_eq_Suc on_chain_def answer_ok_def StatusOK_int_def tiny_proxy_def)
  then show ?thesis
    using order_answer_accepted [of 6]
    by (simp add: verifyPlaceOrderResult_def ActionResult_call_def attempt_def StatusOK_int_def demo_lib_def lib_value_def
        tool_value_def tool_return_def six)
qed

lemma tiny_run: "fst (run_test tiny_proxy demo_lib tiny_client (te_Getenv demo_env) () [] tiny_flags demo_files) = Inr ()"
proof -
  have "positive_amount ''7'' = Some 7" by code_simp
  moreover have "tc_HexToAddress tiny_proxy ''v'' = 5" by (simp add: tiny_proxy_def demo_tools_def)
  moreover have "encryptToExtension tiny_client [] () m = Inr (rev m)" for m
    by (simp add: encryptToExtension_def tiny_client_def)
  ultimately show ?thesis
    by (simp add: run_test_def tiny_flags_def tiny_trigger attempt_def tiny_default tiny_configure tiny_fetch_key lib_value_def
        tool_value_def tiny_place [unfolded One_nat_def] tiny_verify)
qed

theorem run_test_broadcasts_witness:
  "run_passed tiny_proxy demo_lib tiny_client [] tiny_flags
    (tw_sent (snd (run_test tiny_proxy demo_lib tiny_client (te_Getenv demo_env) () [] tiny_flags demo_files)))"
proof -
  have "tw_sent demo_files = []" by (simp add: demo_files_def demo_world_def)
  then show ?thesis
    using run_test_broadcasts [OF prod.collapse [symmetric],
        of tiny_proxy demo_lib tiny_client "te_Getenv demo_env" "()" "[]" tiny_flags demo_files]
    unfolding tiny_run by auto
qed

end
