(* ===== verification/Audit_Tools.thy ===== *)
theory Audit_Tools
  imports Revert_Diag
begin

text \<open>
  The two commands that only look: \<open>tools/cmd/audit-deploy/main.go\<close> and
  \<open>tools/cmd/query-tee/main.go\<close>. Their value is the exit status with the standard output; what they
  write to the error stream is left out. The contract views they read are the fields of
  \<open>contract_views\<close>.
\<close>

record 'c contract_views =
  cv_BlockNumber :: "'c \<Rightarrow> uint64"
  cv_SystemSupportedPlatforms :: "address \<Rightarrow> 'c \<Rightarrow> string + hash list"
  cv_ExtensionOwner :: "address \<Rightarrow> int \<Rightarrow> 'c \<Rightarrow> string + address"
  cv_SupportedCodeHashes :: "address \<Rightarrow> int \<Rightarrow> 'c \<Rightarrow> string + hash list"
  cv_SupportedKeyTypes :: "address \<Rightarrow> int \<Rightarrow> 'c \<Rightarrow> string + hash list"
  cv_LoadABI :: "string option"
  cv_Pack :: "contract_call \<Rightarrow> string + bytes"
  cv_ActiveTeeMachines :: "address \<Rightarrow> int \<Rightarrow> 'c \<Rightarrow> string + (address list \<times> string list)"
  cv_TeeMachine :: "address \<Rightarrow> address \<Rightarrow> 'c \<Rightarrow> string + (address \<times> address \<times> string)"
  cv_TeeMachineStatus :: "address \<Rightarrow> address \<Rightarrow> 'c \<Rightarrow> string + uint8"
  cv_TeeMachineOwner :: "address \<Rightarrow> address \<Rightarrow> 'c \<Rightarrow> string + address"
  cv_ExtensionId :: "address \<Rightarrow> address \<Rightarrow> 'c \<Rightarrow> string + int"
  cv_LastStatusChangeTs :: "address \<Rightarrow> address \<Rightarrow> 'c \<Rightarrow> string + int"
  cv_InitialSigningPolicyId :: "address \<Rightarrow> address \<Rightarrow> 'c \<Rightarrow> string + 32 word"

text \<open>A view printed on one line: its value, or its error after the name.\<close>

definition view_line :: "string \<Rightarrow> string \<Rightarrow> ('a \<Rightarrow> string) \<Rightarrow> string + 'a \<Rightarrow> string" where
  "view_line name failed show_value r = ''  '' @ (case r of
     Inl err \<Rightarrow> failed @ '' ERROR: '' @ err | Inr v \<Rightarrow> name @ '': '' @ show_value v) @ nl"

section \<open>audit-deploy\<close>

record audit_flags =
  af_addresses :: string
  af_rpc :: string
  af_ext :: int
  af_codeHash :: string
  af_platform :: string
  af_from :: string
  af_version :: string

definition default_audit_flags :: audit_flags where
  "default_audit_flags = \<lparr>af_addresses = ''./config/coston/deployed-addresses.json'',
     af_rpc = ''https://coston-api.flare.network/ext/C/rpc'', af_ext = -1, af_codeHash = [], af_platform = [],
     af_from = ''0xDa50A19aF65655785ab1F4c6a5b0592AFC497C88'', af_version = ''v0.2.0''\<rparr>"

definition hash_bytes :: "hash \<Rightarrow> bytes" where
  "hash_bytes h = map (\<lambda>i. byte (unat h div 256 ^ (31 - i) mod 256)) [0..<32]"

text \<open>The bytes without the zeros at their end.\<close>

definition bytes32ToString :: "hash \<Rightarrow> string" where
  "bytes32ToString h = TrimSpace (rev (dropWhile (\<lambda>b. code b = 0) (rev (hash_bytes h))))"

definition pad_name :: "nat \<Rightarrow> string \<Rightarrow> string" where
  "pad_name n s = s @ replicate (n - length s) (CHR '' '')"

definition code_status :: "address \<Rightarrow> string + bytes \<Rightarrow> string" where
  "code_status a codeAt = (case codeAt of
     Inl err \<Rightarrow> ''ERROR '' @ err
   | Inr c \<Rightarrow> if a = 0 then ''ZERO ADDRESS'' else if length c = 0 then ''NO CODE''
       else ''ok ('' @ format_nat (length c) @ '' bytes)'')"

definition address_line :: "('k, 'c) tools_chain \<Rightarrow> 'c \<Rightarrow> string \<times> address \<Rightarrow> string" where
  "address_line E c entry = (case entry of (name, a) \<Rightarrow>
     ''  '' @ pad_name 25 name @ '' '' @ tc_AddressHex E a @ ''   '' @ code_status a (ec_CodeAt (tc_Client E c) a) @ nl)"

text \<open>A list of hashes under a heading, each with its text when it is one.\<close>

definition hash_line :: "('k, 'c) tools_chain \<Rightarrow> bool \<Rightarrow> hash \<Rightarrow> string" where
  "hash_line E named h = ''    '' @ tc_HashHex E h
     @ (if named then ''   '' @ Quote (tc_IsPrint E) (bytes32ToString h) else []) @ nl"

definition hash_list_text :: "('k, 'c) tools_chain \<Rightarrow> string \<Rightarrow> bool \<Rightarrow> hash list \<Rightarrow> string" where
  "hash_list_text E heading named hs =
     ''  '' @ heading @ '' ('' @ format_nat (length hs) @ ''):'' @ nl @ concat (map (hash_line E named) hs)"

definition manager_text :: "('k, 'c) tools_chain \<Rightarrow> 'c contract_views \<Rightarrow> 'c \<Rightarrow> address \<Rightarrow> string" where
  "manager_text E V c a =
     nl @ ''=== ExtensionManager facet @ FlareTeeManager '' @ tc_AddressHex E a @ '' ==='' @ nl
     @ (case cv_SystemSupportedPlatforms V a c of
          Inl err \<Rightarrow> ''  getSystemSupportedPlatforms ERROR: '' @ err @ nl
        | Inr plats \<Rightarrow> hash_list_text E ''systemSupportedPlatforms'' True plats)
     @ (case er_ExtensionsCounter (tc_Registry E a c) of
          Inl _ \<Rightarrow> [] | Inr cnt \<Rightarrow> ''  extensionsCounter: '' @ format_int cnt @ nl)"

definition extension_text :: "('k, 'c) tools_chain \<Rightarrow> 'c contract_views \<Rightarrow> 'c \<Rightarrow> address \<Rightarrow> int \<Rightarrow> string" where
  "extension_text E V c a eid =
     nl @ ''=== Extension id='' @ format_int eid @ '' ==='' @ nl
     @ view_line ''owner'' ''getExtensionOwner'' (tc_AddressHex E) (cv_ExtensionOwner V a eid c)
     @ (case cv_SupportedCodeHashes V a eid c of
          Inl err \<Rightarrow> ''  getSupportedCodeHashes ERROR: '' @ err @ nl
        | Inr hs \<Rightarrow> hash_list_text E ''supportedCodeHashes'' False hs)
     @ (case cv_SupportedKeyTypes V a eid c of
          Inl _ \<Rightarrow> [] | Inr kt \<Rightarrow> hash_list_text E ''supportedKeyTypes'' True kt)"

definition replay_sources :: "string list" where
  "replay_sources = [''ExtensionManager'', ''MachineManager'', ''Verification'']"

definition replay_text :: "('k, 'c) tools_chain \<Rightarrow> go_error \<Rightarrow> string" where
  "replay_text E callErr = (let revertData = extractRevertData E callErr; selector = take 4 revertData in
     if length revertData < 4 then ''  no/short revert data: '' @ err_Error callErr @ nl
     else (case error_string E revertData of
       Some reason \<Rightarrow> ''  revert reason (string): '' @ Quote (tc_IsPrint E) reason @ nl
     | None \<Rightarrow> (case find_custom_error E selector replay_sources of
         Some (src, n, unpack) \<Rightarrow> (case unpack (drop 4 revertData) of
           Inl err \<Rightarrow> ''  revert -> '' @ src @ ''.'' @ n @ '' (unpack failed: '' @ err @ '') data=0x''
             @ hex_encode revertData @ nl
         | Inr args \<Rightarrow> ''  revert -> '' @ src @ ''.'' @ n @ args @ nl)
       | None \<Rightarrow> ''  revert with unknown selector 0x'' @ hex_encode selector @ '' (full: 0x''
           @ hex_encode revertData @ '')'' @ nl)))"

definition replayAddTeeVersion :: "('k, 'c) tools_chain \<Rightarrow> 'c contract_views \<Rightarrow> address \<Rightarrow> address \<Rightarrow> int \<Rightarrow> string
    \<Rightarrow> hash \<Rightarrow> hash \<Rightarrow> 'c tool_world \<Rightarrow> string \<times> 'c tool_world" where
  "replayAddTeeVersion E V to_addr from_addr extID version codeHash platform w = (case cv_LoadABI V of
     Some err \<Rightarrow> (''  load ABI: '' @ err @ nl, w)
   | None \<Rightarrow> (case cv_Pack V (AddTeeVersionCall extID version codeHash [platform] 0) of
       Inl err \<Rightarrow> (''  pack: '' @ err @ nl, w)
     | Inr calldata \<Rightarrow>
         (case on_chain (tc_CallContract E \<lparr>cm_From = from_addr, cm_To = Some to_addr, cm_Gas = 0, cm_GasPrice = None,
             cm_Value = None, cm_Data = calldata\<rparr>) w of
            (Inr _, w') \<Rightarrow> (''  eth_call succeeded '' @ em_dash @ '' tx-time-only revert (gas/state race?)'' @ nl, w')
          | (Inl callErr, w') \<Rightarrow> (replay_text E callErr, w'))))"

definition audit_manager :: "('k, 'c) tools_chain \<Rightarrow> 'c contract_views \<Rightarrow> audit_flags \<Rightarrow> address
    \<Rightarrow> 'c tool_world \<Rightarrow> string \<times> 'c tool_world" where
  "audit_manager E V fl a w = (let c = tw_chain w;
       out = manager_text E V c a @ (if 0 \<le> af_ext fl then extension_text E V c a (af_ext fl) else []) in
     if af_codeHash fl \<noteq> [] \<and> af_platform fl \<noteq> [] \<and> 0 \<le> af_ext fl
     then (case replayAddTeeVersion E V a (tc_HexToAddress E (af_from fl)) (af_ext fl) (af_version fl)
         (tc_HexToHash E (af_codeHash fl)) (tc_HexToHash E (af_platform fl)) w of (text, w') \<Rightarrow>
       (out @ nl @ ''=== addTeeVersion eth_call replay (decoding revert) ==='' @ nl @ text, w'))
     else (out, w))"

definition audit_deploy :: "('k, 'c) tools_chain \<Rightarrow> 'c contract_views \<Rightarrow> audit_flags \<Rightarrow> 'c tool_world
    \<Rightarrow> (nat \<times> bytes) \<times> 'c tool_world" where
  "audit_deploy E V fl w = (case ParseAddresses E (af_addresses fl) w of
     Inl _ \<Rightarrow> ((1, []), w)
   | Inr addr \<Rightarrow> (case tc_Dial E (af_rpc fl) of
       Some _ \<Rightarrow> ((1, []), w)
     | None \<Rightarrow> (case on_chain (tc_ChainID E) w of
         (Inl _, w') \<Rightarrow> ((1, []), w')
       | (Inr chainID, w') \<Rightarrow>
           (let a = FlareTeeManager addr; c = tw_chain w';
                head = ''Chain ID: '' @ format_int chainID @ ''   block: '' @ FormatUint (cv_BlockNumber V c) @ nl
                  @ concat (map (address_line E c) [(''FlareTeeManager'', a),
                      (''FlareSystemsManager'', FlareSystemManager addr), (''Fdc2Hub'', Fdc2Hub addr)]) in
            if a = 0 \<or> tc_Bind E ''ExtensionManager'' a \<noteq> None then ((0, head), w')
            else (case audit_manager E V fl a w' of (text, w'') \<Rightarrow> ((0, head @ text), w''))))))"

section \<open>query-tee\<close>

record query_flags =
  qf_rpc :: string
  qf_reg :: string
  qf_ext :: int
  qf_args :: "string list"

definition default_query_flags :: query_flags where
  "default_query_flags = \<lparr>qf_rpc = ''https://coston2-api.flare.network/ext/C/rpc'',
     qf_reg = ''0x5918Cd58e5caf755b8584649Aa24077822F87613'', qf_ext = -1, qf_args = []\<rparr>"

text \<open>The list of machines; the flag is the panic of a URL list that is too short.\<close>

fun machine_lines :: "('k, 'c) tools_chain \<Rightarrow> nat \<Rightarrow> address list \<Rightarrow> string list \<Rightarrow> string \<times> bool" where
  "machine_lines E i [] urls = ([], False)"
| "machine_lines E i (t # ids) [] = ([], True)"
| "machine_lines E i (t # ids) (u # urls) = (case machine_lines E (Suc i) ids urls of (text, panics) \<Rightarrow>
     (''  '' @ format_nat i @ '': '' @ tc_AddressHex E t @ '' url='' @ Quote (tc_IsPrint E) u @ nl @ text, panics))"

definition active_text :: "('k, 'c) tools_chain \<Rightarrow> 'c contract_views \<Rightarrow> 'c \<Rightarrow> address \<Rightarrow> int \<Rightarrow> string \<times> bool" where
  "active_text E V c mm ext = (let head = nl @ ''=== Active TEEs for extensionId='' @ format_int ext @ '' ==='' @ nl in
     case cv_ActiveTeeMachines V mm ext c of
       Inl err \<Rightarrow> (head @ ''getActiveTeeMachines ERROR: '' @ err @ nl, False)
     | Inr (ids, urls) \<Rightarrow> (case machine_lines E 0 ids urls of (text, panics) \<Rightarrow>
         (head @ text @ (if \<not> panics \<and> length ids = 0 then ''  (none)'' @ nl else []), panics)))"

definition machine_text :: "('k, 'c) tools_chain \<Rightarrow> 'c contract_views \<Rightarrow> 'c \<Rightarrow> address \<Rightarrow> string \<Rightarrow> string" where
  "machine_text E V c mm raw = (let i = tc_HexToAddress E raw in
     nl @ ''=== TEE '' @ tc_AddressHex E i @ '' ==='' @ nl
     @ (case cv_TeeMachine V mm i c of
          Inl err \<Rightarrow> ''  getTeeMachine ERROR: '' @ err @ nl
        | Inr (teeId, proxyId, url) \<Rightarrow> ''  getTeeMachine: teeId='' @ tc_AddressHex E teeId @ '' teeProxyId=''
            @ tc_AddressHex E proxyId @ '' url='' @ Quote (tc_IsPrint E) url @ nl
            @ (if teeId = 0 then ''  -> EMPTY/UNREGISTERED'' @ nl else []))
     @ view_line ''getTeeMachineStatus'' ''getTeeMachineStatus'' (\<lambda>st. format_nat (unat st)) (cv_TeeMachineStatus V mm i c)
     @ view_line ''getTeeMachineOwner'' ''getTeeMachineOwner'' (tc_AddressHex E) (cv_TeeMachineOwner V mm i c)
     @ view_line ''getExtensionId'' ''getExtensionId'' format_int (cv_ExtensionId V mm i c)
     @ view_line ''getLastStatusChangeTs'' ''getLastStatusChangeTs'' format_int (cv_LastStatusChangeTs V mm i c)
     @ view_line ''getInitialSigningPolicyId'' ''getInitialSigningPolicyId'' (\<lambda>p. format_nat (unat p))
         (cv_InitialSigningPolicyId V mm i c))"

definition query_tee :: "('k, 'c) tools_chain \<Rightarrow> 'c contract_views \<Rightarrow> query_flags \<Rightarrow> 'c \<Rightarrow> nat \<times> bytes" where
  "query_tee E V fl c = (let mm = tc_HexToAddress E (qf_reg fl) in
     if tc_Dial E (qf_rpc fl) \<noteq> None \<or> tc_Bind E ''MachineManager'' mm \<noteq> None then (1, [])
     else (case (if 0 \<le> qf_ext fl then active_text E V c mm (qf_ext fl) else ([], False)) of (text, panics) \<Rightarrow>
       if panics then (2, text) else (0, text @ concat (map (machine_text E V c mm) (qf_args fl)))))"

section \<open>They only look\<close>

lemma replay_sends: "sends n P w (snd (replayAddTeeVersion E V a b x v c p w))"
  by (auto simp: replayAddTeeVersion_def sends_def on_chain_def split: option.split sum.split prod.split)

lemma audit_manager_sends: "sends n P w (snd (audit_manager E V fl a w))"
  using replay_sends [of n P w E V a "tc_HexToAddress E (af_from fl)" "af_ext fl" "af_version fl"
      "tc_HexToHash E (af_codeHash fl)" "tc_HexToHash E (af_platform fl)"]
  by (auto simp: audit_manager_def Let_def sends_refl split: prod.split)

end
