(* ===== verification/Start_Tools.thy ===== *)
theory Start_Tools
  imports Tee_Calls
begin

text \<open>
  The two commands that start local services, \<open>tools/cmd/start-tee/main.go\<close> and
  \<open>tools/cmd/start-proxy/main.go\<close>. The environment is a function that \<open>os.Setenv\<close> updates, after
  \<open>loadEnv\<close> has run; the servers of the tee-node and tee-proxy modules and the extension only start
  here, and what the extension server's error channel holds after 100 ms is an argument. Waiting for a signal is left
  out.
\<close>

type_synonym environ = "string \<Rightarrow> string"

definition millis_ns :: "int \<Rightarrow> int" where
  "millis_ns ms = ms * (second_ns div 1000)"

section \<open>start-tee\<close>

definition owner_private_key :: "('k, 'c) tools_chain \<Rightarrow> environ \<Rightarrow> go_error + 'k" where
  "owner_private_key E env = (let privKeyString = env ''DEPLOYMENT_PRIVATE_KEY'' in
     if privKeyString = []
     then (case PrvWithFunds E of None \<Rightarrow> Inl (Errorf ''cannot parse default private key'') | Some k \<Rightarrow> Inr k)
     else tc_HexToECDSA E (if HasPrefix privKeyString ''0x'' \<or> HasPrefix privKeyString ''0X''
       then drop 2 privKeyString else privKeyString))"

text \<open>The address it returns is that of the variable as it was read.\<close>

definition setOwnerAddress :: "('k, 'c) tools_chain \<Rightarrow> environ \<Rightarrow> go_error + (address \<times> environ)" where
  "setOwnerAddress E env = (let owner = env ''INITIAL_OWNER'' in
     if owner = []
     then (case owner_private_key E env of
         Inl err \<Rightarrow> Inl err
       | Inr k \<Rightarrow> Inr (tc_HexToAddress E owner, env(''INITIAL_OWNER'' := tc_AddressHex E (tc_KeyAddress E k))))
     else Inr (tc_HexToAddress E owner, env))"

definition runExtension :: "('k, 'c) tools_chain \<Rightarrow> tee_lib \<Rightarrow> string option \<Rightarrow> ('c, unit) tool_op" where
  "runExtension E L listen_error w = (let w1 = tool_Sleep E (millis_ns 100) w in
     case listen_error of
       Some err \<Rightarrow> tool_fail (Errorf (''extension server failed to start: '' @ err)) w1
     | None \<Rightarrow> SetProxyUrl E L ExtConfigurationPort ExtProxyInternalPort (tool_Sleep E (millis_ns 150) w1))"

text \<open>Its value is the environment the tee-node reads.\<close>

definition start_tee :: "('k, 'c) tools_chain \<Rightarrow> tee_lib \<Rightarrow> string option \<Rightarrow> string \<Rightarrow> environ \<Rightarrow> ('c, environ) tool_op" where
  "start_tee E L listen_error extensionID env = (case setOwnerAddress E env of
     Inl err \<Rightarrow> tool_fail err
   | Inr (owner, env1) \<Rightarrow>
       attempt (runExtension E L listen_error) id (\<lambda>_.
       tool_return (if extensionID \<noteq> [] then env1(''EXTENSION_ID'' := extensionID) else env1)))"

text \<open>Without \<open>INITIAL_OWNER\<close> the variable gets the deployer's address, and the function returns the
  address of the empty text.\<close>

lemma setOwnerAddress_unset:
  assumes "env ''INITIAL_OWNER'' = []" and "owner_private_key E env = Inr k"
  shows "\<exists>env'. setOwnerAddress E env = Inr (tc_HexToAddress E [], env')
    \<and> env' ''INITIAL_OWNER'' = tc_AddressHex E (tc_KeyAddress E k)"
  using assms by (simp add: setOwnerAddress_def)

section \<open>start-proxy\<close>

text \<open>\<open>root\<close> is \<open>projectRoot()\<close>; \<open>exists\<close> tells whether \<open>os.Stat\<close> finds a file.\<close>

definition findProxyConfig :: "environ \<Rightarrow> string \<Rightarrow> (string \<Rightarrow> bool) \<Rightarrow> string" where
  "findProxyConfig env root file_exists = (let candidate = root @ ''/config/proxy/extension_proxy.toml'' in
     if env ''PROXY_CONFIG'' \<noteq> [] then env ''PROXY_CONFIG''
     else if file_exists candidate then candidate
     else ''./config/proxy/extension_proxy.toml'')"

text \<open>\<open>read_port\<close> is \<open>proxyConfig.Read\<close> with the external port of what it reads.\<close>

definition logProxyAndTeeIds :: "('k, 'c) tools_chain \<Rightarrow> tee_lib \<Rightarrow> (string \<Rightarrow> string + string) \<Rightarrow> string
    \<Rightarrow> ('c, address \<times> address) tool_op" where
  "logProxyAndTeeIds E L read_port configFile =
     attempt (lib_value (read_port configFile)) (reworded ''failed to read proxy config: '') (\<lambda>port.
     attempt (GetTeeProxyID E L (''http://localhost:'' @ port)) (reworded ''failed to extract teeID and proxyID: '') tool_return)"

text \<open>After \<open>Init\<close> of the proxy a failure to read the ids is only a warning: its text, if any.\<close>

definition start_proxy :: "('k, 'c) tools_chain \<Rightarrow> tee_lib \<Rightarrow> (string \<Rightarrow> string + string) \<Rightarrow> environ \<Rightarrow> string
    \<Rightarrow> (string \<Rightarrow> bool) \<Rightarrow> 'c tool_world \<Rightarrow> string option \<times> 'c tool_world" where
  "start_proxy E L read_port env root file_exists w =
     (case logProxyAndTeeIds E L read_port (findProxyConfig env root file_exists) w of
        (Inl err, w') \<Rightarrow> (Some (''Failed to log proxy and tee IDs: '' @ err_Error err), w')
      | (Inr ids, w') \<Rightarrow> (None, w'))"

end
