(* ===== verification/Spec2Isabelle.thy ===== *)
theory Spec2Isabelle
  imports Vault_Node Order_Heap Types_Server Checks_Props Registration_Id Register_Tools
    Deploy_Contract Verify_Deploy Tee_Polling Types_Client_Props Run_Test_Props Node_Props Audit_Tools Start_Tools
begin

text \<open>
  A model of DarkStop, a confidential stop-loss service on the Flare chain, and the proofs that its
  parts do what the repository promises. A user deposits native tokens in the contract
  \<open>contracts/DarkStopVault.sol\<close> together with a trigger policy that is encrypted to the key of an
  enclave. The enclave process decrypts the policy, keeps it in an in-memory order book, watches the
  FLR/USD feed and, when a trigger is reached, sends the transaction \<open>settle\<close> that reveals the
  trigger. The tools deploy the contract, register the enclave's machine and check a deployment.

  THEORIES AND CODE

  Foundation. \<open>Go_Prelude\<close>: machine integers, Go maps as association lists whose order is the order
  of a \<open>range\<close> loop, times in nanoseconds, reachability with the locale \<open>inv_machine\<close> (invariants
  of step relations) and the locale \<open>key_map\<close> (the laws of maps). \<open>Go_Strings\<close>, \<open>Go_Json\<close>, \<open>Go_Fmt\<close>,
  \<open>Json_Compact\<close>: what the code uses of \<open>strings\<close>, \<open>strconv\<close>, \<open>encoding/hex\<close>, \<open>encoding/json\<close>, \<open>fmt\<close>
  and \<open>bufio\<close>, on lists of characters that stand for bytes.

  Enclave. \<open>Order_Store\<close> models every method of \<open>internal/extension/store.go\<close>; \<open>Order_Book\<close>,
  \<open>Order_Triggers\<close> and \<open>Order_Lifecycle\<close> prove well-formedness, the trigger rule, and the life cycle
  (step relation \<open>store_step\<close>, locale \<open>order_book\<close>). \<open>Order_Heap\<close> models the same methods on
  pointers and a heap, \<open>cloneOrder\<close> included, and proves that they refine \<open>Order_Store\<close>.
  \<open>Order_Policy\<close> and \<open>Policy_Parser\<close> model and verify \<open>crypto.go\<close>; \<open>Msg_Types\<close> and \<open>Decoder_Registry\<close> model \<open>pkg/types\<close> and \<open>pkg/decoder\<close>;
  \<open>Extension\<close> the handlers of \<open>extension.go\<close> and \<open>utils.go\<close>, \<open>Extension_Props\<close> their theorems;
  \<open>Types_Server\<close> models \<open>internal/typesserver\<close> with its routes and the programs that start it,
  \<open>Config\<close> models \<open>internal/config\<close>.

  Watcher. \<open>Chain_Env\<close> is the interface \<open>ChainClient\<close> of \<open>internal/extension/watcher.go\<close>. \<open>Watcher\<close>
  has the state (\<open>Watcher.wstore\<close> is the shared book, \<open>pending\<close> the broadcasts without a receipt,
  \<open>nonceOwners\<close> and \<open>nextNonce\<close> the nonce table), price reading and nonces; \<open>Settlement\<close> has
  \<open>settle\<close>, its retries, the reconciliation and \<open>tick\<close>. \<open>Watcher_Inv\<close> and \<open>Watcher_Steps\<close> carry
  the invariant and the frame through every method, one lemma each; \<open>Watcher_History\<close> says what each
  method and one tick add to the history, for which order, at which trigger, on which evidence;
  \<open>Watcher_Tick\<close>, \<open>Watcher_Safety\<close>, \<open>Watcher_Methods\<close> and \<open>Watcher_Liveness\<close> hold what follows for
  ticks, for all reachable states (relation \<open>watch_step\<close>), for single methods, and for a cooperative
  chain.
  \<open>Launch\<close> is \<open>LaunchWatcherFromConfig\<close>.

  Process. \<open>Node\<close> composes extension and watcher as \<open>cmd/docker/main.go\<close> and \<open>cmd/main.go\<close> do: one
  book, requests and ticks in any order (\<open>node_step\<close>). \<open>Node_Props\<close> shows that this refines the
  watcher's model and follows an order from the encrypted instruction to its settlement.

  Contracts. \<open>Vault\<close> models \<open>contracts/DarkStopVault.sol\<close>: storage, constructor, every function, the
  arithmetic of Solidity 0.8, reverts, and calls to other contracts that may call back (\<open>reaction\<close>,
  \<open>outside_at\<close>, a step relation \<open>vault_step\<close>). \<open>Vault_Inv\<close> and \<open>Vault_Safety\<close> show that every function
  keeps the invariant and makes progress whatever is called, by induction on the depth of calls;
  \<open>Vault_Runs\<close> gives the state one accepted message leaves; \<open>Payout_Token\<close> is \<open>MockUSDT0.sol\<close>;
  \<open>Abi_Codec\<close> the encoding of the two instruction messages; \<open>Vault_Dev\<close> the mocks and the deployment of
  \<open>contracts/dev\<close>. \<open>Vault_Props\<close> compares contract and enclave; \<open>Vault_Node\<close> composes them: from the
  deposit and the sealed trigger to the payout.

  Tools (\<open>tools/\<close>). \<open>Report\<close>, \<open>Validate\<close>, \<open>Checks_Deploy\<close>, \<open>Checks_Steps\<close> and \<open>Checks_Props\<close>:
  \<open>pkg/validate\<close>; \<open>Tools_Env\<close>: the world of the tools and the calculus that bounds what a command
  broadcasts (\<open>op_sends\<close>, \<open>calls\<close>); \<open>Support\<close>, \<open>Tee_Calls\<close>, \<open>Tee_Polling\<close>, \<open>Revert_Diag\<close>,
  \<open>Registration\<close>, \<open>Registration_Resume\<close>, \<open>Registration_Id\<close>, \<open>Setup_Extension\<close>: \<open>pkg/configs\<close>,
  \<open>pkg/support\<close> and \<open>pkg/fccutils\<close>; \<open>Vault_Calls\<close>: \<open>pkg/utils/instructions.go\<close>; \<open>Deploy_Contract\<close>,
  \<open>Verify_Deploy\<close>, \<open>Register_Tools\<close>, \<open>Run_Test\<close>, \<open>Run_Test_Props\<close>, \<open>Types_Client\<close>,
  \<open>Types_Client_Props\<close>, \<open>Audit_Tools\<close>, \<open>Start_Tools\<close>: the programs under \<open>cmd\<close>; \<open>Tools_Demo\<close>: a
  small concrete world for examples.

  HOW THE CODE IS REPRESENTED

  A struct is a record with the source's field names, \<open>uint64\<close>, \<open>uint8\<close> and \<open>int8\<close> are words of their
  width, \<open>big.Int\<close> is \<open>int\<close>, with \<open>option\<close> where the pointer may be nil, a Go error is the left side
  of a sum, and a method with a receiver takes the receiver's record and returns it changed. A loop
  over a list is a recursion on it. Orders are values, so \<open>cloneOrder\<close> is the identity, which \<open>Order_Heap\<close> justifies; every store
  method holds the store's lock throughout, so it is one step, and \<open>interfere\<close> lets request handlers
  act before each access of the watcher. Three histories are in the model and not in the code, and no
  definition reads them to decide anything: \<open>broadcasts\<close>, the transactions the watcher sent, each with
  its order and trigger, the book at that moment (\<open>b_book\<close>) and the nonces found mined before it
  (\<open>b_mined\<close>); \<open>minedNonces\<close>, those nonces so far; and the log of the transactions of the tools.

  Code outside the repository is a parameter: \<open>chain_env\<close> (node, clock, ABI and signing),
  \<open>tee_env\<close> (node types and request printers), \<open>crypto_lib\<close>, \<open>abi_lib\<close>, \<open>tool_env\<close>, \<open>tools_chain\<close>,
  \<open>tee_lib\<close>, \<open>client_env\<close>, \<open>client_lib\<close>, \<open>contract_views\<close>. A theorem that relies on it names the
  documented behaviour as a hypothesis (\<open>cooperative\<close>, the inverse laws of encryption and packing)
  and has a witness with a concrete function.

  WHAT IS PROVED

  Order book: well-formedness of every reachable book, \<open>Put\<close> on every branch, the exact set and
  order of triggered orders, the exact integer trailing trigger, the watermark as a maximum, the
  exact phase of an order (absent, open, executed) after each operation, which the scan and the
  sampling never change, and that the copies the book makes protect it from every write of its callers. Policies: the key check and the struct decoder accept one grammar, an accepted policy is in range, the documented plaintexts parse, and
  no answer depends on a policy. Watcher: one settlement in flight; everything sent
  carries a nonce above all those found mined before, whether in \<open>settleOnce\<close> or by reconciliation; everything a tick sends is for an order open at that moment, at its effective
  trigger in the scanned book or, for a replacement, in the current one, and that trigger is not
  below a fresh sample; a tick sends at most three transactions per order and marks an order executed
  only on a successful receipt or the vault's own status; a pending broadcast is dropped only on
  evidence, replacements outbid, and with a cooperative node a tick settles exactly the triggered
  orders. The price is the feed value rounded down to six decimals, so a trigger can fire while a
  finer feed is less than one unit above it. Process: refinement of
  the watcher's model. Contract: solvency, at most one payout or refund per order and in the right
  amount, both under reentrancy, the exact conditions of \<open>settle\<close> and of \<open>cancel\<close>, which never lacks
  funds but depends on both TEE registries. Whole system:
  an order sealed by its owner is settled with its trigger and paid out. Tools: exact conditions
  on which a deployment step fails and on which \<open>verify-deploy\<close> exits with 0, resumable registration, the broadcasts of each command and their order, bounded polling, and the
  agreement of clients with servers.

  BOUNDS AND FUEL

  \<open>parse_value\<close> takes fuel; \<open>json_fuel\<close> is twice the length plus two, and \<open>parse_fuel_enough\<close> shows
  that more changes nothing, so every caller passes it. All other recursions terminate by a measure:
  \<open>next_free\<close> counts up to \<open>2 ^ 64 - 1\<close>. The code's own limits are kept: three attempts per
  settlement, three missing checks and 30 seconds before a broadcast is dropped or replaced, 15
  polls, 64 KiB per line of \<open>bufio.Scanner\<close>, 300 seconds of price age. Nested calls are bounded by
  the 1024 frames of the machine's call stack (\<open>call_depth\<close>); the proofs hold for every depth.

  NOT MODELLED

  The generated bindings under \<open>tools/pkg/contracts\<close> and the registries, the feed and the libraries
  they bind (they are parameters), gas, the frontend, scripts, documentation and tests; listen loops, signals, shutdown
  and log lines; \<open>loadEnv\<close> (a library reads the file); the functions that only end
  the process (\<open>FatalWithCause\<close>, \<open>RequireNoError\<close>, \<open>RequireTrue\<close>); the encoders of \<open>encoding.go\<close>,
  which nothing calls; \<open>pubKeyPreview\<close> and \<open>getLogFromBody\<close>, which only feed log lines; the constants
  that no modelled code reads. So a theorem speaks of the values a call returns and of the
  transactions it sends, not of the text it logs.
\<close>

end
